(* ===== verification/Prelude.thy ===== *)
theory Prelude
  imports Main "HOL-Library.AList" "HOL-Library.Sublist" "HOL-Library.Code_Target_Nat"
begin

text \<open>
  The shared base of the development: Go errors as values, the store's transactions as a
  state-and-error monad, tables as association lists with the upsert the SQL uses, 64-bit
  signed arithmetic, and the string operations of Go's standard library that the source
  calls.  Go strings are byte strings, which the lists of characters of HOL model byte for byte.

  The named collections are used throughout: \<open>txs\<close> decomposes a successful transaction into
  its successful steps, \<open>frames\<close> says what a step leaves alone.
\<close>

named_theorems txs \<open>how a successful transaction step decomposes\<close>
named_theorems frames \<open>what a step leaves unchanged\<close>

section \<open>Errors\<close>

text \<open>
  One constructor per way the source tells errors apart: \<open>sql.ErrNoRows\<close>, the two kinds of
  \<open>managementError\<close>, the sentinel \<open>ErrEscrowSnapshotReorg\<close>, an error of the SQLite driver
  (here always a violated constraint), every other \<open>errors.New\<close>, and the two wrappers of the chain
  listener, \<open>stageError\<close> and \<open>fatalError\<close>.
\<close>

datatype error =
    ErrNoRows
  | InvalidInput string
  | StateConflict string
  | ErrEscrowSnapshotReorg
  | SqliteError string
  | PlainError string
  | StageError string error
  | FatalError error

type_synonym 'a result = "error + 'a"

section \<open>Transactions\<close>

text \<open>
  The body of \<open>Store.Write\<close> reads and writes the open transaction and may stop early with an
  error.  The state reached so far is part of the result in both cases, because whether it
  survives is decided by the caller (commit or rollback), not by the statement that failed.
\<close>

type_synonym ('s, 'a) tx = "'s \<Rightarrow> 'a result \<times> 's"

definition ret :: "'a \<Rightarrow> ('s, 'a) tx" where
  "ret x s = (Inr x, s)"

definition fail :: "error \<Rightarrow> ('s, 'a) tx" where
  "fail e s = (Inl e, s)"

definition bindE :: "('s, 'a) tx \<Rightarrow> ('a \<Rightarrow> ('s, 'b) tx) \<Rightarrow> ('s, 'b) tx" where
  "bindE m f s = (case m s of (Inl e, s') \<Rightarrow> (Inl e, s') | (Inr x, s') \<Rightarrow> f x s')"

definition thenE :: "('s, 'a) tx \<Rightarrow> ('s, 'b) tx \<Rightarrow> ('s, 'b) tx" where
  "thenE m k = bindE m (\<lambda>_. k)"

definition gets :: "('s \<Rightarrow> 'a) \<Rightarrow> ('s, 'a) tx" where
  "gets f s = (Inr (f s), s)"

definition modify :: "('s \<Rightarrow> 's) \<Rightarrow> ('s, unit) tx" where
  "modify f s = (Inr (), f s)"

definition liftE :: "'a result \<Rightarrow> ('s, 'a) tx" where
  "liftE r s = (r, s)"

fun forE :: "'a list \<Rightarrow> ('a \<Rightarrow> ('s, unit) tx) \<Rightarrow> ('s, unit) tx" where
  "forE [] f = ret ()"
| "forE (x # xs) f = thenE (f x) (forE xs f)"

fun mapE :: "'a list \<Rightarrow> ('a \<Rightarrow> ('s, 'b) tx) \<Rightarrow> ('s, 'b list) tx" where
  "mapE [] f = ret []"
| "mapE (x # xs) f = bindE (f x) (\<lambda>y. bindE (mapE xs f) (\<lambda>ys. ret (y # ys)))"

lemma ret_simp [simp]: "ret x s = (Inr x, s)"
  by (simp add: ret_def)

lemma fail_simp [simp]: "fail e s = (Inl e, s)"
  by (simp add: fail_def)

lemma gets_simp [simp]: "gets f s = (Inr (f s), s)"
  by (simp add: gets_def)

lemma modify_simp [simp]: "modify f s = (Inr (), f s)"
  by (simp add: modify_def)

lemma liftE_simp: "liftE r s = (r, s)"
  by (simp add: liftE_def)

lemma bindE_Inr: "bindE m f s = (Inr y, t) \<longleftrightarrow> (\<exists>x u. m s = (Inr x, u) \<and> f x u = (Inr y, t))"
  by (auto simp: bindE_def split: prod.splits sum.splits)

lemma bindE_Inl: "bindE m f s = (Inl e, t) \<longleftrightarrow>
    m s = (Inl e, t) \<or> (\<exists>x u. m s = (Inr x, u) \<and> f x u = (Inl e, t))"
  by (auto simp: bindE_def split: prod.splits sum.splits)

lemma thenE_Inr: "thenE m k s = (Inr y, t) \<longleftrightarrow> (\<exists>x u. m s = (Inr x, u) \<and> k u = (Inr y, t))"
  by (simp add: thenE_def bindE_Inr)

lemma thenE_Inl: "thenE m k s = (Inl e, t) \<longleftrightarrow>
    m s = (Inl e, t) \<or> (\<exists>x u. m s = (Inr x, u) \<and> k u = (Inl e, t))"
  by (simp add: thenE_def bindE_Inl)

lemmas tx_success = bindE_Inr thenE_Inr
lemmas tx_failure = bindE_Inl thenE_Inl

declare tx_success [txs]

text \<open>A step that cannot fail runs straight into the next.\<close>

lemma bindE_step: "m s = (Inr x, u) \<Longrightarrow> bindE m f s = f x u"
  by (simp add: bindE_def)

lemma bindE_stop: "m s = (Inl e, u) \<Longrightarrow> bindE m f s = (Inl e, u)"
  by (simp add: bindE_def)

lemma thenE_step: "m s = (Inr x, u) \<Longrightarrow> thenE m k s = k u"
  by (simp add: thenE_def bindE_step)

lemma thenE_stop: "m s = (Inl e, u) \<Longrightarrow> thenE m k s = (Inl e, u)"
  by (simp add: thenE_def bindE_stop)

lemma bindE_gets [simp]: "bindE (gets g) f s = f (g s) s"
  by (simp add: bindE_step)

lemma thenE_modify [simp]: "thenE (modify g) k s = k (g s)"
  by (simp add: thenE_step)

lemma bindE_liftE: "bindE (liftE r) f s = (case r of Inl e \<Rightarrow> (Inl e, s) | Inr x \<Rightarrow> f x s)"
  by (simp add: bindE_def liftE_simp split: sum.splits)

lemma liftE_Inr [txs]: "liftE r s = (Inr x, s') \<longleftrightarrow> r = Inr x \<and> s' = s"
  by (auto simp: liftE_simp)

lemma guard_Inr [txs]:
  "(if c then fail e else m) s = (Inr x, s') \<longleftrightarrow> \<not> c \<and> m s = (Inr x, s')"
  "(if c then m else fail e) s = (Inr x, s') \<longleftrightarrow> c \<and> m s = (Inr x, s')"
  by simp_all

subsection \<open>Postconditions of successful transactions\<close>

text \<open>
  \<open>keeps I m\<close>: a successful run of \<open>m\<close> from a state with \<open>I\<close> ends in a state with \<open>I\<close>.
  The locale collects what a component needs to lift an invariant over the monad; each
  invariant of the development interprets it.
\<close>

definition keeps :: "('s \<Rightarrow> bool) \<Rightarrow> ('s, 'a) tx \<Rightarrow> bool" where
  "keeps I m \<longleftrightarrow> (\<forall>s x s'. I s \<longrightarrow> m s = (Inr x, s') \<longrightarrow> I s')"

lemma keepsI [intro?]: "(\<And>s x s'. I s \<Longrightarrow> m s = (Inr x, s') \<Longrightarrow> I s') \<Longrightarrow> keeps I m"
  by (auto simp: keeps_def)

lemma keepsD: "keeps I m \<Longrightarrow> m s = (Inr x, s') \<Longrightarrow> I s \<Longrightarrow> I s'"
  by (auto simp: keeps_def)

lemma keeps_ret: "keeps I (ret x)"
  by (simp add: keeps_def)

lemma keeps_fail: "keeps I (fail e)"
  by (simp add: keeps_def)

lemma keeps_gets: "keeps I (gets f)"
  by (simp add: keeps_def)

lemma keeps_liftE: "keeps I (liftE r)"
  by (simp add: keeps_def liftE_simp)

lemma keeps_bindE: "keeps I m \<Longrightarrow> (\<And>x. keeps I (f x)) \<Longrightarrow> keeps I (bindE m f)"
  unfolding keeps_def bindE_Inr by metis

lemma keeps_thenE: "keeps I m \<Longrightarrow> keeps I k \<Longrightarrow> keeps I (thenE m k)"
  by (auto simp: thenE_def intro: keeps_bindE)

lemma keeps_forE: "(\<And>x. x \<in> set xs \<Longrightarrow> keeps I (f x)) \<Longrightarrow> keeps I (forE xs f)"
  by (induction xs) (auto intro: keeps_ret keeps_thenE)

lemmas keeps_intros = keeps_ret keeps_fail keeps_gets keeps_liftE keeps_bindE keeps_thenE

subsection \<open>What successful transactions relate\<close>

text \<open>
  \<open>within R m\<close>: a successful run of \<open>m\<close> ends in a state related to the first by \<open>R\<close>.  For a
  reflexive and transitive \<open>R\<close> the claim composes along the program text; frames (\<open>these tables
  are as before\<close>) and monotone claims (\<open>rows are only added\<close>) are both of this kind.
\<close>

definition within :: "('s \<Rightarrow> 's \<Rightarrow> bool) \<Rightarrow> ('s, 'a) tx \<Rightarrow> bool" where
  "within R m \<longleftrightarrow> (\<forall>s x s'. m s = (Inr x, s') \<longrightarrow> R s s')"

lemma withinI: "(\<And>s x s'. m s = (Inr x, s') \<Longrightarrow> R s s') \<Longrightarrow> within R m"
  by (simp add: within_def)

lemma withinD: "within R m \<Longrightarrow> m s = (Inr x, s') \<Longrightarrow> R s s'"
  by (auto simp: within_def)

lemma within_modify: "(\<And>s. R s (f s)) \<Longrightarrow> within R (modify f)"
  by (auto simp: within_def)

text \<open>\<open>always R m\<close>: the state after \<open>m\<close>, whether it succeeds or fails, is related to the first by \<open>R\<close>.\<close>

definition always :: "('s \<Rightarrow> 's \<Rightarrow> bool) \<Rightarrow> ('s, 'a) tx \<Rightarrow> bool" where
  "always R m \<longleftrightarrow> (\<forall>s. R s (snd (m s)))"

locale preorder_frame =
  fixes R :: "'s \<Rightarrow> 's \<Rightarrow> bool"
  assumes R_refl: "R s s"
    and R_trans: "R s t \<Longrightarrow> R t u \<Longrightarrow> R s u"
begin

lemma within_ret: "within R (ret x)"
  by (simp add: within_def R_refl)

lemma within_fail: "within R (fail e)"
  by (simp add: within_def)

lemma within_gets: "within R (gets f)"
  by (simp add: within_def R_refl)

lemma within_liftE: "within R (liftE r)"
  by (simp add: within_def liftE_simp R_refl)

lemma within_bindE: "within R m \<Longrightarrow> (\<And>x. within R (f x)) \<Longrightarrow> within R (bindE m f)"
  unfolding within_def bindE_Inr using R_trans by blast

lemma within_thenE: "within R m \<Longrightarrow> within R k \<Longrightarrow> within R (thenE m k)"
  by (auto simp: thenE_def intro: within_bindE)

lemma within_forE: "(\<And>x. x \<in> set xs \<Longrightarrow> within R (f x)) \<Longrightarrow> within R (forE xs f)"
  by (induction xs) (auto intro: within_ret within_thenE)

lemma within_if: "within R m \<Longrightarrow> within R k \<Longrightarrow> within R (if c then m else k)"
  by simp

lemma within_case_option: "within R m \<Longrightarrow> (\<And>x. within R (f x)) \<Longrightarrow> within R (case r of None \<Rightarrow> m | Some x \<Rightarrow> f x)"
  by (cases r) simp_all

lemma within_case_prod: "(\<And>x y. within R (f x y)) \<Longrightarrow> within R (case p of (x, y) \<Rightarrow> f x y)"
  by (cases p) simp

lemmas within_intros = within_ret within_fail within_gets within_liftE within_bindE within_thenE
  within_forE within_if within_case_option within_case_prod

lemma always_ret: "always R (ret x)" "always R (fail e)" "always R (gets f)" "always R (liftE r)"
  by (simp_all add: always_def R_refl liftE_simp)

lemma always_bindE: "always R m \<Longrightarrow> (\<And>x. always R (f x)) \<Longrightarrow> always R (bindE m f)"
  unfolding always_def
proof
  fix s assume m: "\<forall>s. R s (snd (m s))" and f: "\<And>x. \<forall>s. R s (snd (f x s))"
  obtain r s' where run: "m s = (r, s')" by fastforce
  then have "R s s'" using m by (metis snd_conv)
  then show "R s (snd (bindE m f s))"
    using f R_trans by (cases r) (auto simp: bindE_def run)
qed

lemma always_thenE: "always R m \<Longrightarrow> always R k \<Longrightarrow> always R (thenE m k)"
  by (auto simp: thenE_def intro: always_bindE)

lemma always_mapE: "(\<And>x. always R (f x)) \<Longrightarrow> always R (mapE xs f)"
  by (induction xs) (auto intro: always_ret always_bindE)

lemma always_if: "always R m \<Longrightarrow> always R k \<Longrightarrow> always R (if c then m else k)"
  by simp

lemma always_case_option: "always R m \<Longrightarrow> (\<And>x. always R (f x)) \<Longrightarrow> always R (case r of None \<Rightarrow> m | Some x \<Rightarrow> f x)"
  by (cases r) simp_all

lemma always_case_prod: "(\<And>x y. always R (f x y)) \<Longrightarrow> always R (case p of (x, y) \<Rightarrow> f x y)"
  by (cases p) simp

lemma always_forE: "(\<And>x. x \<in> set xs \<Longrightarrow> always R (f x)) \<Longrightarrow> always R (forE xs f)"
  by (induction xs) (auto intro: always_ret always_thenE)

lemmas always_rules = always_ret always_bindE always_thenE always_mapE always_forE always_if always_case_option
  always_case_prod

end

subsection \<open>Wrapped errors\<close>

text \<open>\<open>fmt.Errorf("\<dots>: %w", err)\<close>: a sentinel stays recognisable, a plain message is prefixed.\<close>

definition wrap_error :: "string \<Rightarrow> error \<Rightarrow> error" where
  "wrap_error what e = (case e of PlainError m \<Rightarrow> PlainError (what @ '': '' @ m) | _ \<Rightarrow> e)"

definition wrapE :: "string \<Rightarrow> ('s, 'a) tx \<Rightarrow> ('s, 'a) tx" where
  "wrapE what m s = (case m s of (Inl e, s') \<Rightarrow> (Inl (wrap_error what e), s') | (Inr x, s') \<Rightarrow> (Inr x, s'))"

lemma wrapE_Inr [txs]: "wrapE what m s = (Inr x, s') \<longleftrightarrow> m s = (Inr x, s')"
  by (auto simp: wrapE_def split: prod.splits sum.splits)

lemma within_wrapE: "within R m \<Longrightarrow> within R (wrapE what m)"
  by (fastforce simp: within_def wrapE_def split: prod.splits sum.splits)

section \<open>Tables keyed by a primary key\<close>

text \<open>
  A table that is written only by \<open>INSERT \<dots> ON CONFLICT \<dots> DO UPDATE\<close> is an association
  list under \<^const>\<open>AList.update\<close>: the row of a known key is replaced in place, a new
  key goes to the end.  \<open>tsum\<close> adds a measure up over the rows; an upsert changes it by the
  difference at the key.
\<close>

definition tsum :: "('k \<Rightarrow> bool) \<Rightarrow> ('v \<Rightarrow> int) \<Rightarrow> ('k \<times> 'v) list \<Rightarrow> int" where
  "tsum P f t = (\<Sum>(k, v)\<leftarrow>t. if P k then f v else 0)"

lemma tsum_Nil [simp]: "tsum P f [] = 0"
  by (simp add: tsum_def)

lemma tsum_Cons [simp]: "tsum P f ((k, v) # t) = (if P k then f v else 0) + tsum P f t"
  by (simp add: tsum_def)

definition tget :: "('v \<Rightarrow> int) \<Rightarrow> ('k \<times> 'v) list \<Rightarrow> 'k \<Rightarrow> int" where
  "tget f t k = (case map_of t k of None \<Rightarrow> 0 | Some v \<Rightarrow> f v)"

lemma tget_update: "tget f (AList.update k v t) k' = (if k' = k then f v else tget f t k')"
  by (simp add: tget_def AList.update_conv')

lemma tsum_update:
  "tsum P f (AList.update k v t) = tsum P f t + (if P k then f v - tget f t k else 0)"
  by (induction t) (auto simp: tget_def)

lemma tsum_cong:
  "(\<And>k v. (k, v) \<in> set t \<Longrightarrow> (if P k then f v else 0) = (if Q k then f v else 0)) \<Longrightarrow>
   tsum P f t = tsum Q f t"
  by (induction t) auto

lemma set_update_subset: "set (AList.update k v t) \<subseteq> insert (k, v) (set t)"
  by (induction t) auto

lemma set_updateD: "x \<in> set (AList.update k v t) \<Longrightarrow> x = (k, v) \<or> x \<in> set t"
  using set_update_subset by fast

lemma keys_update: "fst ` set (AList.update k v t) = insert k (fst ` set t)"
  using AList.dom_update [of k v t] by auto

text \<open>
  The interface every upserted table offers its clients: a lookup with a default and a store
  that changes exactly the key it names.
\<close>

locale upsert_table =
  fixes get :: "'s \<Rightarrow> 'k \<Rightarrow> 'v"
    and put :: "'k \<Rightarrow> 'v \<Rightarrow> 's \<Rightarrow> 's"
  assumes get_put: "get (put k v s) k' = (if k' = k then v else get s k')"
begin

lemma get_put_same: "get (put k v s) k = v"
  by (simp add: get_put)

lemma get_put_other: "k' \<noteq> k \<Longrightarrow> get (put k v s) k' = get s k'"
  by (simp add: get_put)

lemma put_shadows: "get (put k w (put k v s)) k' = get (put k w s) k'"
  by (simp add: get_put)

lemma put_commutes: "k \<noteq> l \<Longrightarrow> get (put k v (put l w s)) k' = get (put l w (put k v s)) k'"
  by (simp add: get_put)

end

section \<open>Signed 64-bit integers\<close>

text \<open>Go's \<open>int64\<close> arithmetic wraps; positions and millisecond clocks use it.\<close>

abbreviation MaxInt64 :: int where
  "MaxInt64 \<equiv> 9223372036854775807"

abbreviation MinInt64 :: int where
  "MinInt64 \<equiv> - 9223372036854775808"

definition i64 :: "int \<Rightarrow> int" where
  "i64 x = (x + 9223372036854775808) mod 18446744073709551616 - 9223372036854775808"

definition is_i64 :: "int \<Rightarrow> bool" where
  "is_i64 x \<longleftrightarrow> MinInt64 \<le> x \<and> x \<le> MaxInt64"

lemma i64_id: "is_i64 x \<Longrightarrow> i64 x = x"
  by (simp add: i64_def is_i64_def)

lemma is_i64_i64: "is_i64 (i64 x)"
  using pos_mod_bound [of 18446744073709551616 "x + 9223372036854775808"]
    pos_mod_sign [of 18446744073709551616 "x + 9223372036854775808"]
  unfolding i64_def is_i64_def by linarith

section \<open>Go strings\<close>

definition code :: "char \<Rightarrow> nat" where
  "code c = of_char c"

lemma code_eq_iff [simp]: "code c = code d \<longleftrightarrow> c = d"
  by (simp add: code_def)

lemma code_less: "code c < 256"
  by (simp add: code_def)

definition is_digit :: "char \<Rightarrow> bool" where
  "is_digit c \<longleftrightarrow> 48 \<le> code c \<and> code c \<le> 57"

definition is_lower_hex :: "char \<Rightarrow> bool" where
  "is_lower_hex c \<longleftrightarrow> is_digit c \<or> 97 \<le> code c \<and> code c \<le> 102"

definition lower_char :: "char \<Rightarrow> char" where
  "lower_char c = (if 65 \<le> code c \<and> code c \<le> 90 then char_of (code c + 32) else c)"

text \<open>
  \<open>strings.ToLower\<close> on ASCII bytes.  The source applies it to hexadecimal text that it then
  restricts to ASCII, and no character outside ASCII lowers to an ASCII hexadecimal digit.
\<close>

definition ToLower :: "string \<Rightarrow> string" where
  "ToLower = map lower_char"

lemma code_lower_char:
  "code (lower_char c) = (if 65 \<le> code c \<and> code c \<le> 90 then code c + 32 else code c)"
  using code_less [of c] by (simp add: lower_char_def code_def)

lemma lower_char_idem [simp]: "lower_char (lower_char c) = lower_char c"
proof (cases "65 \<le> code c \<and> code c \<le> 90")
  case True
  then have "code (lower_char c) = code c + 32" by (simp add: code_lower_char)
  with True have "\<not> (65 \<le> code (lower_char c) \<and> code (lower_char c) \<le> 90)" by simp
  then show ?thesis by (simp only: lower_char_def [of "lower_char c"] if_False)
next
  case False
  then have "lower_char c = c" by (simp only: lower_char_def if_False)
  then show ?thesis by simp
qed

lemma ToLower_idem [simp]: "ToLower (ToLower s) = ToLower s"
  by (simp add: ToLower_def)

lemma length_ToLower [simp]: "length (ToLower s) = length s"
  by (simp add: ToLower_def)

lemma ToLower_append: "ToLower (xs @ ys) = ToLower xs @ ToLower ys"
  by (simp add: ToLower_def)

lemma ToLower_drop: "ToLower (drop n s) = drop n (ToLower s)"
  by (simp add: ToLower_def drop_map)

lemma ToLower_take: "ToLower (take n s) = take n (ToLower s)"
  by (simp add: ToLower_def take_map)

text \<open>\<open>strings.EqualFold\<close> against an ASCII word without \<open>k\<close> or \<open>s\<close>, whose letters fold only
  within ASCII.\<close>

definition EqualFold :: "string \<Rightarrow> string \<Rightarrow> bool" where
  "EqualFold a b \<longleftrightarrow> ToLower a = ToLower b"

text \<open>\<open>strings.Split\<close> with a one-byte separator: always at least one part.\<close>

fun split_on :: "char \<Rightarrow> string \<Rightarrow> string list" where
  "split_on d [] = [[]]"
| "split_on d (c # cs) =
     (if c = d then [] # split_on d cs
      else case split_on d cs of [] \<Rightarrow> [[c]] | p # ps \<Rightarrow> (c # p) # ps)"

lemma split_on_nonempty: "split_on d s \<noteq> []"
  by (induction s) (auto split: list.splits)

lemma split_on_no_sep: "d \<notin> set s \<Longrightarrow> split_on d s = [s]"
  by (induction s) auto

lemma split_on_first: "d \<notin> set a \<Longrightarrow> split_on d (a @ d # b) = a # split_on d b"
  by (induction a) auto

lemma split_on_join:
  "concat (map (\<lambda>p. d # p) (split_on d s)) = d # s"
  by (induction s) (auto simp: split_on_nonempty split: list.splits)

lemma split_on_one: "split_on d s = [a] \<Longrightarrow> s = a"
  using split_on_join [of d s] by simp

lemma split_on_two: "split_on d s = [a, b] \<Longrightarrow> s = a @ d # b"
  using split_on_join [of d s] by simp

text \<open>\<open>slices.Compact\<close> and \<open>strings.Join\<close>.\<close>

fun compact :: "'a list \<Rightarrow> 'a list" where
  "compact [] = []"
| "compact [x] = [x]"
| "compact (x # y # ys) = (if x = y then compact (y # ys) else x # compact (y # ys))"

fun join :: "string \<Rightarrow> string list \<Rightarrow> string" where
  "join sep [] = []"
| "join sep [x] = x"
| "join sep (x # xs) = x @ sep @ join sep xs"

lemma compact_props:
  "set (compact xs) = set xs" "xs \<noteq> [] \<Longrightarrow> hd (compact xs) = hd xs" "compact xs = [] \<longleftrightarrow> xs = []"
  by (induction xs rule: compact.induct) auto

lemma sorted_compact: "sorted (xs :: 'a :: linorder list) \<Longrightarrow> sorted (compact xs) \<and> distinct (compact xs)"
proof (induction xs rule: compact.induct)
  case (3 x y ys)
  show ?case
  proof (cases "x = y")
    case False
    then have "x < y" using 3 by auto
    then have "\<forall>z \<in> set (y # ys). x < z" using 3(3) by auto
    then show ?thesis using 3 False by (auto simp: compact_props(1))
  qed (use 3 in auto)
qed auto

lemma compact_sort: "compact (sort xs) = sorted_list_of_set (set xs)" for xs :: "'a :: linorder list"
  using sorted_compact [of "sort xs"] compact_props(1) [of "sort xs"]
  by (metis set_sort sorted_sort sorted_list_of_set.idem_if_sorted_distinct)

text \<open>A lower-case hexadecimal digit.\<close>

definition hex_digit :: "nat \<Rightarrow> char" where
  "hex_digit n = (if n < 10 then char_of (48 + n) else char_of (87 + n))"

definition hex_encode :: "string \<Rightarrow> string" where
  "hex_encode b = concat (map (\<lambda>c. [hex_digit (code c div 16), hex_digit (code c mod 16)]) b)"

definition oneOf :: "string \<Rightarrow> string list \<Rightarrow> bool" where
  "oneOf s values \<longleftrightarrow> s \<in> set values"

definition boolCount :: "bool \<Rightarrow> int" where
  "boolCount v = (if v then 1 else 0)"

lemma boolCount_simps [simp]: "boolCount True = 1" "boolCount False = 0"
  by (simp_all add: boolCount_def)

lemma boolCount_nonneg [simp]: "0 \<le> boolCount b"
  by (simp add: boolCount_def)

end
