(* ===== verification/Units.thy ===== *)
theory Units
  imports Prelude
begin

text \<open>
  \<open>internal/units/eth.go\<close>: the exact conversion between user-facing decimals with up to 18
  fractional digits and integers in units of \<open>10^-18\<close>, over the strings both sides use.  The
  first section models what the source needs of \<open>math/big\<close>: \<open>Int.String\<close> and
  \<open>Int.SetString(_, 10)\<close>.
\<close>

section \<open>Decimal text of integers\<close>

definition digit_char :: "nat \<Rightarrow> char" where
  "digit_char n = ''0123456789'' ! n"

definition digit_val :: "char \<Rightarrow> nat" where
  "digit_val c = code c - 48"

fun nat_str :: "nat \<Rightarrow> string" where
  "nat_str n = (if n < 10 then [digit_char n] else nat_str (n div 10) @ [digit_char (n mod 10)])"

declare nat_str.simps [simp del]

definition int_str :: "int \<Rightarrow> string" where
  "int_str i = (if i < 0 then CHR ''-'' # nat_str (nat (- i)) else nat_str (nat i))"

definition dec_val :: "string \<Rightarrow> nat" where
  "dec_val s = foldl (\<lambda>a c. 10 * a + digit_val c) 0 s"

definition all_digits :: "string \<Rightarrow> bool" where
  "all_digits s \<longleftrightarrow> (\<forall>c \<in> set s. is_digit c)"

definition SetString :: "string \<Rightarrow> int option" where
  "SetString s =
     (let (neg, body) = (case s of
            [] \<Rightarrow> (False, [])
          | c # cs \<Rightarrow> if c = CHR ''-'' then (True, cs)
                      else if c = CHR ''+'' then (False, cs) else (False, c # cs))
      in if body = [] \<or> \<not> all_digits body then None
         else Some (if neg then - int (dec_val body) else int (dec_val body)))"

definition canonical :: "string \<Rightarrow> bool" where
  "canonical s \<longleftrightarrow> s \<noteq> [] \<and> all_digits s \<and> (1 < length s \<longrightarrow> hd s \<noteq> CHR ''0'')"

definition zero_digit :: char where
  "zero_digit = CHR ''0''"

subsection \<open>Digits\<close>

lemma digit_cases: "n < 10 \<Longrightarrow> n \<in> {0, 1, 2, 3, 4, 5, 6, 7, 8, (9::nat)}"
  by auto

lemma code_digit_char: "n < 10 \<Longrightarrow> code (digit_char n) = 48 + n"
  by (drule digit_cases) (auto simp: digit_char_def code_def)

lemma is_digit_digit_char [simp]: "n < 10 \<Longrightarrow> is_digit (digit_char n)"
  by (simp add: is_digit_def code_digit_char)

lemma digit_val_digit_char [simp]: "n < 10 \<Longrightarrow> digit_val (digit_char n) = n"
  by (simp add: digit_val_def code_digit_char)

lemma digit_val_less: "is_digit c \<Longrightarrow> digit_val c < 10"
  unfolding is_digit_def digit_val_def by linarith

lemma digit_char_digit_val [simp]: "is_digit c \<Longrightarrow> digit_char (digit_val c) = c"
proof -
  assume d: "is_digit c"
  then have "code (digit_char (digit_val c)) = 48 + digit_val c"
    by (simp add: code_digit_char digit_val_less)
  also have "\<dots> = code c" using d by (simp add: is_digit_def digit_val_def)
  finally show ?thesis by simp
qed

lemma digit_val_zero_iff: "is_digit c \<Longrightarrow> digit_val c = 0 \<longleftrightarrow> c = CHR ''0''"
proof -
  assume d: "is_digit c"
  have "digit_val c = 0 \<longleftrightarrow> code c = code (CHR ''0'')"
    using d by (auto simp: is_digit_def digit_val_def code_def [of "CHR ''0''"])
  then show ?thesis by simp
qed

lemma digit_not_special: "is_digit c \<Longrightarrow> c \<noteq> CHR ''-'' \<and> c \<noteq> CHR ''+'' \<and> c \<noteq> CHR ''.''"
  by (auto simp: is_digit_def code_def)

lemma is_digit_zero [simp]: "is_digit (CHR ''0'')"
  by (simp add: is_digit_def code_def)

lemma digit_val_zero [simp]: "digit_val (CHR ''0'') = 0"
  by (simp add: digit_val_def code_def)

lemma all_digits_simps [simp]:
  "all_digits []"
  "all_digits (c # cs) \<longleftrightarrow> is_digit c \<and> all_digits cs"
  "all_digits (xs @ ys) \<longleftrightarrow> all_digits xs \<and> all_digits ys"
  "all_digits (rev xs) \<longleftrightarrow> all_digits xs"
  "all_digits (replicate n (CHR ''0''))"
  by (auto simp: all_digits_def)

lemma all_digits_dropWhile: "all_digits s \<Longrightarrow> all_digits (dropWhile P s)"
  by (auto simp: all_digits_def dest: set_dropWhileD)

lemma all_digits_no_dot: "all_digits s \<Longrightarrow> CHR ''.'' \<notin> set s"
  using digit_not_special by (auto simp: all_digits_def)

subsection \<open>Values of digit strings\<close>

lemma foldl_dec: "foldl (\<lambda>a c. 10 * a + digit_val c) a s = a * 10 ^ length s + dec_val s"
proof (induction s arbitrary: a)
  case Nil
  then show ?case by (simp add: dec_val_def)
next
  case (Cons c s)
  have "dec_val (c # s) = digit_val c * 10 ^ length s + dec_val s"
    using Cons.IH [of "digit_val c"] by (simp add: dec_val_def)
  then show ?case using Cons.IH [of "10 * a + digit_val c"] by (simp add: algebra_simps)
qed

lemma dec_val_Nil [simp]: "dec_val [] = 0"
  by (simp add: dec_val_def)

lemma dec_val_append: "dec_val (xs @ ys) = dec_val xs * 10 ^ length ys + dec_val ys"
  using foldl_dec [of "dec_val xs" ys] by (simp add: dec_val_def)

lemma dec_val_single [simp]: "dec_val [c] = digit_val c"
  by (simp add: dec_val_def)

lemma dec_val_Cons: "dec_val (c # s) = digit_val c * 10 ^ length s + dec_val s"
  using dec_val_append [of "[c]" s] by simp

lemma dec_val_snoc: "dec_val (s @ [c]) = 10 * dec_val s + digit_val c"
  by (simp add: dec_val_append)

lemma dec_val_zeros [simp]: "dec_val (replicate n (CHR ''0'')) = 0"
  by (induction n) (simp_all add: dec_val_Cons)

lemma dec_val_trim [simp]: "dec_val (dropWhile ((=) (CHR ''0'')) s) = dec_val s"
  by (induction s) (auto simp: dec_val_Cons)

lemma dec_val_bound: "all_digits s \<Longrightarrow> dec_val s < 10 ^ length s"
proof (induction s)
  case (Cons c s)
  then have "digit_val c * 10 ^ length s + dec_val s < (digit_val c + 1) * 10 ^ length s"
    by simp
  also have "\<dots> \<le> 10 * 10 ^ length s"
    using Cons.prems digit_val_less [of c] by (intro mult_right_mono) auto
  finally show ?case by (simp add: dec_val_Cons)
qed simp

lemma digit_val_pos: "is_digit c \<Longrightarrow> c \<noteq> CHR ''0'' \<Longrightarrow> 1 \<le> digit_val c"
  using digit_val_zero_iff [of c] by linarith

lemma dec_val_lower: "all_digits s \<Longrightarrow> s \<noteq> [] \<Longrightarrow> hd s \<noteq> CHR ''0'' \<Longrightarrow> 10 ^ (length s - 1) \<le> dec_val s"
proof (cases s)
  case (Cons c cs)
  assume "all_digits s" "hd s \<noteq> CHR ''0''"
  with Cons have "1 * 10 ^ length cs \<le> digit_val c * 10 ^ length cs"
    by (intro mult_right_mono digit_val_pos) auto
  then have "10 ^ length cs \<le> digit_val c * 10 ^ length cs + dec_val cs" by linarith
  with Cons show ?thesis by (simp add: dec_val_Cons)
qed simp

lemma dec_val_pos: "all_digits s \<Longrightarrow> s \<noteq> [] \<Longrightarrow> hd s \<noteq> CHR ''0'' \<Longrightarrow> 0 < dec_val s"
  using dec_val_lower [of s] zero_less_power [of "10::nat" "length s - 1"] by linarith

subsection \<open>The text of a number is its canonical digit string\<close>

lemma nat_str_small [simp]: "n < 10 \<Longrightarrow> nat_str n = [digit_char n]"
  by (simp add: nat_str.simps)

lemma nat_str_step: "10 \<le> n \<Longrightarrow> nat_str n = nat_str (n div 10) @ [digit_char (n mod 10)]"
  by (subst nat_str.simps) simp

lemma nat_str_nonempty [simp]: "nat_str n \<noteq> []"
  by (subst nat_str.simps) simp

lemma all_digits_nat_str [simp]: "all_digits (nat_str n)"
proof (induction n rule: nat_str.induct)
  case (1 n)
  then show ?case by (cases "n < 10") (simp_all add: nat_str_step)
qed

lemma dec_val_nat_str [simp]: "dec_val (nat_str n) = n"
proof (induction n rule: nat_str.induct)
  case (1 n)
  then show ?case by (cases "n < 10") (simp_all add: nat_str_step dec_val_snoc)
qed

lemma nat_str_dec_val: "canonical s \<Longrightarrow> nat_str (dec_val s) = s"
proof (induction s rule: rev_induct)
  case Nil
  then show ?case by (simp add: canonical_def)
next
  case (snoc c s)
  then have c: "is_digit c" by (simp add: canonical_def)
  show ?case
  proof (cases "s = []")
    case True
    then show ?thesis using c digit_val_less [of c] by simp
  next
    case False
    with snoc.prems have s: "canonical s" "hd s \<noteq> CHR ''0''" by (auto simp: canonical_def)
    then have "0 < dec_val s" using False by (intro dec_val_pos) (auto simp: canonical_def)
    then show ?thesis
      using snoc.IH [OF s(1)] c digit_val_less [OF c] by (simp add: nat_str_step dec_val_snoc)
  qed
qed

lemma canonical_hd: "canonical s \<Longrightarrow> s = ''0'' \<or> hd s \<noteq> CHR ''0''"
  by (cases s; cases "tl s") (auto simp: canonical_def)

lemma canonical_nat_str [simp]: "canonical (nat_str n)"
proof (induction n rule: nat_str.induct)
  case (1 n)
  show ?case
  proof (cases "n < 10")
    case False
    then have IH: "canonical (nat_str (n div 10))" using 1 by simp
    have "nat_str (n div 10) \<noteq> ''0''"
    proof
      assume "nat_str (n div 10) = ''0''"
      then have "n div 10 = 0" using dec_val_nat_str [of "n div 10"] by simp
      with False show False by simp
    qed
    then have "hd (nat_str (n div 10)) \<noteq> CHR ''0''" using canonical_hd [OF IH] by simp
    with False show ?thesis by (simp add: nat_str_step canonical_def)
  qed (simp add: canonical_def)
qed

lemma canonical_iff_nat_str: "canonical s \<longleftrightarrow> (\<exists>n. s = nat_str n)"
  using nat_str_dec_val canonical_nat_str by metis

lemma nat_str_inject [simp]: "nat_str m = nat_str n \<longleftrightarrow> m = n"
  by (metis dec_val_nat_str)

lemma canonical_trim:
  assumes "all_digits s"
  shows "(let t = dropWhile ((=) (CHR ''0'')) s in if t = [] then ''0'' else t) = nat_str (dec_val s)"
proof -
  let ?t = "dropWhile ((=) (CHR ''0'')) s"
  show ?thesis
  proof (cases "?t = []")
    case True
    then have "dec_val s = 0" by (metis dec_val_trim dec_val_Nil)
    with True show ?thesis by (simp add: digit_char_def)
  next
    case False
    then have "canonical ?t"
      using assms hd_dropWhile [of "(=) (CHR ''0'')" s] by (auto simp: canonical_def all_digits_dropWhile)
    then have "nat_str (dec_val ?t) = ?t" by (rule nat_str_dec_val)
    then have "nat_str (dec_val s) = ?t" by (simp only: dec_val_trim)
    with False show ?thesis by (simp only: Let_def if_False)
  qed
qed

lemma nat_str_no_sign: "nat_str n = c # cs \<Longrightarrow> c \<noteq> CHR ''-'' \<and> c \<noteq> CHR ''+''"
  using all_digits_nat_str [of n] digit_not_special [of c] by simp

lemma SetString_nat_str [simp]: "SetString (nat_str n) = Some (int n)"
  by (cases "nat_str n")
    (use nat_str_no_sign [of n] all_digits_nat_str [of n] dec_val_nat_str [of n]
      in \<open>auto simp: SetString_def\<close>)

lemma SetString_int_str [simp]: "SetString (int_str i) = Some i"
  by (simp add: int_str_def) (simp add: SetString_def)

lemma int_str_inject [simp]: "int_str i = int_str j \<longleftrightarrow> i = j"
  by (metis SetString_int_str option.inject)

lemma length_nat_str_bound: "n < 10 ^ k \<Longrightarrow> 0 < k \<Longrightarrow> length (nat_str n) \<le> k"
proof (rule ccontr)
  assume n: "n < 10 ^ k" "0 < k" and "\<not> length (nat_str n) \<le> k"
  then have l: "k < length (nat_str n)" by simp
  with n(2) have "1 < length (nat_str n)" by simp
  then have "hd (nat_str n) \<noteq> CHR ''0''" using canonical_nat_str [of n] by (simp add: canonical_def)
  then have "10 ^ (length (nat_str n) - 1) \<le> n" using dec_val_lower [of "nat_str n"] by simp
  moreover have "(10::nat) ^ k \<le> 10 ^ (length (nat_str n) - 1)" using l by (intro power_increasing) auto
  ultimately show False using n(1) by linarith
qed

lemma nat_str_int_str: "int_str (int n) = nat_str n"
  by (simp add: int_str_def)

section \<open>The conversions of eth.go\<close>

definition digits :: "string \<Rightarrow> bool" where
  "digits value \<longleftrightarrow> all_digits value \<and> value \<noteq> []"

definition decimals :: nat where
  "decimals = 18"

definition unitsPerCurrency :: int where
  "unitsPerCurrency = 10 ^ decimals"

definition TrimLeft0 :: "string \<Rightarrow> string" where
  "TrimLeft0 = dropWhile ((=) (CHR ''0''))"

definition orZero :: "string \<Rightarrow> string" where
  "orZero s = (if s = [] then ''0'' else s)"

definition TrimRight0 :: "string \<Rightarrow> string" where
  "TrimRight0 s = rev (dropWhile ((=) (CHR ''0'')) (rev s))"

definition DecimalToUnits :: "string \<Rightarrow> string \<Rightarrow> string result" where
  "DecimalToUnits value currency =
     (if value = [] then Inl (PlainError (''amount in '' @ currency @ '' is required''))
      else
        let parts = split_on (CHR ''.'') value;
            bad = Inl (PlainError (''amount must be an unsigned decimal '' @ currency @ '' value''))
        in if 2 < length parts \<or> parts ! 0 = [] \<or> (length parts = 2 \<and> parts ! 1 = []) then bad
        else if \<not> digits (parts ! 0) \<or> (length parts = 2 \<and> \<not> digits (parts ! 1)) then bad
        else
          let fraction = (if length parts = 2 then parts ! 1 else [])
          in if decimals < length fraction
             then Inl (PlainError ''amount has more than 18 decimal places'')
             else
               let whole = orZero (TrimLeft0 (parts ! 0));
                   value1 = whole @ fraction @ replicate (decimals - length fraction) (CHR ''0'');
                   digitsValue = orZero (TrimLeft0 value1)
               in if 256 < length digitsValue
                  then Inl (PlainError ''amount exceeds the 256-digit unit limit'')
                  else Inr digitsValue)"

definition ETHToWei :: "string \<Rightarrow> string result" where
  "ETHToWei value = DecimalToUnits value ''ETH''"

definition UnitsToDecimal :: "string \<Rightarrow> string result" where
  "UnitsToDecimal value0 =
     (let negative = (case value0 of [] \<Rightarrow> False | c # _ \<Rightarrow> c = CHR ''-'');
          value = (if negative then tl value0 else value0);
          bad = Inl (PlainError ''invalid amount units'')
      in if value = [] \<or> \<not> digits value \<or> (1 < length value \<and> hd value = CHR ''0'') then bad
      else case SetString value of None \<Rightarrow> bad
      | Some n \<Rightarrow>
          let whole = n div unitsPerCurrency;
              remainder = n mod unitsPerCurrency;
              out1 = int_str whole;
              out2 = (if remainder \<noteq> 0
                      then (let fraction0 = int_str remainder;
                                fraction = replicate (decimals - length fraction0) (CHR ''0'') @ fraction0
                            in out1 @ ''.'' @ TrimRight0 fraction)
                      else out1)
          in Inr (if negative \<and> n \<noteq> 0 then CHR ''-'' # out2 else out2))"

definition WeiToETH :: "string \<Rightarrow> string result" where
  "WeiToETH value = UnitsToDecimal value"


section \<open>What the conversions compute\<close>

subsection \<open>Parsing\<close>

text \<open>The number of units an accepted decimal denotes: whole part \<open>w\<close>, fraction \<open>f\<close>.\<close>

definition scaled :: "string \<Rightarrow> string \<Rightarrow> nat" where
  "scaled w f = dec_val w * 10 ^ 18 + dec_val f * 10 ^ (18 - length f)"

definition decimal_text :: "string \<Rightarrow> string \<Rightarrow> string \<Rightarrow> bool" where
  "decimal_text v w f \<longleftrightarrow>
     w \<noteq> [] \<and> all_digits w \<and> all_digits f \<and> length f \<le> 18 \<and>
     (if f = [] then v = w else v = w @ CHR ''.'' # f)"

lemma whole_val:
  "all_digits w \<Longrightarrow> orZero (TrimLeft0 w) = nat_str (dec_val w)"
  unfolding TrimLeft0_def orZero_def by (rule canonical_trim [unfolded Let_def])

lemma scaled_text:
  assumes "all_digits w" "all_digits f" "length f \<le> 18"
  shows "orZero (TrimLeft0 (nat_str (dec_val w) @ f @ replicate (18 - length f) (CHR ''0'')))
    = nat_str (scaled w f)"
proof -
  let ?v = "nat_str (dec_val w) @ f @ replicate (18 - length f) (CHR ''0'')"
  have "dec_val ?v = dec_val w * 10 ^ 18 + dec_val f * 10 ^ (18 - length f)"
    using assms(3) by (simp add: dec_val_append)
  then have "dec_val ?v = scaled w f" by (simp only: scaled_def)
  moreover have "all_digits ?v" using assms by simp
  ultimately show ?thesis using whole_val [of ?v] by (simp only:)
qed

lemma split_dot:
  "split_on (CHR ''.'') v = [a] \<Longrightarrow> v = a"
  "split_on (CHR ''.'') v = [a, b] \<Longrightarrow> v = a @ CHR ''.'' # b"
  by (rule split_on_one split_on_two; simp)+

lemma split_decimal_text:
  "decimal_text v w f \<Longrightarrow> split_on (CHR ''.'') v = (if f = [] then [w] else [w, f])"
  using all_digits_no_dot [of w] all_digits_no_dot [of f]
  by (auto simp: decimal_text_def split_on_no_sep split_on_first split: if_splits)

lemma DecimalToUnits_accepts:
  assumes "decimal_text v w f"
  shows "DecimalToUnits v cur =
    (let u = nat_str (scaled w f) in
     if 256 < length u then Inl (PlainError ''amount exceeds the 256-digit unit limit'') else Inr u)"
proof -
  have w: "w \<noteq> []" "all_digits w" "all_digits f" "length f \<le> 18"
    using assms by (auto simp: decimal_text_def)
  have "v \<noteq> []" using assms by (auto simp: decimal_text_def split: if_splits)
  then show ?thesis
    using w scaled_text [OF w(2-4), simplified] split_decimal_text [OF assms]
    by (cases "f = []") (simp_all add: DecimalToUnits_def digits_def decimals_def whole_val Let_def)
qed

lemma DecimalToUnits_rejects:
  assumes "DecimalToUnits v cur = Inr u"
  shows "\<exists>w f. decimal_text v w f"
proof -
  let ?p = "split_on (CHR ''.'') v"
  from assms have l: "length ?p \<le> 2" "digits (?p ! 0)"
    "length ?p = 2 \<longrightarrow> digits (?p ! 1) \<and> length (?p ! 1) \<le> 18"
    by (auto simp: DecimalToUnits_def decimals_def Let_def split: if_splits)
  consider a where "?p = [a]" | a b where "?p = [a, b]"
    using l(1) split_on_nonempty [of "CHR ''.''" v]
    by (cases ?p rule: list.exhaust; cases "tl ?p"; cases "tl (tl ?p)") auto
  then show ?thesis
  proof cases
    case 1
    with l have "decimal_text v a []" by (simp add: decimal_text_def digits_def split_dot)
    then show ?thesis by blast
  next
    case 2
    with l have "decimal_text v a b" by (simp add: decimal_text_def digits_def split_dot)
    then show ?thesis by blast
  qed
qed

lemma DecimalToUnits_Inr:
  "DecimalToUnits v cur = Inr u \<longleftrightarrow>
   (\<exists>w f. decimal_text v w f \<and> u = nat_str (scaled w f) \<and> length u \<le> 256)"
proof
  assume r: "DecimalToUnits v cur = Inr u"
  then obtain w f where "decimal_text v w f" using DecimalToUnits_rejects by blast
  with r DecimalToUnits_accepts [OF this, of cur]
  show "\<exists>w f. decimal_text v w f \<and> u = nat_str (scaled w f) \<and> length u \<le> 256"
    by (auto simp: Let_def split: if_splits)
next
  assume "\<exists>w f. decimal_text v w f \<and> u = nat_str (scaled w f) \<and> length u \<le> 256"
  then show "DecimalToUnits v cur = Inr u"
    using DecimalToUnits_accepts by (auto simp: Let_def)
qed

lemma DecimalToUnits_canonical:
  "DecimalToUnits v cur = Inr u \<Longrightarrow> canonical u \<and> length u \<le> 256"
  by (auto simp: DecimalToUnits_Inr)

subsection \<open>Printing\<close>

lemma TrimRight0_fill:
  "TrimRight0 s @ replicate (length s - length (TrimRight0 s)) (CHR ''0'') = s"
proof -
  let ?z = "takeWhile ((=) (CHR ''0'')) (rev s)"
  have s: "TrimRight0 s @ rev ?z = s"
    unfolding TrimRight0_def by (metis rev_append rev_rev_ident takeWhile_dropWhile_id)
  have z: "?z = replicate (length ?z) (CHR ''0'')"
    by (rule replicate_eqI) (auto dest: set_takeWhileD)
  have "length s - length (TrimRight0 s) = length ?z"
    using arg_cong [OF s, of length] by simp
  then show ?thesis using s z by (metis rev_replicate)
qed

lemma TrimRight0_nonzero: "dec_val s \<noteq> 0 \<Longrightarrow> TrimRight0 s \<noteq> []"
  by (metis TrimRight0_fill dec_val_zeros self_append_conv2)

lemma TrimRight0_all_digits: "all_digits s \<Longrightarrow> all_digits (TrimRight0 s)"
  by (simp add: TrimRight0_def all_digits_dropWhile)

definition padded :: "nat \<Rightarrow> string" where
  "padded r = replicate (18 - length (nat_str r)) (CHR ''0'') @ nat_str r"

lemma padded_props:
  assumes "r < 10 ^ 18"
  shows "length (padded r) = 18" "all_digits (padded r)" "dec_val (padded r) = r"
  using length_nat_str_bound [OF assms] by (simp_all add: padded_def dec_val_append)

lemma UnitsToDecimal_nat:
  "UnitsToDecimal (nat_str n) =
     Inr (nat_str (n div 10 ^ 18) @
          (if n mod 10 ^ 18 = 0 then [] else CHR ''.'' # TrimRight0 (padded (n mod 10 ^ 18))))"
proof -
  have hd: "\<not> (case nat_str n of [] \<Rightarrow> False | c # _ \<Rightarrow> c = CHR ''-'')"
    using nat_str_no_sign [of n] by (auto split: list.splits)
  have c: "\<not> (1 < length (nat_str n) \<and> hd (nat_str n) = CHR ''0'')"
    using canonical_nat_str [of n] by (auto simp: canonical_def)
  have q: "int n div 1000000000000000000 = int (n div 1000000000000000000)"
    "int n mod 1000000000000000000 = int (n mod 1000000000000000000)"
    by (simp_all add: zdiv_int zmod_int)
  have p: "replicate (18 - length (nat_str r)) (CHR ''0'') @ nat_str r = padded r" for r
    by (simp add: padded_def)
  show ?thesis
    unfolding UnitsToDecimal_def unitsPerCurrency_def decimals_def
    using hd c by (simp add: digits_def q nat_str_int_str p Let_def del: of_nat_mod of_nat_div)
qed

text \<open>
  C10: printing and parsing amounts are inverse: every canonical amount of at most 256 digits
  prints to a decimal that parses back to the same amount, whatever the currency label.
\<close>

theorem UnitsToDecimal_roundtrip:
  assumes "canonical u" "length u \<le> 256"
  shows "\<exists>d. UnitsToDecimal u = Inr d \<and> DecimalToUnits d cur = Inr u"
proof -
  obtain n where u: "u = nat_str n" using assms(1) canonical_iff_nat_str by blast
  let ?q = "n div 10 ^ 18" and ?r = "n mod 10 ^ 18"
  let ?f = "if ?r = 0 then [] else TrimRight0 (padded ?r)"
  have r: "?r < 10 ^ 18" by simp
  note pad = padded_props [OF r]
  have fill: "?r \<noteq> 0 \<Longrightarrow> dec_val ?f * 10 ^ (18 - length ?f) = ?r"
    using arg_cong [OF TrimRight0_fill [of "padded ?r"], of dec_val] pad by (simp add: dec_val_append)
  have f: "all_digits ?f" "length ?f \<le> 18"
    using pad TrimRight0_all_digits [of "padded ?r"]
      arg_cong [OF TrimRight0_fill [of "padded ?r"], of length] by auto
  have ne: "?r \<noteq> 0 \<Longrightarrow> ?f \<noteq> []" using TrimRight0_nonzero [of "padded ?r"] pad by simp
  have "dec_val ?f * 10 ^ (18 - length ?f) = ?r"
    using fill by (cases "?r = 0") simp_all
  then have "scaled (nat_str ?q) ?f = ?q * 10 ^ 18 + ?r"
    by (simp only: scaled_def dec_val_nat_str)
  then have "scaled (nat_str ?q) ?f = n" by (simp only: div_mult_mod_eq)
  moreover obtain d where d: "UnitsToDecimal u = Inr d" "decimal_text d (nat_str ?q) ?f"
    using f ne by (simp add: u UnitsToDecimal_nat decimal_text_def)
  ultimately have "DecimalToUnits d cur = Inr u"
    using assms(2) u unfolding DecimalToUnits_Inr by metis
  with d(1) show ?thesis by blast
qed

lemma UnitsToDecimal_roundtrip_witness:
  "\<exists>d. UnitsToDecimal ''1500000000000000000'' = Inr d \<and> DecimalToUnits d ''usd'' = Inr ''1500000000000000000''"
  by (rule UnitsToDecimal_roundtrip) (simp_all add: canonical_def all_digits_def is_digit_def code_def)

text \<open>
  C9: \<open>DecimalToUnits\<close> accepts exactly the unsigned decimals with a nonempty whole part, at
  most 18 fractional digits and at most 256 digits of units, and returns the canonical text of
  the exact number of units (no rounding, leading zeros dropped).
\<close>

theorem DecimalToUnits_exact:
  "DecimalToUnits v cur = Inr u \<longleftrightarrow>
   (\<exists>w f. decimal_text v w f \<and> u = nat_str (scaled w f) \<and> length u \<le> 256)"
  by (rule DecimalToUnits_Inr)

end
