(* ===== verification/GoText.thy ===== *)
theory GoText
  imports Prelude
begin

text \<open>
  The text operations of Go's standard library that the API keys and the management inputs go
  through: unpadded URL-safe base64 (\<open>base64.RawURLEncoding\<close>) and white space
  (\<open>strings.TrimSpace\<close>, \<open>strings.Fields\<close>).  Both work on the bytes of a Go string.
\<close>

section \<open>Base64, URL alphabet, no padding\<close>

definition b64_char :: "nat \<Rightarrow> char" where
  "b64_char v =
     (if v < 26 then char_of (65 + v) else if v < 52 then char_of (97 + (v - 26))
      else if v < 62 then char_of (48 + (v - 52)) else if v = 62 then CHR ''-'' else CHR ''_'')"

definition b64_val :: "char \<Rightarrow> nat option" where
  "b64_val c = (let n = code c in
     if 65 \<le> n \<and> n \<le> 90 then Some (n - 65) else if 97 \<le> n \<and> n \<le> 122 then Some (n - 71)
     else if 48 \<le> n \<and> n \<le> 57 then Some (n + 4) else if n = 45 then Some 62
     else if n = 95 then Some 63 else None)"

text \<open>Groups of three octets against groups of four sextets, with the two short last groups.\<close>

fun sextets :: "nat list \<Rightarrow> nat list" where
  "sextets [] = []"
| "sextets [a] = [a div 4, a mod 4 * 16]"
| "sextets [a, b] = [a div 4, a mod 4 * 16 + b div 16, b mod 16 * 4]"
| "sextets (a # b # c # rest) =
     a div 4 # (a mod 4 * 16 + b div 16) # (b mod 16 * 4 + c div 64) # (c mod 64) # sextets rest"

text \<open>The decoder drops the unused low bits of the last sextet (it is not the strict one).\<close>

fun octets :: "nat list \<Rightarrow> nat list option" where
  "octets [] = Some []"
| "octets [w] = None"
| "octets [w, x] = Some [w * 4 + x div 16]"
| "octets [w, x, y] = Some [w * 4 + x div 16, x mod 16 * 16 + y div 4]"
| "octets (w # x # y # z # rest) =
     map_option (\<lambda>r. (w * 4 + x div 16) # (x mod 16 * 16 + y div 4) # (y mod 4 * 64 + z) # r) (octets rest)"

fun all_some :: "'a option list \<Rightarrow> 'a list option" where
  "all_some [] = Some []"
| "all_some (None # xs) = None"
| "all_some (Some x # xs) = map_option (\<lambda>r. x # r) (all_some xs)"

definition RawURLEncode :: "string \<Rightarrow> string" where
  "RawURLEncode bs = map b64_char (sextets (map code bs))"

text \<open>Line ends are skipped wherever they stand, as the Go decoder does.\<close>

definition RawURLDecode :: "string \<Rightarrow> nat list option" where
  "RawURLDecode s =
     Option.bind (all_some (map b64_val (filter (\<lambda>c. code c \<noteq> 10 \<and> code c \<noteq> 13) s))) octets"

lemma less_64_cases: "v < 64 \<Longrightarrow> v \<in> set [0..<64]"
  by simp

lemma b64_val_char: "v < 64 \<Longrightarrow> b64_val (b64_char v) = Some v"
proof -
  assume "v < 64"
  moreover have "\<forall>v \<in> set [0..<64]. b64_val (b64_char v) = Some v" by code_simp
  ultimately show ?thesis by simp
qed

lemma b64_char_code: "v < 64 \<Longrightarrow> 32 < code (b64_char v) \<and> code (b64_char v) < 127"
proof -
  assume "v < 64"
  moreover have "\<forall>v \<in> set [0..<64]. 32 < code (b64_char v) \<and> code (b64_char v) < 127" by code_simp
  ultimately show ?thesis by simp
qed

lemma sextet_bounds:
  "b < 256 \<Longrightarrow> a mod 4 * 16 + b div 16 < (64 :: nat)"
  "c < 256 \<Longrightarrow> b mod 16 * 4 + c div 64 < (64 :: nat)"
  "a mod 4 * 16 < (64 :: nat)" "b mod 16 * 4 < (64 :: nat)"
proof -
  have "a mod 4 < 4" "b mod 16 < 16" by simp_all
  moreover have "b < 256 \<Longrightarrow> b div 16 < 16" "c < 256 \<Longrightarrow> c div 64 < 4"
    by (simp_all add: less_mult_imp_div_less)
  ultimately show "b < 256 \<Longrightarrow> a mod 4 * 16 + b div 16 < 64" "c < 256 \<Longrightarrow> b mod 16 * 4 + c div 64 < 64"
    "a mod 4 * 16 < 64" "b mod 16 * 4 < 64"
    by linarith+
qed

lemma sextets_bound: "\<forall>b \<in> set bs. b < 256 \<Longrightarrow> \<forall>v \<in> set (sextets bs). v < 64"
  by (induction bs rule: sextets.induct) (simp_all add: sextet_bounds less_mult_imp_div_less)

lemma octet_parts:
  fixes a b c :: nat
  assumes "b < 256" "c < 256"
  shows "a div 4 * 4 + (a mod 4 * 16 + b div 16) div 16 = a"
    "(a mod 4 * 16 + b div 16) mod 16 * 16 + (b mod 16 * 4 + c div 64) div 4 = b"
    "(b mod 16 * 4 + c div 64) mod 4 * 64 + c mod 64 = c"
proof -
  have div: "(x * k + y) div k = x" and mod: "(x * k + y) mod k = y" if "y < k" for x y k :: nat
    using that by simp_all
  have "b div 16 < 16" "c div 64 < 4"
    using assms by (simp_all add: less_mult_imp_div_less)
  note d = div [OF this(1)] mod [OF this(1)] div [OF this(2)] mod [OF this(2)]
  show "a div 4 * 4 + (a mod 4 * 16 + b div 16) div 16 = a"
    "(a mod 4 * 16 + b div 16) mod 16 * 16 + (b mod 16 * 4 + c div 64) div 4 = b"
    "(b mod 16 * 4 + c div 64) mod 4 * 64 + c mod 64 = c"
    unfolding d by simp_all
qed

lemma octets_sextets: "\<forall>b \<in> set bs. b < 256 \<Longrightarrow> octets (sextets bs) = Some bs"
proof (induction bs rule: sextets.induct)
  case (4 a b c rest)
  with octet_parts(1,2) [of b c a] octet_parts(3) [of b c] show ?case by simp
next
  case (3 a b)
  with octet_parts(1,2) [of b 0 a] octet_parts(3) [of b 0] show ?case by simp
qed simp_all

lemma all_some_map: "(\<And>x. x \<in> set xs \<Longrightarrow> f (g x) = Some x) \<Longrightarrow> all_some (map f (map g xs)) = Some xs"
  by (induction xs) auto

lemma RawURLEncode_bytes: "c \<in> set (RawURLEncode bs) \<Longrightarrow> 32 < code c \<and> code c < 127"
proof -
  have "\<forall>b \<in> set (map code bs). b < 256" by (simp add: code_less)
  then have "\<forall>v \<in> set (sextets (map code bs)). v < 64" by (rule sextets_bound)
  then show "c \<in> set (RawURLEncode bs) \<Longrightarrow> ?thesis"
    by (auto simp: RawURLEncode_def b64_char_code)
qed

lemma RawURLDecode_encode: "RawURLDecode (RawURLEncode bs) = Some (map code bs)"
proof -
  have b: "\<forall>b \<in> set (map code bs). b < 256" by (simp add: code_less)
  have "filter (\<lambda>c. code c \<noteq> 10 \<and> code c \<noteq> 13) (RawURLEncode bs) = RawURLEncode bs"
    by (auto simp: filter_id_conv dest!: RawURLEncode_bytes)
  then show ?thesis
    using sextets_bound [OF b]
    by (simp add: RawURLDecode_def RawURLEncode_def all_some_map b64_val_char octets_sextets [OF b]
        del: map_map)
qed

lemma length_sextets: "length (sextets bs) = (4 * length bs + 2) div 3"
  by (induction bs rule: sextets.induct) simp_all

lemma length_RawURLEncode: "length (RawURLEncode bs) = (4 * length bs + 2) div 3"
  by (simp add: RawURLEncode_def length_sextets)

lemma RawURLEncode_inject [simp]: "RawURLEncode a = RawURLEncode b \<longleftrightarrow> a = b"
proof
  assume "RawURLEncode a = RawURLEncode b"
  then have "map code a = map code b" by (metis RawURLDecode_encode option.inject)
  then show "a = b" by (metis code_eq_iff injI map_injective)
qed simp

section \<open>White space\<close>

text \<open>
  \<open>unicode.IsSpace\<close> on the UTF-8 bytes of a string: how many bytes of a white-space character
  the text starts with, 0 if it starts with none.  No encoding of a character contains the lead
  byte of another one, so the bytes can be read from left to right.
\<close>

fun space_len :: "string \<Rightarrow> nat" where
  "space_len s = (case map code (take 3 s) of
     [] \<Rightarrow> 0
   | a # r \<Rightarrow>
       if 9 \<le> a \<and> a \<le> 13 \<or> a = 32 then 1
       else (case r of
         [] \<Rightarrow> 0
       | b # r' \<Rightarrow>
           if a = 194 \<and> (b = 133 \<or> b = 160) then 2
           else (case r' of
             [] \<Rightarrow> 0
           | c # _ \<Rightarrow>
               if (a, b, c) = (225, 154, 128)
                 \<or> a = 226 \<and> b = 128 \<and> (128 \<le> c \<and> c \<le> 138 \<or> c = 168 \<or> c = 169 \<or> c = 175)
                 \<or> (a, b, c) = (226, 129, 159) \<or> (a, b, c) = (227, 128, 128) then 3 else 0)))"

declare space_len.simps [simp del]

text \<open>\<open>strings.Fields\<close>: the maximal runs without white space, kept reversed while they grow.\<close>

function fields_from :: "string \<Rightarrow> string \<Rightarrow> string list" where
  "fields_from word s =
     (if s = [] then (if word = [] then [] else [rev word])
      else if space_len s = 0 then fields_from (hd s # word) (tl s)
      else (if word = [] then [] else [rev word]) @ fields_from [] (drop (space_len s) s))"
  by pat_completeness auto
termination
  by (relation "measure (\<lambda>(_, s). length s)") auto

declare fields_from.simps [simp del]

definition Fields :: "string \<Rightarrow> string list" where
  "Fields s = fields_from [] s"

text \<open>The text is white space only, that is, \<open>strings.TrimSpace\<close> leaves nothing of it.\<close>

function blank :: "string \<Rightarrow> bool" where
  "blank s = (if s = [] then True else if space_len s = 0 then False else blank (drop (space_len s) s))"
  by pat_completeness auto
termination
  by (relation "measure length") auto

declare blank.simps [simp del]

lemma blank_Fields: "blank s \<longleftrightarrow> Fields s = []"
proof -
  have ne: "word \<noteq> [] \<Longrightarrow> fields_from word s \<noteq> []" for word s
    by (induction word s rule: fields_from.induct) (subst fields_from.simps, auto)
  show ?thesis
    unfolding Fields_def
  proof (induction s rule: blank.induct)
    case (1 s)
    then show ?case
      by (subst blank.simps, subst fields_from.simps) (auto simp: ne)
  qed
qed

lemma space_len_ascii: "s \<noteq> [] \<Longrightarrow> 32 < code (hd s) \<Longrightarrow> code (hd s) < 128 \<Longrightarrow> space_len s = 0"
  by (cases s) (auto simp: space_len.simps split: list.splits)

lemma space_len_blank [simp]: "space_len (CHR '' '' # s) = 1"
  by (simp add: space_len.simps code_def)

lemma fields_from_word:
  "\<forall>c \<in> set w. 32 < code c \<and> code c < 128 \<Longrightarrow> fields_from word (w @ s) = fields_from (rev w @ word) s"
proof (induction w arbitrary: word)
  case (Cons c w)
  then have "space_len (c # w @ s) = 0" by (intro space_len_ascii) auto
  then have "fields_from word ((c # w) @ s) = fields_from (c # word) (w @ s)"
    by (subst fields_from.simps) simp
  with Cons show ?case by simp
qed simp

lemma Fields_two:
  assumes "\<forall>c \<in> set a \<union> set b. 32 < code c \<and> code c < 128" "a \<noteq> []" "b \<noteq> []"
  shows "Fields (a @ CHR '' '' # b) = [a, b]"
proof -
  have "fields_from [] (a @ CHR '' '' # b) = fields_from (rev a) (CHR '' '' # b)"
    using assms by (subst fields_from_word) auto
  also have "\<dots> = [a] @ fields_from [] b"
    using assms by (subst fields_from.simps) auto
  also have "fields_from [] b = fields_from (rev b) []"
    using fields_from_word [of b "[]" "[]"] assms by simp
  also have "\<dots> = [b]" using assms by (subst fields_from.simps) simp
  finally show ?thesis by (simp add: Fields_def)
qed

section \<open>Trimming and searching\<close>

text \<open>\<open>strings.TrimSpace\<close>.  A space at the end is a suffix that is the whole encoding of one.\<close>

function trim_left :: "string \<Rightarrow> string" where
  "trim_left s = (if s = [] \<or> space_len s = 0 then s else trim_left (drop (space_len s) s))"
  by pat_completeness auto
termination
  by (relation "measure length") auto

declare trim_left.simps [simp del]

definition last_space :: "string \<Rightarrow> nat" where
  "last_space s = (case find (\<lambda>k. k \<le> length s \<and> space_len (drop (length s - k) s) = k) [1, 2, 3] of None \<Rightarrow> 0 | Some k \<Rightarrow> k)"

function trim_right :: "string \<Rightarrow> string" where
  "trim_right s = (if s = [] \<or> last_space s = 0 then s else trim_right (take (length s - last_space s) s))"
  by pat_completeness auto
termination
  by (relation "measure length") auto

declare trim_right.simps [simp del]

definition TrimSpace :: "string \<Rightarrow> string" where
  "TrimSpace s = trim_right (trim_left s)"

text \<open>\<open>strings.Index\<close>, and with it \<open>strings.Contains\<close> and \<open>strings.Cut\<close>.\<close>

fun Index :: "string \<Rightarrow> string \<Rightarrow> nat option" where
  "Index [] sub = (if sub = [] then Some 0 else None)"
| "Index (c # s) sub = (if prefix sub (c # s) then Some 0 else map_option Suc (Index s sub))"

definition Contains :: "string \<Rightarrow> string \<Rightarrow> bool" where
  "Contains s sub \<longleftrightarrow> Index s sub \<noteq> None"

definition Cut :: "string \<Rightarrow> string \<Rightarrow> string \<times> string \<times> bool" where
  "Cut s sep = (case Index s sep of
     None \<Rightarrow> (s, [], False)
   | Some i \<Rightarrow> (take i s, drop (i + length sep) s, True))"

lemma Index_Some: "Index s sub = Some i \<Longrightarrow> take i s @ sub @ drop (i + length sub) s = s"
proof (induction s arbitrary: i)
  case (Cons c s)
  then show ?case
    by (cases "prefix sub (c # s)") (auto simp: prefix_def append_eq_conv_conj [symmetric])
qed (auto split: if_splits)

lemma Cut_parts: "Cut s sep = (a, b, True) \<Longrightarrow> s = a @ sep @ b"
  using Index_Some [of s sep] by (auto simp: Cut_def split: option.splits)

end
