(* ===== verification/Schema.thy ===== *)
theory Schema
  imports Units GoText
begin

text \<open>
  The accounting database of \<open>migrations/001_initial.sql\<close>, \<open>002\<close>, \<open>003\<close> and \<open>004\<close>: one record
  per row type, one field of \<open>tables\<close> per table, and for every statement that inserts a row the
  constraints SQLite enforces on it (primary and unique keys, foreign keys, \<open>CHECK\<close> clauses,
  the insert trigger).  Tables that are only inserted into and updated in place are lists in
  insertion order, so the autoincremented \<open>seq\<close> of a row is its position plus one; tables that
  are upserted are association lists on their primary key.  Amounts are stored as the decimal
  text the columns hold.
\<close>

section \<open>Rows\<close>

record grant =
  g_id :: string
  g_name :: string
  g_sponsor :: string
  g_total_units :: string
  g_currency :: string
  g_starts :: "int option"
  g_ends :: "int option"
  g_status :: string
  g_metadata :: string
  g_created :: int

record allocation =
  a_id :: string
  a_grant :: string
  a_name :: string
  a_beneficiary :: string
  a_allocated_units :: string
  a_currency :: string
  a_starts :: "int option"
  a_ends :: "int option"
  a_status :: string
  a_metadata :: string
  a_created :: int

record api_key =
  k_id :: string
  k_allocation :: string
  k_name :: string
  k_prefix :: string
  k_secret_hash :: string
  k_created :: int
  k_last_used :: "int option"
  k_revoked :: "int option"

record session =
  s_id :: string
  s_allocation :: string
  s_api_key :: string
  s_state_id :: string
  s_app :: string
  s_payment_type :: string
  s_orchestrator :: string
  s_status :: string
  s_created :: int
  s_last_seen :: int

record usage_event =
  u_id :: string
  u_event_id :: "string option"
  u_topic :: string
  u_partition :: int
  u_offset :: int
  u_raw_payload :: string
  u_session :: "string option"
  u_pipeline :: string
  u_request_id :: string
  u_manifest_id :: string
  u_started :: int
  u_ended :: int
  u_billable :: string
  u_pixels :: string
  u_fee_wei :: string
  u_fee_usd :: "string option"
  u_status :: string
  u_error :: string
  u_created :: int

record signing_authorization =
  sa_id :: string
  sa_usage_event :: string
  sa_session :: string
  sa_request_id :: string
  sa_sequence :: string
  sa_pm_session :: string
  sa_orchestrator :: string
  sa_fee_wei :: string
  sa_fee_usd :: "string option"
  sa_num_tickets :: int
  sa_signed_at :: int

text \<open>The eight ledger accounts of the \<open>CHECK\<close> on \<open>account_type\<close>.\<close>

datatype account =
    GrantFundingSource | GrantUnallocated | AllocationAvailable | AllocationSpent
  | TreasuryCash | TreasurySettledSpend | EscrowDeposit | EscrowReserve

fun account_name :: "account \<Rightarrow> string" where
  "account_name GrantFundingSource = ''grant_funding_source''"
| "account_name GrantUnallocated = ''grant_unallocated''"
| "account_name AllocationAvailable = ''allocation_available''"
| "account_name AllocationSpent = ''allocation_spent''"
| "account_name TreasuryCash = ''treasury_cash''"
| "account_name TreasurySettledSpend = ''treasury_settled_spend''"
| "account_name EscrowDeposit = ''escrow_deposit''"
| "account_name EscrowReserve = ''escrow_reserve''"

datatype direction = Debit | Credit

record ledger_transaction =
  lt_id :: string
  lt_key :: string
  lt_reason :: string
  lt_ref_type :: string
  lt_ref_id :: string
  lt_created :: int

record ledger_entry =
  le_id :: string
  le_tx :: string
  le_account :: account
  le_owner :: string
  le_direction :: direction
  le_amount :: string
  le_currency :: string
  le_created :: int

record settlement_row =
  st_id :: string
  st_chain :: string
  st_contract :: string
  st_tx_hash :: string
  st_log_index :: int
  st_block_number :: int
  st_block_hash :: string
  st_sender :: string
  st_recipient :: string
  st_face :: string
  st_paid :: string
  st_deposit_paid :: string
  st_reserve_paid :: string
  st_win_prob :: string
  st_nonce :: string
  st_rand :: string
  st_pm_session :: string
  st_aux_data :: string
  st_session :: "string option"
  st_match :: string
  st_status :: string
  st_generation :: int
  st_created :: int
  st_settled_at :: int

record escrow_snapshot_row =
  es_id :: string
  es_stream :: string
  es_chain :: string
  es_contract :: string
  es_sender :: string
  es_block_number :: int
  es_block_hash :: string
  es_deposit :: string
  es_reserve :: string
  es_created :: int

record broker_event_row =
  be_id :: string
  be_chain :: string
  be_contract :: string
  be_tx_hash :: string
  be_log_index :: int
  be_block_number :: int
  be_block_hash :: string
  be_type :: string
  be_sender :: string
  be_recipient :: "string option"
  be_amount :: string
  be_deposit :: string
  be_reserve :: string
  be_status :: string
  be_generation :: int
  be_created :: int
  be_occurred :: int

record idempotency_row =
  ir_fingerprint :: string
  ir_status :: int
  ir_json :: string
  ir_created :: int

record kafka_lag =
  CheckedAt :: int
  CoveredThrough :: int
  Available :: bool

section \<open>The database and its host\<close>

record tables =
  grants :: "grant list"
  allocations :: "allocation list"
  api_keys :: "api_key list"
  sessions :: "session list"
  usage_events :: "usage_event list"
  signing_authorizations :: "signing_authorization list"
  ledger_transactions :: "ledger_transaction list"
  ledger_entries :: "ledger_entry list"
  account_balances :: "((account \<times> string \<times> string) \<times> string) list"
  settlements :: "settlement_row list"
  escrow_snapshots :: "escrow_snapshot_row list"
  ticket_broker_events :: "broker_event_row list"
  ingestion_checkpoints :: "((string \<times> string) \<times> int \<times> string) list"
  chain_blocks :: "((string \<times> int) \<times> string) list"
  management_idempotency :: "((string \<times> string) \<times> idempotency_row) list"
  metric_amounts :: "((string \<times> string) \<times> string) list"
  metric_counts :: "((string \<times> string \<times> string) \<times> int) list"
  metric_balances :: "((account \<times> string \<times> string) \<times> string \<times> string) list"
  kafka_lags :: "(string \<times> kafka_lag) list"

text \<open>
  What the process reads from its surroundings, as parameters of the state: the random and time
  based identifiers (\<open>uuid.NewV7\<close>), the wall clock in milliseconds, the system's random bytes
  (\<open>None\<close> for a failed read) and the hash function.  \<open>tick\<close> counts the readings, so that two
  readings may differ; a rollback does not take them back.
\<close>

record world = tables +
  uuid :: "nat \<Rightarrow> string"
  clock :: "nat \<Rightarrow> int"
  random :: "nat \<Rightarrow> string option"
  sha256 :: "string \<Rightarrow> string"
  tick :: nat

definition ID :: "(world, string) tx" where
  "ID s = (Inr (RawURLEncode (uuid s (tick s))), s\<lparr>tick := Suc (tick s)\<rparr>)"

definition NowMs :: "(world, int) tx" where
  "NowMs s = (Inr (clock s (tick s)), s\<lparr>tick := Suc (tick s)\<rparr>)"

definition rand_read :: "(world, string option) tx" where
  "rand_read s = (Inr (random s (tick s)), s\<lparr>tick := Suc (tick s)\<rparr>)"

lemma ID_Inr [txs]: "ID s = (Inr x, s') \<longleftrightarrow> x = RawURLEncode (uuid s (tick s)) \<and> s' = s\<lparr>tick := Suc (tick s)\<rparr>"
  by (auto simp: ID_def)

lemma NowMs_Inr [txs]:
  "NowMs s = (Inr x, s') \<longleftrightarrow> x = clock s (tick s) \<and> s' = s\<lparr>tick := Suc (tick s)\<rparr>"
  by (auto simp: NowMs_def)

lemma rand_read_Inr [txs]:
  "rand_read s = (Inr x, s') \<longleftrightarrow> x = random s (tick s) \<and> s' = s\<lparr>tick := Suc (tick s)\<rparr>"
  by (auto simp: rand_read_def)

text \<open>One call to a service: its answer may depend on how much has been read before.\<close>

definition rpc_call :: "(nat \<Rightarrow> 'a result) \<Rightarrow> (world, 'a) tx" where
  "rpc_call f s = (f (tick s), s\<lparr>tick := Suc (tick s)\<rparr>)"

lemma rpc_call_Inr [txs]: "rpc_call f s = (Inr x, s') \<longleftrightarrow> f (tick s) = Inr x \<and> s' = s\<lparr>tick := Suc (tick s)\<rparr>"
  by (auto simp: rpc_call_def)

section \<open>Statements\<close>

text \<open>A writing statement changes the tables when its constraints hold and fails otherwise.\<close>

definition sql_write :: "string \<Rightarrow> (world \<Rightarrow> bool) \<Rightarrow> (world \<Rightarrow> world) \<Rightarrow> (world, unit) tx" where
  "sql_write table ok f s = (if ok s then (Inr (), f s) else (Inl (SqliteError table), s))"

lemma sql_write_Inr [txs]: "sql_write table ok f s = (Inr x, s') \<longleftrightarrow> ok s \<and> s' = f s"
  by (auto simp: sql_write_def)

text \<open>\<open>SELECT \<dots> WHERE key = ?\<close> into one row, and \<open>sql.ErrNoRows\<close> when there is none.\<close>

definition find_row :: "('a \<Rightarrow> bool) \<Rightarrow> 'a list \<Rightarrow> 'a option" where
  "find_row P rows = List.find P rows"

definition select_row :: "(world \<Rightarrow> 'a option) \<Rightarrow> (world, 'a) tx" where
  "select_row q s = (case q s of None \<Rightarrow> (Inl ErrNoRows, s) | Some r \<Rightarrow> (Inr r, s))"

lemma select_row_Inr [txs]: "select_row q s = (Inr r, s') \<longleftrightarrow> q s = Some r \<and> s' = s"
  by (auto simp: select_row_def split: option.splits)

lemma find_row_Some: "find_row P xs = Some x \<Longrightarrow> x \<in> set xs \<and> P x"
  by (auto simp: find_row_def find_Some_iff)

lemma find_row_None: "find_row P xs = None \<longleftrightarrow> (\<forall>x \<in> set xs. \<not> P x)"
  by (auto simp: find_row_def find_None_iff)

text \<open>\<open>UPDATE \<dots> WHERE\<close>, and the number of rows it affected.\<close>

definition update_rows :: "('a \<Rightarrow> bool) \<Rightarrow> ('a \<Rightarrow> 'a) \<Rightarrow> 'a list \<Rightarrow> 'a list" where
  "update_rows P f rows = map (\<lambda>r. if P r then f r else r) rows"

definition rows_affected :: "('a \<Rightarrow> bool) \<Rightarrow> 'a list \<Rightarrow> int" where
  "rows_affected P rows = int (length (filter P rows))"

lemma set_update_rows: "set (update_rows P f rows) = {if P r then f r else r | r. r \<in> set rows}"
  by (auto simp: update_rows_def)

lemma length_update_rows [simp]: "length (update_rows P f rows) = length rows"
  by (simp add: update_rows_def)

lemma sum_update_rows:
  fixes g :: "'a \<Rightarrow> int"
  assumes "distinct (map h rows)" "r \<in> set rows"
  shows "(\<Sum>x\<leftarrow>update_rows (\<lambda>x. h x = h r) f rows. g x) = (\<Sum>x\<leftarrow>rows. g x) + g (f r) - g r"
  using assms
proof (induction rows)
  case (Cons x rows)
  show ?case
  proof (cases "x = r")
    case True
    then have "update_rows (\<lambda>x. h x = h r) f rows = rows"
      using Cons.prems(1) by (auto simp: update_rows_def image_iff intro!: map_idI)
    with True show ?thesis by (simp add: update_rows_def)
  next
    case False
    with Cons.prems have "r \<in> set rows" "h x \<noteq> h r" by auto
    with Cons show ?thesis by (simp add: update_rows_def)
  qed
qed simp

lemma map_update_rows: "(\<And>r. g (f r) = g r) \<Longrightarrow> map g (update_rows P f rows) = map g rows"
  by (auto simp: update_rows_def)

lemma find_row_update:
  "(\<And>r. P (f r) = P r) \<Longrightarrow>
   find_row P (update_rows Q f rows) = map_option (\<lambda>r. if Q r then f r else r) (find_row P rows)"
  by (induction rows) (auto simp: find_row_def update_rows_def)

lemma find_row_append:
  "find_row P rows = None \<Longrightarrow> P r \<Longrightarrow> find_row P (rows @ [r]) = Some r"
  "find_row P rows = Some x \<Longrightarrow> find_row P (rows @ ys) = Some x"
  by (induction rows) (auto simp: find_row_def split: if_splits)

lemma within_sql_write: "(\<And>s. R s (f s)) \<Longrightarrow> within R (sql_write t ok f)"
  by (auto simp: within_def sql_write_Inr)

lemma within_ID: "(\<And>s n. R s (s\<lparr>tick := n\<rparr>)) \<Longrightarrow> within R ID"
  by (auto simp: within_def ID_Inr)

lemma within_NowMs: "(\<And>s n. R s (s\<lparr>tick := n\<rparr>)) \<Longrightarrow> within R NowMs"
  by (auto simp: within_def NowMs_Inr)

lemma within_rand_read: "(\<And>s n. R s (s\<lparr>tick := n\<rparr>)) \<Longrightarrow> within R rand_read"
  by (auto simp: within_def rand_read_Inr)

lemma within_select_row: "(\<And>s. R s s) \<Longrightarrow> within R (select_row q)"
  by (auto simp: within_def select_row_Inr)

section \<open>Column checks\<close>

definition canonical_signed :: "string \<Rightarrow> bool" where
  "canonical_signed s \<longleftrightarrow>
     s = ''0'' \<or> canonical s \<and> hd s \<noteq> CHR ''0'' \<or>
     (case s of [] \<Rightarrow> False | c # cs \<Rightarrow> c = CHR ''-'' \<and> canonical cs \<and> hd cs \<noteq> CHR ''0'')"

definition is_currency :: "string \<Rightarrow> bool" where
  "is_currency c \<longleftrightarrow> c = ''usd'' \<or> c = ''eth''"

definition hex_text :: "nat \<Rightarrow> string \<Rightarrow> bool" where
  "hex_text n s \<longleftrightarrow> length s = n \<and> take 2 s = ''0x'' \<and> (\<forall>c \<in> set (drop 2 s). is_lower_hex c)"

definition window_ok :: "int option \<Rightarrow> int option \<Rightarrow> bool" where
  "window_ok starts ends = (case (starts, ends) of (Some a, Some b) \<Rightarrow> a < b | _ \<Rightarrow> True)"

lemma canonical_signed_nonzero: "canonical s \<Longrightarrow> s \<noteq> ''0'' \<Longrightarrow> canonical_signed s"
  using canonical_hd [of s] by (auto simp: canonical_signed_def)

lemma nat_str_zero_iff: "nat_str n = ''0'' \<longleftrightarrow> n = 0"
  using nat_str_inject [of n 0] by (simp add: digit_char_def del: nat_str_inject)

lemma canonical_signed_int_str [simp]: "canonical_signed (int_str i)"
proof (cases "i < 0")
  case True
  then have "nat_str (nat (- i)) \<noteq> ''0''" by (simp add: nat_str_zero_iff)
  then have "hd (nat_str (nat (- i))) \<noteq> CHR ''0''" using canonical_hd [OF canonical_nat_str] by blast
  with True show ?thesis by (simp add: int_str_def canonical_signed_def)
next
  case False
  show ?thesis
    using canonical_signed_nonzero [OF canonical_nat_str, of "nat i"] False
    by (cases "i = 0") (simp_all add: int_str_def canonical_signed_def digit_char_def nat_str_zero_iff)
qed

lemma canonical_int_str [simp]: "0 \<le> i \<Longrightarrow> canonical (int_str i)"
  by (simp add: int_str_def)

subsection \<open>\<open>INSERT\<close> and \<open>UPDATE\<close> of each table\<close>

definition insert_grant :: "grant \<Rightarrow> (world, unit) tx" where
  "insert_grant g = sql_write ''grants''
     (\<lambda>s. g_id g \<notin> g_id ` set (grants s) \<and> canonical (g_total_units g) \<and> is_currency (g_currency g) \<and>
          oneOf (g_status g) [''draft'', ''active'', ''paused'', ''closed''] \<and>
          window_ok (g_starts g) (g_ends g))
     (\<lambda>s. s\<lparr>grants := grants s @ [g]\<rparr>)"

definition find_grant :: "string \<Rightarrow> world \<Rightarrow> grant option" where
  "find_grant i s = find_row (\<lambda>g. g_id g = i) (grants s)"

definition insert_allocation :: "allocation \<Rightarrow> (world, unit) tx" where
  "insert_allocation a = sql_write ''grant_allocations''
     (\<lambda>s. a_id a \<notin> a_id ` set (allocations s) \<and> canonical (a_allocated_units a) \<and>
          is_currency (a_currency a) \<and>
          oneOf (a_status a) [''active'', ''paused'', ''exhausted'', ''revoked''] \<and>
          window_ok (a_starts a) (a_ends a) \<and>
          (case find_grant (a_grant a) s of None \<Rightarrow> False | Some g \<Rightarrow> g_currency g = a_currency a))
     (\<lambda>s. s\<lparr>allocations := allocations s @ [a]\<rparr>)"

definition find_allocation :: "string \<Rightarrow> world \<Rightarrow> allocation option" where
  "find_allocation i s = find_row (\<lambda>a. a_id a = i) (allocations s)"

definition insert_api_key :: "api_key \<Rightarrow> (world, unit) tx" where
  "insert_api_key k = sql_write ''api_keys''
     (\<lambda>s. k_id k \<notin> k_id ` set (api_keys s) \<and> k_secret_hash k \<notin> k_secret_hash ` set (api_keys s) \<and>
          length (k_secret_hash k) = 32 \<and> k_allocation k \<in> a_id ` set (allocations s))
     (\<lambda>s. s\<lparr>api_keys := api_keys s @ [k]\<rparr>)"

definition find_api_key :: "string \<Rightarrow> world \<Rightarrow> api_key option" where
  "find_api_key i s = find_row (\<lambda>k. k_id k = i) (api_keys s)"

definition insert_session :: "session \<Rightarrow> (world, unit) tx" where
  "insert_session x = sql_write ''payment_sessions''
     (\<lambda>s. s_id x \<notin> s_id ` set (sessions s) \<and> s_state_id x \<notin> s_state_id ` set (sessions s) \<and>
          s_allocation x \<in> a_id ` set (allocations s) \<and>
          (s_api_key x, s_allocation x) \<in> (\<lambda>k. (k_id k, k_allocation k)) ` set (api_keys s) \<and>
          hex_text 42 (s_orchestrator x) \<and> oneOf (s_status x) [''active'', ''revoked''])
     (\<lambda>s. s\<lparr>sessions := sessions s @ [x]\<rparr>)"

definition insert_usage_event :: "usage_event \<Rightarrow> (world, unit) tx" where
  "insert_usage_event u = sql_write ''usage_events''
     (\<lambda>s. u_id u \<notin> u_id ` set (usage_events s) \<and>
          (u_event_id u = None \<or> u_event_id u \<notin> u_event_id ` set (usage_events s)) \<and>
          (u_topic u, u_partition u, u_offset u) \<notin>
            (\<lambda>v. (u_topic v, u_partition v, u_offset v)) ` set (usage_events s) \<and>
          0 \<le> u_partition u \<and> u_partition u \<le> 2147483647 \<and> 0 \<le> u_offset u \<and>
          (case u_session u of None \<Rightarrow> True | Some x \<Rightarrow> x \<in> s_id ` set (sessions s)) \<and>
          oneOf (u_status u) [''applied'', ''quarantined'', ''ignored'', ''duplicate''])
     (\<lambda>s. s\<lparr>usage_events := usage_events s @ [u]\<rparr>)"

definition insert_signing_authorization :: "signing_authorization \<Rightarrow> (world, unit) tx" where
  "insert_signing_authorization x = sql_write ''signing_authorizations''
     (\<lambda>s. sa_id x \<notin> sa_id ` set (signing_authorizations s) \<and>
          sa_usage_event x \<notin> sa_usage_event ` set (signing_authorizations s) \<and>
          sa_usage_event x \<in> u_id ` set (usage_events s) \<and> sa_session x \<in> s_id ` set (sessions s) \<and>
          canonical (sa_sequence x) \<and> hex_text 66 (sa_pm_session x) \<and>
          hex_text 42 (sa_orchestrator x) \<and> canonical (sa_fee_wei x) \<and>
          0 < sa_num_tickets x \<and> sa_num_tickets x \<le> 100)
     (\<lambda>s. s\<lparr>signing_authorizations := signing_authorizations s @ [x]\<rparr>)"

definition insert_ledger_transaction :: "ledger_transaction \<Rightarrow> (world, unit) tx" where
  "insert_ledger_transaction t = sql_write ''ledger_transactions''
     (\<lambda>s. lt_id t \<notin> lt_id ` set (ledger_transactions s) \<and>
          lt_key t \<notin> lt_key ` set (ledger_transactions s))
     (\<lambda>s. s\<lparr>ledger_transactions := ledger_transactions s @ [t]\<rparr>)"

definition insert_ledger_entry :: "ledger_entry \<Rightarrow> (world, unit) tx" where
  "insert_ledger_entry e = sql_write ''ledger_entries''
     (\<lambda>s. le_id e \<notin> le_id ` set (ledger_entries s) \<and> le_tx e \<in> lt_id ` set (ledger_transactions s) \<and>
          canonical (le_amount e) \<and> hd (le_amount e) \<noteq> CHR ''0'' \<and> is_currency (le_currency e))
     (\<lambda>s. s\<lparr>ledger_entries := ledger_entries s @ [e]\<rparr>)"

definition upsert_balance :: "account \<Rightarrow> string \<Rightarrow> string \<Rightarrow> string \<Rightarrow> (world, unit) tx" where
  "upsert_balance acct owner currency units = sql_write ''account_balances''
     (\<lambda>s. is_currency currency \<and> canonical_signed units)
     (\<lambda>s. s\<lparr>account_balances := AList.update (acct, owner, currency) units (account_balances s)\<rparr>)"

section \<open>The freshly migrated database\<close>

text \<open>
  The state that migrations 001 to 004 leave in a new database: empty tables but for the summary
  rows 003 inserts.  The host is a parameter; \<open>sample_host\<close> is one concrete host.
\<close>

definition migrated :: "(nat \<Rightarrow> string) \<Rightarrow> (nat \<Rightarrow> int) \<Rightarrow> (nat \<Rightarrow> string option) \<Rightarrow> (string \<Rightarrow> string) \<Rightarrow> world" where
  "migrated u c r h =
     \<lparr>grants = [], allocations = [], api_keys = [], sessions = [], usage_events = [],
      signing_authorizations = [], ledger_transactions = [], ledger_entries = [],
      account_balances = [], settlements = [], escrow_snapshots = [], ticket_broker_events = [],
      ingestion_checkpoints = [], chain_blocks = [], management_idempotency = [],
      metric_amounts = map (\<lambda>k. (k, ''0''))
        [(''grant_unallocated'', ''eth''), (''grant_unallocated'', ''usd''),
         (''allocation_available'', ''eth''), (''allocation_available'', ''usd''),
         (''allocation_spent'', ''eth''), (''allocation_spent'', ''usd''),
         (''allocation_overdraw'', ''eth''), (''allocation_overdraw'', ''usd''),
         (''settlement_face_value'', ''eth''), (''settlement_paid'', ''eth''),
         (''settlement_shortfall'', ''eth''), (''escrow_deposit'', ''eth''), (''escrow_reserve'', ''eth'')],
      metric_counts = map (\<lambda>k. (k, 0))
        [(''settlements_underpaid'', [], []), (''allocations_overdrawn'', ''eth'', []),
         (''allocations_overdrawn'', ''usd'', []), (''escrow_unfunded_signers'', ''deposit'', []),
         (''escrow_unfunded_signers'', ''reserve'', [])],
      metric_balances = [], kafka_lags = [],
      uuid = u, clock = c, random = r, sha256 = h, tick = 0\<rparr>"

definition sample_uuid :: "nat \<Rightarrow> string" where
  "sample_uuid n = map char_of [1, 2, 3, 4, 5, 6, 112, 0, 128, 0, 0, 0, 0, 0, n div 256 mod 256, n mod 256 :: nat]"

definition sample :: world where
  "sample = migrated sample_uuid (\<lambda>n. 1700000000000 + int n) (\<lambda>n. Some (replicate 32 (CHR ''s'')))
     (\<lambda>key. take 32 (key @ replicate 32 (CHR ''0'')))"

text \<open>The sample database with a grant of 1000 units of ETH, an allocation of 600 of them with an
  API key, and a current Kafka consumer, as the operations leave it.\<close>

definition sample_grant_id :: string where
  "sample_grant_id = ''AQIDBAUGcACAAAAAAAAAAA''"

definition sample_allocation_id :: string where
  "sample_allocation_id = ''AQIDBAUGcACAAAAAAAAABg''"

definition sample_key :: string where
  "sample_key = ''lpg_AQIDBAUGcACAAAAAAAAADA_c3Nzc3Nzc3Nzc3Nzc3Nzc3Nzc3Nzc3Nzc3Nzc3Nzc3M''"

definition sample_ready :: world where
  "sample_ready = sample\<lparr>tick := 15,
      grants := [\<lparr>g_id = ''AQIDBAUGcACAAAAAAAAAAA'', g_name = ''grant'', g_sponsor = [],
        g_total_units = ''1000'', g_currency = ''eth'', g_starts = None,
        g_ends = None, g_status = ''active'', g_metadata = [],
        g_created = 1700000000001\<rparr>],
      allocations := [\<lparr>a_id = ''AQIDBAUGcACAAAAAAAAABg'',
        a_grant = ''AQIDBAUGcACAAAAAAAAAAA'', a_name = ''key'',
        a_beneficiary = [], a_allocated_units = ''600'',
        a_currency = ''eth'', a_starts = None, a_ends = None,
        a_status = ''active'', a_metadata = [],
        a_created = 1700000000007\<rparr>],
      api_keys := [\<lparr>k_id = ''AQIDBAUGcACAAAAAAAAADA'',
        k_allocation = ''AQIDBAUGcACAAAAAAAAABg'', k_name = ''key'',
        k_prefix = ''lpg_AQIDBAUGcACAAAAAAAAADA'',
        k_secret_hash = ''lpg_AQIDBAUGcACAAAAAAAAADA_c3Nzc'',
        k_created = 1700000000014, k_last_used = None, k_revoked = None\<rparr>],
      ledger_transactions := [\<lparr>lt_id = ''AQIDBAUGcACAAAAAAAAAAg'',
        lt_key = ''create:AQIDBAUGcACAAAAAAAAAAA'',
        lt_reason = ''grant funding'', lt_ref_type = ''grant'',
        lt_ref_id = ''AQIDBAUGcACAAAAAAAAAAA'',
        lt_created = 1700000000003\<rparr>,
        \<lparr>lt_id = ''AQIDBAUGcACAAAAAAAAACA'',
        lt_key = ''create:AQIDBAUGcACAAAAAAAAABg'',
        lt_reason = ''grant allocation'', lt_ref_type = ''allocation'',
        lt_ref_id = ''AQIDBAUGcACAAAAAAAAABg'',
        lt_created = 1700000000009\<rparr>],
      ledger_entries := [\<lparr>le_id = ''AQIDBAUGcACAAAAAAAAABA'',
        le_tx = ''AQIDBAUGcACAAAAAAAAAAg'',
        le_account = GrantFundingSource,
        le_owner = ''AQIDBAUGcACAAAAAAAAAAA'', le_direction = Debit,
        le_amount = ''1000'', le_currency = ''eth'',
        le_created = 1700000000003\<rparr>,
        \<lparr>le_id = ''AQIDBAUGcACAAAAAAAAABQ'',
        le_tx = ''AQIDBAUGcACAAAAAAAAAAg'', le_account = GrantUnallocated,
        le_owner = ''AQIDBAUGcACAAAAAAAAAAA'', le_direction = Credit,
        le_amount = ''1000'', le_currency = ''eth'',
        le_created = 1700000000003\<rparr>,
        \<lparr>le_id = ''AQIDBAUGcACAAAAAAAAACg'',
        le_tx = ''AQIDBAUGcACAAAAAAAAACA'', le_account = GrantUnallocated,
        le_owner = ''AQIDBAUGcACAAAAAAAAAAA'', le_direction = Debit,
        le_amount = ''600'', le_currency = ''eth'',
        le_created = 1700000000009\<rparr>,
        \<lparr>le_id = ''AQIDBAUGcACAAAAAAAAACw'',
        le_tx = ''AQIDBAUGcACAAAAAAAAACA'',
        le_account = AllocationAvailable,
        le_owner = ''AQIDBAUGcACAAAAAAAAABg'', le_direction = Credit,
        le_amount = ''600'', le_currency = ''eth'',
        le_created = 1700000000009\<rparr>],
      account_balances := [((GrantFundingSource, ''AQIDBAUGcACAAAAAAAAAAA'', ''eth''),
        ''-1000''),
        ((GrantUnallocated, ''AQIDBAUGcACAAAAAAAAAAA'', ''eth''), ''400''),
        ((AllocationAvailable, ''AQIDBAUGcACAAAAAAAAABg'', ''eth''),
        ''600'')],
      metric_amounts := AList.update (''grant_unallocated'', ''eth'') ''400'' (AList.update (''allocation_available'', ''eth'') ''600'' (metric_amounts sample)),
      metric_counts := metric_counts sample @ [((''grants'', ''eth'', ''active''), 1), ((''allocations'', ''eth'', ''active''), 1)],
      kafka_lags := [(''t'',
        \<lparr>CheckedAt = 1700000000000, CoveredThrough = 1700000000000,
        Available = True\<rparr>)]\<rparr>"

end
