(* ===== verification/Store.thy ===== *)
theory Store
  imports Schema
begin

text \<open>
  \<open>internal/store/store.go\<close> and the summary updates of \<open>internal/store/metrics.go\<close>: exact
  amounts, account balances, the only posting primitive \<open>TransferCurrency\<close> with the metric
  summaries it maintains in the same transaction, the transaction wrapper \<open>Store.Write\<close>, the
  ingestion checkpoints and the address syntax.  The interface the other components use, posting
  a transfer and reading a balance, is the locale \<open>double_entry\<close>.
\<close>

section \<open>Amounts, balances, addresses\<close>

definition Amount :: "string \<Rightarrow> int result" where
  "Amount value =
     (if value = [] \<or> 256 < length value \<or> (1 < length value \<and> hd value = CHR ''0'')
      then Inl (PlainError ''amount must be a canonical unsigned decimal integer (at most 256 digits)'')
      else if \<not> all_digits value then Inl (PlainError ''amount must be an unsigned integer'')
      else case SetString value of
        None \<Rightarrow> Inl (PlainError ''invalid amount'')
      | Some n \<Rightarrow> Inr n)"

definition signedBalance :: "string \<Rightarrow> int result" where
  "signedBalance value = (case SetString value of
     None \<Rightarrow> Inl (PlainError ''invalid canonical signed balance'')
   | Some n \<Rightarrow> if int_str n \<noteq> value then Inl (PlainError ''invalid canonical signed balance'') else Inr n)"

definition BalanceCurrency :: "account \<Rightarrow> string \<Rightarrow> string \<Rightarrow> (world, int) tx" where
  "BalanceCurrency account owner currency =
     (if currency \<noteq> ''usd'' \<and> currency \<noteq> ''eth'' then fail (PlainError ''invalid balance currency'')
      else bindE (gets (\<lambda>s. map_of (account_balances s) (account, owner, currency)))
        (\<lambda>row. case row of None \<Rightarrow> ret 0 | Some value \<Rightarrow> liftE (signedBalance value)))"

definition Balance :: "account \<Rightarrow> string \<Rightarrow> (world, int) tx" where
  "Balance account owner = BalanceCurrency account owner ''eth''"

definition Address :: "string \<Rightarrow> string result" where
  "Address v =
     (if length v \<noteq> 42 \<or> take 2 v \<noteq> ''0x'' then Inl (PlainError ''expected a 0x-prefixed 20-byte address'')
      else if \<not> (\<forall>c \<in> set (ToLower (drop 2 v)). is_lower_hex c) then Inl (PlainError ''invalid address'')
      else Inr (ToLower v))"

lemma Amount_Inr: "Amount v = Inr n \<longleftrightarrow> canonical v \<and> length v \<le> 256 \<and> n = int (dec_val v)"
proof -
  have "canonical v \<Longrightarrow> SetString v = Some (int (dec_val v))"
    using SetString_nat_str [of "dec_val v"] by (simp add: nat_str_dec_val)
  then show ?thesis by (auto simp: Amount_def canonical_def split: option.splits)
qed

lemma Amount_text: "Amount v = Inr n \<Longrightarrow> v = int_str n \<and> 0 \<le> n"
  by (auto simp: Amount_Inr nat_str_int_str nat_str_dec_val)

lemma Amount_int_str: "0 \<le> n \<Longrightarrow> length (int_str n) \<le> 256 \<Longrightarrow> Amount (int_str n) = Inr n"
  by (auto simp: Amount_Inr int_str_def)

lemma signedBalance_int_str [simp]: "signedBalance (int_str n) = Inr n"
  by (simp add: signedBalance_def)

lemma signedBalance_Inr: "signedBalance v = Inr n \<longleftrightarrow> v = int_str n"
  by (auto simp: signedBalance_def split: option.splits if_splits)

lemma ToLower_0x: "take 2 v = ''0x'' \<Longrightarrow> take 2 (ToLower v) = ''0x''"
  by (simp add: ToLower_take [symmetric]) (simp add: ToLower_def lower_char_def code_def)

lemma Address_Inr: "Address v = Inr a \<longleftrightarrow> a = ToLower v \<and> hex_text 42 (ToLower v) \<and> take 2 v = ''0x''"
  by (auto simp: Address_def hex_text_def ToLower_drop dest: ToLower_0x split: if_splits)

section \<open>Metric summaries\<close>

definition metric_kinds :: "string list" where
  "metric_kinds = [''grants'', ''allocations'', ''quarantines'', ''settlements'',
     ''allocations_overdrawn'', ''escrow_unfunded_signers'', ''settlements_underpaid'']"

definition changeMetricCount :: "string \<Rightarrow> string \<Rightarrow> string \<Rightarrow> int \<Rightarrow> (world, unit) tx" where
  "changeMetricCount kind first second delta =
     (if delta = 0 then ret ()
      else if delta < 0 then
        bindE (select_row (\<lambda>s. map_of (metric_counts s) (kind, first, second)))
          (\<lambda>value. sql_write ''metric_counts'' (\<lambda>s. 0 \<le> value + delta)
             (\<lambda>s. s\<lparr>metric_counts := AList.update (kind, first, second) (value + delta) (metric_counts s)\<rparr>))
      else sql_write ''metric_counts'' (\<lambda>s. oneOf kind metric_kinds)
             (\<lambda>s. s\<lparr>metric_counts := AList.update (kind, first, second)
                     (tget id (metric_counts s) (kind, first, second) + delta) (metric_counts s)\<rparr>))"

definition changeMetricAmount :: "string \<Rightarrow> string \<Rightarrow> int \<Rightarrow> (world, unit) tx" where
  "changeMetricAmount name currency delta =
     (if delta = 0 then ret ()
      else bindE (select_row (\<lambda>s. map_of (metric_amounts s) (name, currency)))
        (\<lambda>value. bindE (liftE (signedBalance value))
          (\<lambda>n. modify (\<lambda>s. s\<lparr>metric_amounts :=
             AList.update (name, currency) (int_str (n + delta)) (metric_amounts s)\<rparr>))))"

definition changeInventory :: "string \<Rightarrow> string \<Rightarrow> string \<Rightarrow> string \<Rightarrow> (world, unit) tx" where
  "changeInventory kind currency old new =
     (if old = new then ret ()
      else thenE (if old \<noteq> [] then changeMetricCount kind currency old (- 1) else ret ())
             (changeMetricCount kind currency new 1))"

definition overdraw :: "int \<Rightarrow> int" where
  "overdraw n = (if n < 0 then - n else 0)"

definition updateBalanceMetrics :: "account \<Rightarrow> string \<Rightarrow> string \<Rightarrow> int \<Rightarrow> int \<Rightarrow> (world, unit) tx" where
  "updateBalanceMetrics account owner currency old new =
     (let delta = new - old in
      if account = GrantUnallocated then changeMetricAmount (account_name account) currency delta
      else if account = AllocationAvailable \<or> account = AllocationSpent then
        bindE (gets (\<lambda>s. \<exists>a \<in> set (allocations s). a_id a = owner \<and> a_currency a = currency))
          (\<lambda>eligible. if \<not> eligible then ret ()
            else thenE (changeMetricAmount (account_name account) currency delta)
              (if account = AllocationSpent then ret ()
               else thenE (changeMetricAmount ''allocation_overdraw'' currency (overdraw new - overdraw old))
                 (thenE (changeMetricCount ''allocations_overdrawn'' currency []
                           (boolCount (new < 0) - boolCount (old < 0)))
                   (if new < 0 then
                      modify (\<lambda>s. s\<lparr>metric_balances := AList.update (account, owner, currency)
                        (owner, int_str new) (metric_balances s)\<rparr>)
                    else if old < 0 then
                      modify (\<lambda>s. s\<lparr>metric_balances :=
                        AList.delete (account, owner, currency) (metric_balances s)\<rparr>)
                    else ret ()))))
      else if account = EscrowDeposit \<or> account = EscrowReserve then
        if currency \<noteq> ''eth'' then ret ()
        else bindE (gets (\<lambda>s. int (length (filter
                (\<lambda>((t, src, c), o', v). t = account \<and> o' = owner \<and> c = currency) (metric_balances s)))))
          (\<lambda>tracked. thenE (modify (\<lambda>s. s\<lparr>metric_balances := map
                (\<lambda>((t, src, c), o', v). ((t, src, c), o',
                   if t = account \<and> o' = owner \<and> c = currency then int_str new else v))
                (metric_balances s)\<rparr>))
            (if tracked = 0 then ret ()
             else thenE (changeMetricAmount (account_name account) currency (delta * tracked))
               (changeMetricCount ''escrow_unfunded_signers'' (drop 7 (account_name account)) []
                  (tracked * (boolCount (new = 0) - boolCount (old = 0))))))
      else ret ())"

section \<open>The posting primitive\<close>

definition post_entry ::
  "string \<Rightarrow> string \<Rightarrow> int \<Rightarrow> int \<Rightarrow> account \<times> string \<times> direction \<Rightarrow> (world, unit) tx" where
  "post_entry tid currency n now e = (case e of (account, owner, dir) \<Rightarrow>
     bindE ID (\<lambda>eid.
       thenE (insert_ledger_entry \<lparr>le_id = eid, le_tx = tid, le_account = account, le_owner = owner,
                le_direction = dir, le_amount = int_str n, le_currency = currency, le_created = now\<rparr>)
         (bindE (BalanceCurrency account owner currency) (\<lambda>old.
            let balance = (if dir = Debit then old - n else old + n) in
            thenE (upsert_balance account owner currency (int_str balance))
              (updateBalanceMetrics account owner currency old balance)))))"

definition TransferCurrency ::
  "string \<Rightarrow> string \<Rightarrow> string \<Rightarrow> string \<Rightarrow> account \<Rightarrow> string \<Rightarrow> account \<Rightarrow> string \<Rightarrow> string \<Rightarrow> int \<Rightarrow>
   (world, unit) tx" where
  "TransferCurrency key reason refType refID debit debitID credit creditID currency n =
     (if currency \<noteq> ''usd'' \<and> currency \<noteq> ''eth'' then fail (PlainError ''invalid transfer currency'')
      else if n < 0 then fail (PlainError ''negative transfer'')
      else if n = 0 then ret ()
      else bindE ID (\<lambda>tid. bindE NowMs (\<lambda>now.
        thenE (insert_ledger_transaction \<lparr>lt_id = tid, lt_key = key, lt_reason = reason,
                 lt_ref_type = refType, lt_ref_id = refID, lt_created = now\<rparr>)
          (forE [(debit, debitID, Debit), (credit, creditID, Credit)] (post_entry tid currency n now)))))"

definition Transfer ::
  "string \<Rightarrow> string \<Rightarrow> string \<Rightarrow> string \<Rightarrow> account \<Rightarrow> string \<Rightarrow> account \<Rightarrow> string \<Rightarrow> int \<Rightarrow> (world, unit) tx" where
  "Transfer key reason refType refID debit debitID credit creditID n =
     TransferCurrency key reason refType refID debit debitID credit creditID ''eth'' n"

section \<open>Transactions and checkpoints\<close>

text \<open>
  \<open>Store.Write\<close>: the body runs in an immediate transaction; any error rolls every table back,
  success commits.  Readings of the host are not taken back.
\<close>

definition rollback :: "world \<Rightarrow> world \<Rightarrow> world" where
  "rollback s s' = s\<lparr>tick := tick s'\<rparr>"

definition Write :: "(world, 'a) tx \<Rightarrow> (world, 'a) tx" where
  "Write fn s = (case fn s of (Inl e, s') \<Rightarrow> (Inl e, rollback s s') | (Inr x, s') \<Rightarrow> (Inr x, s'))"

definition Checkpoint :: "string \<Rightarrow> string \<Rightarrow> (world, int \<times> string \<times> bool) tx" where
  "Checkpoint source stream =
     bindE (gets (\<lambda>s. map_of (ingestion_checkpoints s) (source, stream)))
       (\<lambda>row. case row of None \<Rightarrow> ret (0, [], False) | Some (next, hash) \<Rightarrow> ret (next, hash, True))"

definition SetCheckpoint :: "string \<Rightarrow> string \<Rightarrow> int \<Rightarrow> string \<Rightarrow> (world, unit) tx" where
  "SetCheckpoint source stream next hash = sql_write ''ingestion_checkpoints''
     (\<lambda>s. oneOf source [''chain'', ''kafka''] \<and> 0 \<le> next \<and> (hash = [] \<or> hex_text 66 hash))
     (\<lambda>s. s\<lparr>ingestion_checkpoints := AList.update (source, stream) (next, hash) (ingestion_checkpoints s)\<rparr>)"


section \<open>What the steps do\<close>

subsection \<open>Frames\<close>

text \<open>
  The summary updates write the three metric tables and nothing else.  \<open>nonmetric\<close> forgets
  those tables (and the host's reading counter); two states with equal remainders agree on every
  other table.
\<close>

definition nonmetric :: "world \<Rightarrow> world" where
  "nonmetric s = s\<lparr>metric_amounts := [], metric_counts := [], metric_balances := [], tick := 0\<rparr>"

definition nonledger :: "world \<Rightarrow> world" where
  "nonledger s = (nonmetric s)\<lparr>ledger_transactions := [], ledger_entries := [], account_balances := []\<rparr>"

lemma nonmetric_simps [simp]:
  "nonmetric (s\<lparr>metric_amounts := a\<rparr>) = nonmetric s"
  "nonmetric (s\<lparr>metric_counts := c\<rparr>) = nonmetric s"
  "nonmetric (s\<lparr>metric_balances := b\<rparr>) = nonmetric s"
  "nonmetric (s\<lparr>tick := k\<rparr>) = nonmetric s"
  by (simp_all add: nonmetric_def)

lemma nonledger_simps [simp]:
  "nonledger (s\<lparr>metric_amounts := a\<rparr>) = nonledger s"
  "nonledger (s\<lparr>metric_counts := c\<rparr>) = nonledger s"
  "nonledger (s\<lparr>metric_balances := b\<rparr>) = nonledger s"
  "nonledger (s\<lparr>tick := k\<rparr>) = nonledger s"
  "nonledger (s\<lparr>ledger_transactions := lt\<rparr>) = nonledger s"
  "nonledger (s\<lparr>ledger_entries := le\<rparr>) = nonledger s"
  "nonledger (s\<lparr>account_balances := ab\<rparr>) = nonledger s"
  by (simp_all add: nonledger_def nonmetric_def)

lemma nonledger_sel:
  "grants (nonledger s) = grants s"
  "allocations (nonledger s) = allocations s"
  "api_keys (nonledger s) = api_keys s"
  "sessions (nonledger s) = sessions s"
  "usage_events (nonledger s) = usage_events s"
  "signing_authorizations (nonledger s) = signing_authorizations s"
  "settlements (nonledger s) = settlements s"
  "escrow_snapshots (nonledger s) = escrow_snapshots s"
  "ticket_broker_events (nonledger s) = ticket_broker_events s"
  "ingestion_checkpoints (nonledger s) = ingestion_checkpoints s"
  "chain_blocks (nonledger s) = chain_blocks s"
  "management_idempotency (nonledger s) = management_idempotency s"
  "kafka_lags (nonledger s) = kafka_lags s"
  "uuid (nonledger s) = uuid s"
  "clock (nonledger s) = clock s"
  "random (nonledger s) = random s"
  "sha256 (nonledger s) = sha256 s"
  by (simp_all add: nonledger_def nonmetric_def)

lemma nonmetric_sel:
  "ledger_transactions (nonmetric s) = ledger_transactions s"
  "ledger_entries (nonmetric s) = ledger_entries s"
  "account_balances (nonmetric s) = account_balances s"
  by (simp_all add: nonmetric_def)

lemma nonledger_fields:
  "nonledger s' = nonledger s \<Longrightarrow>
   grants s' = grants s \<and> allocations s' = allocations s \<and> api_keys s' = api_keys s \<and>
   sessions s' = sessions s \<and> usage_events s' = usage_events s \<and> signing_authorizations s' = signing_authorizations s \<and>
   settlements s' = settlements s \<and> escrow_snapshots s' = escrow_snapshots s \<and> ticket_broker_events s' = ticket_broker_events s \<and>
   ingestion_checkpoints s' = ingestion_checkpoints s \<and> chain_blocks s' = chain_blocks s \<and> management_idempotency s' = management_idempotency s \<and>
   kafka_lags s' = kafka_lags s \<and> uuid s' = uuid s \<and> clock s' = clock s \<and>
   random s' = random s \<and> sha256 s' = sha256 s"
  by (intro conjI; metis nonledger_sel)

lemma nonmetric_fields:
  "nonmetric s' = nonmetric s \<Longrightarrow>
   ledger_transactions s' = ledger_transactions s \<and> ledger_entries s' = ledger_entries s \<and> account_balances s' = account_balances s \<and> nonledger s' = nonledger s"
  by (intro conjI; metis nonmetric_sel nonledger_def)

lemma changeMetricCount_frame [frames]:
  "changeMetricCount kind a b d s = (Inr x, s') \<Longrightarrow> nonmetric s' = nonmetric s"
  by (auto simp: changeMetricCount_def txs split: if_splits)

lemma changeMetricAmount_frame [frames]:
  "changeMetricAmount name cur d s = (Inr x, s') \<Longrightarrow> nonmetric s' = nonmetric s"
  by (auto simp: changeMetricAmount_def txs split: if_splits)

lemma changeInventory_frame [frames]:
  "changeInventory kind cur old new s = (Inr x, s') \<Longrightarrow> nonmetric s' = nonmetric s"
  by (auto simp: changeInventory_def txs split: if_splits dest!: changeMetricCount_frame)

lemma updateBalanceMetrics_frame [frames]:
  "updateBalanceMetrics acct owner cur old new s = (Inr x, s') \<Longrightarrow> nonmetric s' = nonmetric s"
  by (auto simp: updateBalanceMetrics_def txs Let_def split: if_splits
      dest!: changeMetricCount_frame changeMetricAmount_frame)

subsection \<open>Balances and postings\<close>

definition units_val :: "string \<Rightarrow> int" where
  "units_val v = (case SetString v of Some n \<Rightarrow> n | None \<Rightarrow> 0)"

definition bal :: "world \<Rightarrow> account \<times> string \<times> string \<Rightarrow> int" where
  "bal s k = tget units_val (account_balances s) k"

lemma units_val_int_str [simp]: "units_val (int_str n) = n"
  by (simp add: units_val_def)

lemma signedBalance_units: "signedBalance v = Inr n \<Longrightarrow> units_val v = n"
  by (simp add: signedBalance_Inr)

lemma BalanceCurrency_Inr [txs]:
  "BalanceCurrency acct owner cur s = (Inr n, s') \<longleftrightarrow>
     is_currency cur \<and> s' = s \<and> n = bal s (acct, owner, cur) \<and>
     (case map_of (account_balances s) (acct, owner, cur) of None \<Rightarrow> True | Some v \<Rightarrow> v = int_str n)"
  by (auto simp: BalanceCurrency_def is_currency_def bal_def tget_def txs signedBalance_Inr
      split: option.splits)

lemma bal_cong: "account_balances s' = account_balances s \<Longrightarrow> bal s' k = bal s k"
  by (simp add: bal_def)

lemma post_entry_Inr:
  assumes "post_entry tid cur n now (acct, owner, dir) s = (Inr x, s')"
  shows "\<exists>eid. ledger_entries s' = ledger_entries s @ [\<lparr>le_id = eid, le_tx = tid, le_account = acct,
            le_owner = owner, le_direction = dir, le_amount = int_str n, le_currency = cur, le_created = now\<rparr>] \<and>
          eid \<notin> le_id ` set (ledger_entries s) \<and>
          account_balances s' = AList.update (acct, owner, cur)
           (int_str (bal s (acct, owner, cur) + (if dir = Debit then - n else n))) (account_balances s) \<and>
          ledger_transactions s' = ledger_transactions s \<and> nonledger s' = nonledger s \<and>
          tid \<in> lt_id ` set (ledger_transactions s)"
  using assms
  by (auto simp: post_entry_def insert_ledger_entry_def upsert_balance_def txs Let_def bal_def
      dest!: updateBalanceMetrics_frame nonmetric_fields split: if_splits)


definition entry_row :: "string \<Rightarrow> string \<Rightarrow> account \<Rightarrow> string \<Rightarrow> direction \<Rightarrow> int \<Rightarrow> string \<Rightarrow> int \<Rightarrow> ledger_entry" where
  "entry_row eid tid acct owner dir n cur now =
     \<lparr>le_id = eid, le_tx = tid, le_account = acct, le_owner = owner, le_direction = dir,
      le_amount = int_str n, le_currency = cur, le_created = now\<rparr>"

text \<open>A successful transfer of a positive amount appends one transaction and its two entries, and
  moves the amount between the two balances; a transfer of zero leaves no trace.\<close>

lemma TransferCurrency_zero: "is_currency cur \<Longrightarrow> TransferCurrency key rsn rt ri d di c ci cur 0 s = (Inr (), s)"
  by (auto simp add: TransferCurrency_def is_currency_def)

lemma TransferCurrency_Inr:
  assumes "TransferCurrency key rsn rt ri d di c ci cur n s = (Inr x, s')" and "n \<noteq> 0"
  obtains tid now e1 e2 y where
    "0 < n" "key \<notin> lt_key ` set (ledger_transactions s)" "tid \<notin> lt_id ` set (ledger_transactions s)"
    "ledger_transactions s' = ledger_transactions s @
       [\<lparr>lt_id = tid, lt_key = key, lt_reason = rsn, lt_ref_type = rt, lt_ref_id = ri, lt_created = now\<rparr>]"
    "ledger_entries s' = ledger_entries s @
       [entry_row e1 tid d di Debit n cur now, entry_row e2 tid c ci Credit n cur now]"
    "account_balances s' = AList.update (c, ci, cur) (int_str (y + n))
       (AList.update (d, di, cur) (int_str (bal s (d, di, cur) - n)) (account_balances s))"
    "y = (if (c, ci) = (d, di) then bal s (d, di, cur) - n else bal s (c, ci, cur))"
proof -
  from assms obtain tid now s1 s2 where
    s1: "s1 = s\<lparr>tick := Suc (Suc (tick s)), ledger_transactions := ledger_transactions s @
          [\<lparr>lt_id = tid, lt_key = key, lt_reason = rsn, lt_ref_type = rt, lt_ref_id = ri, lt_created = now\<rparr>]\<rparr>"
    and n: "0 < n" and fresh: "key \<notin> lt_key ` set (ledger_transactions s)"
      "tid \<notin> lt_id ` set (ledger_transactions s)"
    and p1: "post_entry tid cur n now (d, di, Debit) s1 = (Inr (), s2)"
    and p2: "post_entry tid cur n now (c, ci, Credit) s2 = (Inr (), s')"
    by (auto simp: TransferCurrency_def insert_ledger_transaction_def txs split: if_splits)
  have b1: "bal s1 k = bal s k" for k by (simp add: s1 bal_def)
  note P1 = post_entry_Inr [OF p1] and P2 = post_entry_Inr [OF p2]
  have b2: "bal s2 k = (if k = (d, di, cur) then bal s (d, di, cur) - n else bal s k)" for k
    using P1 by (auto simp: bal_def tget_update b1 [unfolded bal_def])
  from P1 P2 obtain e1 e2 where
    "ledger_entries s' = ledger_entries s1 @ [entry_row e1 tid d di Debit n cur now, entry_row e2 tid c ci Credit n cur now]"
    by (auto simp: entry_row_def)
  then show thesis
    using that [of tid now e1 e2] n fresh P1 P2 by (auto simp: s1 b1 [unfolded s1] b2)
qed

lemma TransferCurrency_basic:
  assumes "TransferCurrency key rsn rt ri d di c ci cur n s = (Inr x, s')"
  shows "is_currency cur \<and> 0 \<le> n \<and> nonledger s' = nonledger s"
  using assms
  by (auto simp: TransferCurrency_def insert_ledger_transaction_def is_currency_def txs
      dest!: post_entry_Inr split: if_splits)

lemma TransferCurrency_bal:
  assumes "TransferCurrency key rsn rt ri d di c ci cur n s = (Inr x, s')"
  shows "bal s' k = bal s k + (if k = (c, ci, cur) then n else 0) - (if k = (d, di, cur) then n else 0)"
proof (cases "n = 0")
  case True
  then show ?thesis using assms by (auto simp: TransferCurrency_def split: if_splits)
next
  case False
  from TransferCurrency_Inr [OF assms False] obtain y where
    "account_balances s' = AList.update (c, ci, cur) (int_str (y + n))
       (AList.update (d, di, cur) (int_str (bal s (d, di, cur) - n)) (account_balances s))"
    "y = (if (c, ci) = (d, di) then bal s (d, di, cur) - n else bal s (c, ci, cur))" by metis
  then show ?thesis by (auto simp: bal_def tget_update)
qed

section \<open>The ledger invariant\<close>

definition signed_amount :: "ledger_entry \<Rightarrow> int" where
  "signed_amount e = (if le_direction e = Debit then - units_val (le_amount e) else units_val (le_amount e))"

definition entry_key :: "ledger_entry \<Rightarrow> account \<times> string \<times> string" where
  "entry_key e = (le_account e, le_owner e, le_currency e)"

definition entry_sum :: "ledger_entry list \<Rightarrow> account \<times> string \<times> string \<Rightarrow> int" where
  "entry_sum es k = (\<Sum>e\<leftarrow>es. if entry_key e = k then signed_amount e else 0)"

fun balanced_pair :: "ledger_entry list \<Rightarrow> bool" where
  "balanced_pair [d, c] \<longleftrightarrow> le_direction d = Debit \<and> le_direction c = Credit \<and>
     le_amount d = le_amount c \<and> le_currency d = le_currency c \<and> 0 < units_val (le_amount d)"
| "balanced_pair _ \<longleftrightarrow> False"

definition net :: "world \<Rightarrow> string \<Rightarrow> int" where
  "net s cur = tsum (\<lambda>(a, owner, c). c = cur) units_val (account_balances s)"

definition ledger_ok :: "world \<Rightarrow> bool" where
  "ledger_ok s \<longleftrightarrow>
     distinct (map fst (account_balances s)) \<and>
     (\<forall>kv \<in> set (account_balances s). \<exists>n. snd kv = int_str n) \<and>
     (\<forall>k. bal s k = entry_sum (ledger_entries s) k) \<and>
     (\<forall>cur. net s cur = 0) \<and>
     distinct (map lt_id (ledger_transactions s)) \<and>
     distinct (map lt_key (ledger_transactions s)) \<and>
     (\<forall>e \<in> set (ledger_entries s). le_tx e \<in> lt_id ` set (ledger_transactions s)) \<and>
     (\<forall>t \<in> set (ledger_transactions s).
        balanced_pair (filter (\<lambda>e. le_tx e = lt_id t) (ledger_entries s)))"

lemma entry_row_simps [simp]:
  "le_tx (entry_row eid tid a owner dir n cur now) = tid"
  "entry_key (entry_row eid tid a owner dir n cur now) = (a, owner, cur)"
  "signed_amount (entry_row eid tid a owner dir n cur now) = (if dir = Debit then - n else n)"
  "le_direction (entry_row eid tid a owner dir n cur now) = dir"
  "le_amount (entry_row eid tid a owner dir n cur now) = int_str n"
  "le_currency (entry_row eid tid a owner dir n cur now) = cur"
  by (simp_all add: entry_row_def entry_key_def signed_amount_def)

lemma entry_sum_append: "entry_sum (xs @ ys) k = entry_sum xs k + entry_sum ys k"
  by (simp add: entry_sum_def)

lemma entry_sum_Cons [simp]:
  "entry_sum (e # es) k = (if entry_key e = k then signed_amount e else 0) + entry_sum es k"
  "entry_sum [] k = 0"
  by (simp_all add: entry_sum_def)

lemma ledger_ok_cong:
  "account_balances s' = account_balances s \<Longrightarrow> ledger_entries s' = ledger_entries s \<Longrightarrow>
   ledger_transactions s' = ledger_transactions s \<Longrightarrow> ledger_ok s \<Longrightarrow> ledger_ok s'"
  by (simp add: ledger_ok_def bal_def net_def)

lemma ledger_ok_frame: "nonmetric s' = nonmetric s \<Longrightarrow> ledger_ok s \<Longrightarrow> ledger_ok s'"
  by (drule nonmetric_fields) (auto intro: ledger_ok_cong)

lemma filter_no_tx:
  "\<forall>e \<in> set es. le_tx e \<in> I \<Longrightarrow> i \<notin> I \<Longrightarrow> filter (\<lambda>e. le_tx e = i) es = []"
  by (auto simp: filter_empty_conv)

lemma TransferCurrency_ledger_ok:
  assumes t: "TransferCurrency key rsn rt ri d di c ci cur n s = (Inr x, s')" and ok: "ledger_ok s"
  shows "ledger_ok s'"
proof (cases "n = 0")
  case True
  then show ?thesis using t ok by (auto simp: TransferCurrency_def split: if_splits)
next
  case False
  from TransferCurrency_Inr [OF t False] obtain tid now e1 e2 y where
    n: "0 < n" and fresh: "key \<notin> lt_key ` set (ledger_transactions s)"
      "tid \<notin> lt_id ` set (ledger_transactions s)"
    and tx: "ledger_transactions s' = ledger_transactions s @
       [\<lparr>lt_id = tid, lt_key = key, lt_reason = rsn, lt_ref_type = rt, lt_ref_id = ri, lt_created = now\<rparr>]"
    and es: "ledger_entries s' = ledger_entries s @
       [entry_row e1 tid d di Debit n cur now, entry_row e2 tid c ci Credit n cur now]"
    and ab: "account_balances s' = AList.update (c, ci, cur) (int_str (y + n))
       (AList.update (d, di, cur) (int_str (bal s (d, di, cur) - n)) (account_balances s))"
    and y: "y = (if (c, ci) = (d, di) then bal s (d, di, cur) - n else bal s (c, ci, cur))"
    by metis
  have es_tx: "\<forall>e \<in> set (ledger_entries s). le_tx e \<in> lt_id ` set (ledger_transactions s)"
    using ok by (simp add: ledger_ok_def)
  have dist: "distinct (map fst (account_balances s'))"
    using ok unfolding ab ledger_ok_def by (simp add: AList.distinct_update)
  have rows: "\<forall>kv \<in> set (account_balances s'). \<exists>m. snd kv = int_str m"
  proof
    fix kv assume "kv \<in> set (account_balances s')"
    then have "kv = ((c, ci, cur), int_str (y + n)) \<or> kv = ((d, di, cur), int_str (bal s (d, di, cur) - n)) \<or>
        kv \<in> set (account_balances s)"
      unfolding ab by (auto dest!: set_updateD)
    then show "\<exists>m. snd kv = int_str m" using ok by (auto simp: ledger_ok_def)
  qed
  have sums: "bal s' k = entry_sum (ledger_entries s') k" for k
  proof -
    have "bal s k = entry_sum (ledger_entries s) k" using ok unfolding ledger_ok_def by blast
    then show ?thesis using TransferCurrency_bal [OF t, of k] by (auto simp: es entry_sum_append)
  qed
  have nets: "net s' cur' = 0" for cur'
  proof -
    have "net s' cur' = net s cur'"
      unfolding net_def ab by (auto simp: tsum_update tget_update y bal_def)
    then show ?thesis using ok by (simp add: ledger_ok_def)
  qed
  have pairs: "balanced_pair (filter (\<lambda>e. le_tx e = lt_id t) (ledger_entries s'))"
    if "t \<in> set (ledger_transactions s')" for t
  proof -
    have "t \<in> set (ledger_transactions s) \<and> lt_id t \<noteq> tid \<or> lt_id t = tid"
      using that fresh by (auto simp: tx)
    then show ?thesis
    proof
      assume "t \<in> set (ledger_transactions s) \<and> lt_id t \<noteq> tid"
      then show ?thesis using ok by (auto simp: es ledger_ok_def)
    next
      assume "lt_id t = tid"
      then show ?thesis using n by (simp add: es filter_no_tx [OF es_tx fresh(2)])
    qed
  qed
  from dist rows sums nets pairs ok fresh es_tx show ?thesis
    by (auto simp: ledger_ok_def tx es)
qed


section \<open>The ledger's interface\<close>

text \<open>
  What the components that move money rely on: a posting moves a nonnegative amount from one
  balance to another and touches no third one.  Reversal, conservation over any set of accounts
  and independence of the posting order follow from that law alone.
\<close>

locale double_entry =
  fixes balance :: "'s \<Rightarrow> 'k \<Rightarrow> int"
    and post :: "'k \<Rightarrow> 'k \<Rightarrow> int \<Rightarrow> 's \<Rightarrow> 's \<Rightarrow> bool"
  assumes post_balance: "post d c n s s' \<Longrightarrow>
      balance s' k = balance s k + (if k = c then n else 0) - (if k = d then n else 0)"
    and post_nonneg: "post d c n s s' \<Longrightarrow> 0 \<le> n"
begin

lemma debited: "post d c n s s' \<Longrightarrow> d \<noteq> c \<Longrightarrow> balance s' d = balance s d - n"
  by (simp add: post_balance)

lemma credited: "post d c n s s' \<Longrightarrow> d \<noteq> c \<Longrightarrow> balance s' c = balance s c + n"
  by (simp add: post_balance)

lemma untouched: "post d c n s s' \<Longrightarrow> k \<noteq> d \<Longrightarrow> k \<noteq> c \<Longrightarrow> balance s' k = balance s k"
  by (simp add: post_balance)

lemma credit_monotone: "post d c n s s' \<Longrightarrow> k \<noteq> d \<Longrightarrow> balance s k \<le> balance s' k"
  using post_nonneg by (auto simp: post_balance)

lemma reversal: "post d c n s s' \<Longrightarrow> post c d n s' s'' \<Longrightarrow> balance s'' k = balance s k"
  by (simp add: post_balance)

lemma conservation:
  assumes "post d c n s s'" "finite K" "d \<in> K \<longleftrightarrow> c \<in> K"
  shows "(\<Sum>k \<in> K. balance s' k) = (\<Sum>k \<in> K. balance s k)"
proof -
  have "(\<Sum>k \<in> K. balance s' k) =
      (\<Sum>k \<in> K. balance s k) + (\<Sum>k \<in> K. if k = c then n else 0) - (\<Sum>k \<in> K. if k = d then n else 0)"
    by (simp add: post_balance [OF assms(1)] sum.distrib sum_subtractf)
  then show ?thesis using assms(2,3) by (simp add: sum.delta)
qed

lemma order_irrelevant:
  "post d c n s s1 \<Longrightarrow> post d' c' n' s1 s2 \<Longrightarrow>
   post d' c' n' s t1 \<Longrightarrow> post d c n t1 t2 \<Longrightarrow> balance s2 k = balance t2 k"
  by (simp add: post_balance)

end

definition posts :: "account \<times> string \<times> string \<Rightarrow> account \<times> string \<times> string \<Rightarrow> int \<Rightarrow> world \<Rightarrow> world \<Rightarrow> bool" where
  "posts d c n s s' \<longleftrightarrow> snd (snd d) = snd (snd c) \<and>
     (\<exists>key rsn rt ri. TransferCurrency key rsn rt ri (fst d) (fst (snd d)) (fst c) (fst (snd c))
        (snd (snd d)) n s = (Inr (), s'))"

lemma postsI:
  "TransferCurrency key rsn rt ri d di c ci cur n s = (Inr x, s') \<Longrightarrow> posts (d, di, cur) (c, ci, cur) n s s'"
  by (auto simp: posts_def)

interpretation ledger: double_entry bal posts
proof unfold_locales
  fix d c n s s' k
  assume "posts d c n s s'"
  then obtain key rsn rt ri where cur: "snd (snd d) = snd (snd c)"
    and t: "TransferCurrency key rsn rt ri (fst d) (fst (snd d)) (fst c) (fst (snd c)) (snd (snd d)) n s = (Inr (), s')"
    by (auto simp: posts_def)
  have "(fst d, fst (snd d), snd (snd d)) = d" by simp
  moreover have "(fst c, fst (snd c), snd (snd d)) = c" using cur by simp
  ultimately show "bal s' k = bal s k + (if k = c then n else 0) - (if k = d then n else 0)" and "0 \<le> n"
    using TransferCurrency_bal [OF t, of k] TransferCurrency_basic [OF t] by simp_all
qed

text \<open>The upserted tables are lookup tables.\<close>

interpretation counts: upsert_table "tget (id :: int \<Rightarrow> int)" AList.update
  by unfold_locales (simp add: tget_update)

interpretation checkpoints: upsert_table "\<lambda>s k. map_of (ingestion_checkpoints s) k"
  "\<lambda>k v s. case v of None \<Rightarrow> s\<lparr>ingestion_checkpoints := AList.delete k (ingestion_checkpoints s)\<rparr>
     | Some w \<Rightarrow> s\<lparr>ingestion_checkpoints := AList.update k w (ingestion_checkpoints s)\<rparr>"
  by unfold_locales (auto simp: AList.update_conv' AList.delete_conv' split: option.splits)

section \<open>Transactions\<close>

lemma rollback_tables: "tables.truncate (rollback s s') = tables.truncate s"
  by (simp add: rollback_def tables.defs)

lemma rollback_ledger:
  "ledger_transactions (rollback s s') = ledger_transactions s"
  "ledger_entries (rollback s s') = ledger_entries s"
  "account_balances (rollback s s') = account_balances s"
  by (simp_all add: rollback_def tables.defs)

lemma Write_Inr [txs]: "Write fn s = (Inr x, s') \<longleftrightarrow> fn s = (Inr x, s')"
  by (auto simp: Write_def split: prod.splits sum.splits)

lemma within_Write: "within R m \<Longrightarrow> within R (Write m)"
  by (auto simp: within_def Write_Inr)

lemma Write_Inl: "Write fn s = (Inl e, s') \<Longrightarrow> tables.truncate s' = tables.truncate s"
  by (auto simp: Write_def rollback_tables split: prod.splits sum.splits)

lemma Write_Inl_iff: "Write fn s = (Inl e, s') \<longleftrightarrow> (\<exists>t. fn s = (Inl e, t) \<and> s' = rollback s t)"
  by (auto simp: Write_def split: prod.splits sum.splits)

section \<open>Properties\<close>

text \<open>
  C1: every accepted transfer is double entry: it keeps the ledger invariant (every balance is the
  sum of its entries, all balances of a currency sum to zero, every transaction is one debit and
  one credit of the same positive amount, keys are used once), moves exactly the amount from the
  debited to the credited account, and touches nothing outside the ledger and its summaries.
\<close>

theorem TransferCurrency_double_entry:
  assumes "TransferCurrency key reason rt ri d di c ci cur n s = (Inr x, s')" and "ledger_ok s"
  shows "ledger_ok s' \<and> nonledger s' = nonledger s \<and>
    (\<forall>k. bal s' k = bal s k + (if k = (c, ci, cur) then n else 0) - (if k = (d, di, cur) then n else 0))"
  using TransferCurrency_ledger_ok [OF assms] TransferCurrency_basic [OF assms(1)]
    TransferCurrency_bal [OF assms(1)] by blast

lemma migrated_ledger_ok: "ledger_ok (migrated u c r h)"
  by (simp add: ledger_ok_def migrated_def bal_def tget_def net_def)

lemma TransferCurrency_double_entry_witness:
  "\<exists>s'. TransferCurrency ''k'' ''r'' ''t'' ''i'' GrantFundingSource ''g'' GrantUnallocated ''g'' ''eth'' 5 sample = (Inr (), s') \<and>
    bal s' (GrantUnallocated, ''g'', ''eth'') = 5 \<and> bal s' (GrantFundingSource, ''g'', ''eth'') = - 5 \<and> ledger_ok s'"
proof -
  let ?r = "TransferCurrency ''k'' ''r'' ''t'' ''i'' GrantFundingSource ''g'' GrantUnallocated ''g'' ''eth'' 5 sample"
  have "fst ?r = Inr ()" by code_simp
  then have run: "?r = (Inr (), snd ?r)" by (simp add: prod_eq_iff)
  have ok: "ledger_ok sample" unfolding sample_def by (rule migrated_ledger_ok)
  have "bal sample k = 0" for k by (simp add: sample_def migrated_def bal_def tget_def)
  then show ?thesis using TransferCurrency_double_entry [OF run ok] run by auto
qed

text \<open>
  Transactions are atomic: when the body of \<open>Store.Write\<close> fails, whatever it had written, every
  table is as before; when it succeeds, all of its writes stand.
\<close>

lemma Write_atomic:
  "(\<exists>e. fst (Write fn s) = Inl e \<and> fst (fn s) = Inl e \<and> tables.truncate (snd (Write fn s)) = tables.truncate s) \<or>
   (\<exists>x. fst (fn s) = Inr x \<and> Write fn s = fn s)"
  by (auto simp: Write_def rollback_tables split: prod.splits sum.splits)

end
