(* ===== verification/Manage.thy ===== *)
theory Manage
  imports Store
begin

text \<open>
  \<open>internal/store/manage.go\<close>: creating, funding and closing grants and allocations, and issuing
  and revoking API keys.  Every operation is the body of one \<open>Store.Write\<close> transaction.
\<close>

section \<open>Operations\<close>

record Create =
  c_Name :: string
  c_Sponsor :: string
  c_Beneficiary :: string
  c_GrantID :: string
  c_Amount :: string
  c_Currency :: string
  c_Status :: string
  c_Metadata :: string
  c_Starts :: "int option"
  c_Ends :: "int option"

definition prepareCreate :: "Create \<Rightarrow> unit result" where
  "prepareCreate p =
     (if blank (c_Name p) then Inl (InvalidInput ''name is required'')
      else if (case (c_Starts p, c_Ends p) of (Some a, Some b) \<Rightarrow> b \<le> a | _ \<Rightarrow> False)
        then Inl (InvalidInput ''ends must follow starts'')
      else Inr ())"

definition or_default :: "string \<Rightarrow> string \<Rightarrow> string" where
  "or_default v d = (if v = [] then d else v)"

text \<open>The row of the \<open>INSERT INTO grants\<close>.\<close>

definition new_grant :: "Create \<Rightarrow> string \<Rightarrow> int \<Rightarrow> string \<Rightarrow> string \<Rightarrow> int \<Rightarrow> grant" where
  "new_grant p ident n currency status now =
     \<lparr>g_id = ident, g_name = c_Name p, g_sponsor = c_Sponsor p, g_total_units = int_str n,
      g_currency = currency, g_starts = c_Starts p, g_ends = c_Ends p, g_status = status,
      g_metadata = c_Metadata p, g_created = now\<rparr>"

definition createGrant :: "Create \<Rightarrow> (world, string) tx" where
  "createGrant p =
     (let currency = or_default (c_Currency p) ''usd'' in
      if \<not> oneOf currency [''usd'', ''eth''] then fail (InvalidInput ''currency must be usd or eth'')
      else bindE (liftE (Amount (c_Amount p))) (\<lambda>n.
        bindE ID (\<lambda>ident.
          let status = or_default (c_Status p) ''draft'' in
          if \<not> oneOf status [''draft'', ''active'', ''paused'']
          then fail (InvalidInput ''initial grant status must be draft, active, or paused'')
          else bindE NowMs (\<lambda>now.
            thenE (insert_grant (new_grant p ident n currency status now))
              (thenE (changeInventory ''grants'' currency [] status)
                (thenE (TransferCurrency (''create:'' @ ident) ''grant funding'' ''grant'' ident
                          GrantFundingSource ident GrantUnallocated ident currency n)
                  (ret ident)))))))"

definition allocationAmount :: "string \<Rightarrow> int \<Rightarrow> int result" where
  "allocationAmount value available = (if value = ''all'' then Inr available else Amount value)"

text \<open>The row of the \<open>INSERT INTO grant_allocations\<close>.\<close>

definition new_allocation :: "Create \<Rightarrow> string \<Rightarrow> int \<Rightarrow> string \<Rightarrow> string \<Rightarrow> int \<Rightarrow> allocation" where
  "new_allocation p ident n currency status now =
     \<lparr>a_id = ident, a_grant = c_GrantID p, a_name = c_Name p, a_beneficiary = c_Beneficiary p,
      a_allocated_units = int_str n, a_currency = currency, a_starts = c_Starts p,
      a_ends = c_Ends p, a_status = status, a_metadata = c_Metadata p, a_created = now\<rparr>"

definition createAllocation :: "Create \<Rightarrow> (world, string) tx" where
  "createAllocation p =
     bindE (select_row (find_grant (c_GrantID p))) (\<lambda>g.
       let currency = g_currency g in
       if c_Currency p \<noteq> [] \<and> c_Currency p \<noteq> currency
       then fail (InvalidInput ''allocation currency must match grant currency'')
       else if g_status g = ''closed'' then fail (StateConflict ''grant is closed'')
       else bindE (BalanceCurrency GrantUnallocated (c_GrantID p) currency) (\<lambda>available.
         bindE (liftE (allocationAmount (c_Amount p) available)) (\<lambda>n.
           if available < n then fail (StateConflict ''insufficient unallocated grant balance'')
           else let status = or_default (c_Status p) ''active'' in
             if \<not> oneOf status [''active'', ''paused'']
             then fail (InvalidInput ''initial allocation status must be active or paused'')
             else let status = (if status = ''active'' \<and> n = 0 then ''exhausted'' else status) in
               bindE ID (\<lambda>ident. bindE NowMs (\<lambda>now.
                 thenE (insert_allocation (new_allocation p ident n currency status now))
                   (thenE (changeInventory ''allocations'' currency [] status)
                     (thenE (TransferCurrency (''create:'' @ ident) ''grant allocation'' ''allocation'' ident
                               GrantUnallocated (c_GrantID p) AllocationAvailable ident currency n)
                       (ret ident))))))))"

definition Create_tx :: "string \<Rightarrow> Create \<Rightarrow> (world, string) tx" where
  "Create_tx kind p =
     bindE (liftE (prepareCreate p)) (\<lambda>_.
       Write (if kind = ''grant'' then createGrant p
              else if kind = ''allocation'' then createAllocation p
              else fail (PlainError ''unknown resource'')))"

definition update_grant_total :: "string \<Rightarrow> string \<Rightarrow> (world, unit) tx" where
  "update_grant_total ident units = sql_write ''grants'' (\<lambda>s. canonical units)
     (\<lambda>s. s\<lparr>grants := update_rows (\<lambda>g. g_id g = ident) (\<lambda>g. g\<lparr>g_total_units := units\<rparr>) (grants s)\<rparr>)"

definition update_allocation :: "string \<Rightarrow> string \<Rightarrow> string \<Rightarrow> (world, unit) tx" where
  "update_allocation ident units status = sql_write ''grant_allocations''
     (\<lambda>s. canonical units \<and> oneOf status [''active'', ''paused'', ''exhausted'', ''revoked''])
     (\<lambda>s. s\<lparr>allocations := update_rows (\<lambda>a. a_id a = ident)
              (\<lambda>a. a\<lparr>a_allocated_units := units, a_status := status\<rparr>) (allocations s)\<rparr>)"

definition fundGrant :: "string \<Rightarrow> int \<Rightarrow> string \<Rightarrow> (world, unit) tx" where
  "fundGrant ident n currency =
     bindE (select_row (find_grant ident)) (\<lambda>g.
       if currency \<noteq> [] \<and> currency \<noteq> g_currency g
       then fail (InvalidInput ''funding currency must match grant currency'')
       else if g_status g = ''closed'' then fail (StateConflict ''grant is closed'')
       else bindE (liftE (Amount (g_total_units g))) (\<lambda>total.
         thenE (update_grant_total ident (int_str (total + n)))
           (bindE ID (\<lambda>key.
             TransferCurrency (''fund:'' @ key) ''grant funding'' ''grant'' ident
               GrantFundingSource ident GrantUnallocated ident (g_currency g) n))))"

definition fundAllocation :: "string \<Rightarrow> string \<Rightarrow> string \<Rightarrow> (world, unit) tx" where
  "fundAllocation ident value currency =
     bindE (select_row (find_allocation ident)) (\<lambda>a.
       if currency \<noteq> [] \<and> currency \<noteq> a_currency a
       then fail (InvalidInput ''funding currency must match allocation currency'')
       else if a_status a = ''revoked'' then fail (StateConflict ''allocation is revoked'')
       else bindE (select_row (find_grant (a_grant a))) (\<lambda>g.
         if g_status g = ''closed'' then fail (StateConflict ''grant is closed'')
         else bindE (BalanceCurrency GrantUnallocated (a_grant a) (a_currency a)) (\<lambda>available.
           bindE (liftE (allocationAmount value available)) (\<lambda>n.
             if n = 0 then fail (InvalidInput ''funding must be positive'')
             else if available < n then fail (StateConflict ''insufficient unallocated grant balance'')
             else bindE (liftE (Amount (a_allocated_units a))) (\<lambda>old.
               bindE ID (\<lambda>key.
                 thenE (TransferCurrency (''fund:'' @ key) ''allocation funding'' ''allocation'' ident
                          GrantUnallocated (a_grant a) AllocationAvailable ident (a_currency a) n)
                   (bindE (BalanceCurrency AllocationAvailable ident (a_currency a)) (\<lambda>b.
                     let status = (if a_status a = ''exhausted'' \<and> 0 < b then ''active'' else a_status a) in
                     thenE (changeInventory ''allocations'' (a_currency a) (a_status a) status)
                       (update_allocation ident (int_str (old + n)) status)))))))))"

definition fundCurrency :: "string \<Rightarrow> string \<Rightarrow> string \<Rightarrow> string \<Rightarrow> (world, unit) tx" where
  "fundCurrency kind ident value currency =
     (if kind = ''grant'' then
        bindE (liftE (Amount value)) (\<lambda>n.
          if n = 0 then fail (InvalidInput ''funding must be positive'') else fundGrant ident n currency)
      else if kind \<noteq> ''allocation'' then fail (PlainError ''unknown resource'')
      else fundAllocation ident value currency)"

definition FundCurrency :: "string \<Rightarrow> string \<Rightarrow> string \<Rightarrow> string \<Rightarrow> (world, unit) tx" where
  "FundCurrency kind ident value currency = Write (fundCurrency kind ident value currency)"

definition Fund :: "string \<Rightarrow> string \<Rightarrow> string \<Rightarrow> (world, unit) tx" where
  "Fund kind ident value = FundCurrency kind ident value []"

definition affected :: "int \<Rightarrow> (world, unit) tx" where
  "affected n = (if n = 0 then fail ErrNoRows else ret ())"

definition setGrantStatus :: "string \<Rightarrow> string \<Rightarrow> (world, unit) tx" where
  "setGrantStatus ident status =
     (if \<not> oneOf status [''draft'', ''active'', ''paused'', ''closed'']
      then fail (InvalidInput ''invalid grant status'')
      else bindE (select_row (find_grant ident)) (\<lambda>g.
        if g_status g = ''closed'' \<and> status \<noteq> g_status g
        then fail (StateConflict ''closed grant cannot be reopened'')
        else thenE (changeInventory ''grants'' (g_currency g) (g_status g) status)
          (modify (\<lambda>s. s\<lparr>grants := update_rows (\<lambda>g. g_id g = ident) (\<lambda>g. g\<lparr>g_status := status\<rparr>) (grants s)\<rparr>))))"

text \<open>Revoking gives the unused money back to the grant; the result is the new \<open>allocated_units\<close>.\<close>

definition returnUnused :: "string \<Rightarrow> allocation \<Rightarrow> string \<Rightarrow> int \<Rightarrow> (world, string) tx" where
  "returnUnused ident a status b =
     (if status = ''revoked'' \<and> 0 < b then
        thenE (TransferCurrency (''revoke:'' @ ident) ''return unused allocation'' ''allocation'' ident
                 AllocationAvailable ident GrantUnallocated (a_grant a) (a_currency a) b)
          (bindE (liftE (Amount (a_allocated_units a))) (\<lambda>n. ret (int_str (n - b))))
      else ret (a_allocated_units a))"

definition setAllocationStatus :: "string \<Rightarrow> string \<Rightarrow> (world, unit) tx" where
  "setAllocationStatus ident status =
     (if \<not> oneOf status [''active'', ''paused'', ''revoked'']
      then fail (InvalidInput ''invalid allocation status'')
      else bindE (select_row (find_allocation ident)) (\<lambda>a.
        if a_status a = ''revoked'' then
          (if status = a_status a then ret ()
           else fail (StateConflict ''revoked allocation cannot be reopened''))
        else bindE (BalanceCurrency AllocationAvailable ident (a_currency a)) (\<lambda>b.
          if status = ''active'' \<and> b \<le> 0 then fail (StateConflict ''allocation has no available balance'')
          else bindE (returnUnused ident a status b)
            (\<lambda>allocated.
              thenE (changeInventory ''allocations'' (a_currency a) (a_status a) status)
                (update_allocation ident allocated status)))))"

definition revokeKey :: "string \<Rightarrow> (world, unit) tx" where
  "revokeKey ident = bindE NowMs (\<lambda>now. bindE (gets (\<lambda>s. rows_affected (\<lambda>k. k_id k = ident) (api_keys s)))
     (\<lambda>n. thenE (modify (\<lambda>s. s\<lparr>api_keys := update_rows (\<lambda>k. k_id k = ident)
              (\<lambda>k. k\<lparr>k_revoked := (case k_revoked k of None \<Rightarrow> Some now | Some t \<Rightarrow> Some t)\<rparr>) (api_keys s)\<rparr>))
            (affected n)))"

definition revokeSession :: "string \<Rightarrow> (world, unit) tx" where
  "revokeSession ident = bindE (gets (\<lambda>s. rows_affected (\<lambda>x. s_id x = ident) (sessions s)))
     (\<lambda>n. thenE (modify (\<lambda>s. s\<lparr>sessions := update_rows (\<lambda>x. s_id x = ident)
              (\<lambda>x. x\<lparr>s_status := ''revoked''\<rparr>) (sessions s)\<rparr>))
            (affected n))"

definition SetStatus :: "string \<Rightarrow> string \<Rightarrow> string \<Rightarrow> (world, unit) tx" where
  "SetStatus kind ident status = Write
     (if kind = ''grant'' then setGrantStatus ident status
      else if kind = ''allocation'' then setAllocationStatus ident status
      else if kind = ''api-key'' then revokeKey ident
      else if kind = ''session'' then revokeSession ident
      else fail (PlainError ''unknown resource''))"

subsection \<open>API keys\<close>

record keyRecord =
  kr_id :: string
  kr_name :: string
  kr_prefix :: string
  kr_key :: string
  kr_hash :: string

definition newKeyRecord :: "string \<Rightarrow> (world, keyRecord) tx" where
  "newKeyRecord name =
     bindE ID (\<lambda>ident. bindE rand_read (\<lambda>bytes. case bytes of
       None \<Rightarrow> fail (PlainError ''random source'')
     | Some secret \<Rightarrow>
         let prefix = ''lpg_'' @ ident; key = prefix @ ''_'' @ RawURLEncode secret in
         bindE (gets (\<lambda>s. sha256 s key)) (\<lambda>h.
           ret \<lparr>kr_id = ident, kr_name = name, kr_prefix = prefix, kr_key = key, kr_hash = h\<rparr>)))"

definition insertKey :: "string \<Rightarrow> keyRecord \<Rightarrow> (world, unit) tx" where
  "insertKey allocation r =
     bindE (select_row (find_allocation allocation)) (\<lambda>a.
       if a_status a = ''revoked'' then fail (StateConflict ''allocation is revoked'')
       else bindE NowMs (\<lambda>now.
         insert_api_key \<lparr>k_id = kr_id r, k_allocation = allocation, k_name = kr_name r,
           k_prefix = kr_prefix r, k_secret_hash = kr_hash r, k_created = now,
           k_last_used = None, k_revoked = None\<rparr>))"

definition createKey :: "string \<Rightarrow> string \<Rightarrow> (world, string \<times> string) tx" where
  "createKey allocation name =
     bindE (newKeyRecord name) (\<lambda>r. thenE (insertKey allocation r) (ret (kr_id r, kr_key r)))"

definition CreateKey :: "string \<Rightarrow> string \<Rightarrow> (world, string \<times> string) tx" where
  "CreateKey allocation name =
     (if blank name then fail (InvalidInput ''name is required'') else Write (createKey allocation name))"

definition createKeyForGrant :: "Create \<Rightarrow> (world, string \<times> string \<times> string) tx" where
  "createKeyForGrant p =
     bindE (createAllocation p) (\<lambda>allocation.
       bindE (createKey allocation (c_Name p)) (\<lambda>(ident, key). ret (allocation, ident, key)))"

definition key_request :: "string \<Rightarrow> string \<Rightarrow> string \<Rightarrow> string \<Rightarrow> Create" where
  "key_request grant name amount currency =
     \<lparr>c_Name = name, c_Sponsor = [], c_Beneficiary = [], c_GrantID = grant, c_Amount = amount,
      c_Currency = currency, c_Status = [], c_Metadata = [], c_Starts = None, c_Ends = None\<rparr>"

definition CreateKeyForGrantCurrency ::
  "string \<Rightarrow> string \<Rightarrow> string \<Rightarrow> string \<Rightarrow> (world, string \<times> string \<times> string) tx" where
  "CreateKeyForGrantCurrency grant name amount currency =
     (let p = key_request grant name amount currency in
      bindE (liftE (prepareCreate p)) (\<lambda>_. Write (createKeyForGrant p)))"

section \<open>What a successful operation did\<close>

text \<open>
  One lemma per operation: the row it wrote, the guards it passed, and the summary and ledger
  steps it ran, as runs of those steps.  Every property of the management operations starts here.
\<close>

lemma prepareCreate_Inr: "prepareCreate p = Inr x \<longleftrightarrow> \<not> blank (c_Name p) \<and> window_ok (c_Starts p) (c_Ends p)"
  by (auto simp: prepareCreate_def window_ok_def split: option.splits if_splits)

lemma or_default_simps [simp]: "or_default [] d = d" "v \<noteq> [] \<Longrightarrow> or_default v d = v"
  by (simp_all add: or_default_def)

lemma new_grant_simps [simp]:
  "g_id (new_grant p i n c st now) = i" "g_total_units (new_grant p i n c st now) = int_str n"
  "g_currency (new_grant p i n c st now) = c" "g_status (new_grant p i n c st now) = st"
  "g_name (new_grant p i n c st now) = c_Name p" "g_starts (new_grant p i n c st now) = c_Starts p"
  "g_ends (new_grant p i n c st now) = c_Ends p"
  by (simp_all add: new_grant_def)

lemma new_allocation_simps [simp]:
  "a_id (new_allocation p i n c st now) = i" "a_allocated_units (new_allocation p i n c st now) = int_str n"
  "a_currency (new_allocation p i n c st now) = c" "a_status (new_allocation p i n c st now) = st"
  "a_grant (new_allocation p i n c st now) = c_GrantID p" "a_name (new_allocation p i n c st now) = c_Name p"
  "a_starts (new_allocation p i n c st now) = c_Starts p" "a_ends (new_allocation p i n c st now) = c_Ends p"
  by (simp_all add: new_allocation_def)

lemma createGrant_Inr:
  assumes "createGrant p s = (Inr i, s')"
  obtains cur st n g now s2 where
    "cur = or_default (c_Currency p) ''usd''" "st = or_default (c_Status p) ''draft''"
    "is_currency cur" "oneOf st [''draft'', ''active'', ''paused'']"
    "Amount (c_Amount p) = Inr n" "g = new_grant p i n cur st now" "i \<notin> g_id ` set (grants s)"
    "changeInventory ''grants'' cur [] st (s\<lparr>tick := Suc (Suc (tick s)), grants := grants s @ [g]\<rparr>) = (Inr (), s2)"
    "TransferCurrency (''create:'' @ i) ''grant funding'' ''grant'' i GrantFundingSource i
       GrantUnallocated i cur n s2 = (Inr (), s')"
  using assms that unfolding createGrant_def Let_def insert_grant_def
  by (auto simp: txs)

lemma createAllocation_Inr:
  assumes "createAllocation p s = (Inr i, s')"
  obtains g st n a now s2 where
    "g \<in> set (grants s)" "g_id g = c_GrantID p" "g_status g \<noteq> ''closed''"
    "c_Currency p = [] \<or> c_Currency p = g_currency g"
    "allocationAmount (c_Amount p) (bal s (GrantUnallocated, c_GrantID p, g_currency g)) = Inr n"
    "n \<le> bal s (GrantUnallocated, c_GrantID p, g_currency g)" "is_currency (g_currency g)"
    "oneOf (or_default (c_Status p) ''active'') [''active'', ''paused'']"
    "st = (if or_default (c_Status p) ''active'' = ''active'' \<and> n = 0 then ''exhausted''
           else or_default (c_Status p) ''active'')"
    "a = new_allocation p i n (g_currency g) st now" "i \<notin> a_id ` set (allocations s)" "canonical (int_str n)"
    "changeInventory ''allocations'' (g_currency g) [] st
       (s\<lparr>tick := Suc (Suc (tick s)), allocations := allocations s @ [a]\<rparr>) = (Inr (), s2)"
    "TransferCurrency (''create:'' @ i) ''grant allocation'' ''allocation'' i GrantUnallocated (c_GrantID p)
       AllocationAvailable i (g_currency g) n s2 = (Inr (), s')"
  using assms that unfolding createAllocation_def Let_def insert_allocation_def find_grant_def
  by (auto simp: txs dest!: find_row_Some)

lemma find_grant_Some: "find_grant i s = Some g \<Longrightarrow> g \<in> set (grants s) \<and> g_id g = i"
  by (auto simp: find_grant_def dest: find_row_Some)

lemma find_allocation_Some: "find_allocation i s = Some a \<Longrightarrow> a \<in> set (allocations s) \<and> a_id a = i"
  by (auto simp: find_allocation_def dest: find_row_Some)

lemma fundGrant_Inr:
  assumes "fundGrant i n currency s = (Inr x, s')"
  obtains g total where
    "find_grant i s = Some g" "currency = [] \<or> currency = g_currency g" "g_status g \<noteq> ''closed''"
    "Amount (g_total_units g) = Inr total" "canonical (int_str (total + n))"
    "TransferCurrency (''fund:'' @ RawURLEncode (uuid s (tick s))) ''grant funding'' ''grant'' i
       GrantFundingSource i GrantUnallocated i (g_currency g) n
       (s\<lparr>grants := update_rows (\<lambda>g. g_id g = i) (\<lambda>g. g\<lparr>g_total_units := int_str (total + n)\<rparr>) (grants s),
          tick := Suc (tick s)\<rparr>) = (Inr (), s')"
  using assms that unfolding fundGrant_def update_grant_total_def
  by (auto simp: txs)

lemma fundAllocation_Inr:
  assumes "fundAllocation i value currency s = (Inr x, s')"
  obtains a g n old st s2 s3 where
    "find_allocation i s = Some a" "currency = [] \<or> currency = a_currency a" "a_status a \<noteq> ''revoked''"
    "find_grant (a_grant a) s = Some g" "g_status g \<noteq> ''closed''"
    "allocationAmount value (bal s (GrantUnallocated, a_grant a, a_currency a)) = Inr n" "n \<noteq> 0"
    "n \<le> bal s (GrantUnallocated, a_grant a, a_currency a)" "Amount (a_allocated_units a) = Inr old"
    "TransferCurrency (''fund:'' @ RawURLEncode (uuid s (tick s))) ''allocation funding'' ''allocation'' i
       GrantUnallocated (a_grant a) AllocationAvailable i (a_currency a) n (s\<lparr>tick := Suc (tick s)\<rparr>) = (Inr (), s2)"
    "st = (if a_status a = ''exhausted'' \<and> 0 < bal s2 (AllocationAvailable, i, a_currency a)
           then ''active'' else a_status a)"
    "changeInventory ''allocations'' (a_currency a) (a_status a) st s2 = (Inr (), s3)"
    "canonical (int_str (old + n))"
    "s' = s3\<lparr>allocations := update_rows (\<lambda>a. a_id a = i)
       (\<lambda>a. a\<lparr>a_allocated_units := int_str (old + n), a_status := st\<rparr>) (allocations s3)\<rparr>"
  using assms that unfolding fundAllocation_def Let_def update_allocation_def
  by (auto simp: txs)

lemma setGrantStatus_Inr:
  assumes "setGrantStatus i status s = (Inr x, s')"
  obtains g s2 where
    "oneOf status [''draft'', ''active'', ''paused'', ''closed'']" "find_grant i s = Some g"
    "g_status g = ''closed'' \<longrightarrow> status = ''closed''"
    "changeInventory ''grants'' (g_currency g) (g_status g) status s = (Inr (), s2)"
    "s' = s2\<lparr>grants := update_rows (\<lambda>g. g_id g = i) (\<lambda>g. g\<lparr>g_status := status\<rparr>) (grants s2)\<rparr>"
  using assms that unfolding setGrantStatus_def
  by (auto simp: txs)

text \<open>Setting the status of an allocation: nothing to do, an ordinary change, or the revocation
  that gives the unused money back.\<close>

lemma returnUnused_Inr:
  "returnUnused i a status b s = (Inr v, s') \<longleftrightarrow>
     (if status = ''revoked'' \<and> 0 < b
      then TransferCurrency (''revoke:'' @ i) ''return unused allocation'' ''allocation'' i
             AllocationAvailable i GrantUnallocated (a_grant a) (a_currency a) b s = (Inr (), s') \<and>
           (\<exists>n. Amount (a_allocated_units a) = Inr n \<and> v = int_str (n - b))
      else s' = s \<and> v = a_allocated_units a)"
proof (cases "status = ''revoked'' \<and> 0 < b")
  case True
  then show ?thesis by (simp only: returnUnused_def if_True simp_thms txs ret_simp prod.inject sum.inject) auto
next
  case False
  then show ?thesis by (simp only: returnUnused_def if_False ret_simp prod.inject sum.inject) auto
qed

lemma setAllocationStatus_Inr:
  assumes "setAllocationStatus i status s = (Inr x, s')"
  obtains
    (already) a where "find_allocation i s = Some a" "a_status a = ''revoked''" "status = ''revoked''" "s' = s"
  | (change) a v s2 s3 where
      "oneOf status [''active'', ''paused'', ''revoked'']" "find_allocation i s = Some a"
      "a_status a \<noteq> ''revoked''" "status = ''active'' \<longrightarrow> 0 < bal s (AllocationAvailable, i, a_currency a)"
      "returnUnused i a status (bal s (AllocationAvailable, i, a_currency a)) s = (Inr v, s2)"
      "changeInventory ''allocations'' (a_currency a) (a_status a) status s2 = (Inr (), s3)"
      "canonical v"
      "s' = s3\<lparr>allocations := update_rows (\<lambda>a. a_id a = i)
         (\<lambda>a. a\<lparr>a_allocated_units := v, a_status := status\<rparr>) (allocations s3)\<rparr>"
proof -
  from assms obtain a where st: "oneOf status [''active'', ''paused'', ''revoked'']"
    and a: "find_allocation i s = Some a"
    and run: "(if a_status a = ''revoked'' then
          (if status = a_status a then ret ()
           else fail (StateConflict ''revoked allocation cannot be reopened''))
        else bindE (BalanceCurrency AllocationAvailable i (a_currency a)) (\<lambda>b.
          if status = ''active'' \<and> b \<le> 0 then fail (StateConflict ''allocation has no available balance'')
          else bindE (returnUnused i a status b)
            (\<lambda>allocated.
              thenE (changeInventory ''allocations'' (a_currency a) (a_status a) status)
                (update_allocation i allocated status)))) s = (Inr x, s')"
    unfolding setAllocationStatus_def bindE_Inr guard_Inr select_row_Inr by blast
  show thesis
  proof (cases "a_status a = ''revoked''")
    case True
    from run have "(if status = a_status a then ret ()
        else fail (StateConflict ''revoked allocation cannot be reopened'')) s = (Inr x, s')"
      unfolding if_P [OF True] .
    then have "status = a_status a" "s' = s"
      by (simp_all add: txs)
    with True show thesis by (intro already [OF a]) simp_all
  next
    case False
    from run show thesis
      unfolding if_not_P [OF False]
      by (auto simp: update_allocation_def txs not_le intro!: change [OF st a False])
  qed
qed

lemma newKeyRecord_Inr:
  assumes "newKeyRecord name s = (Inr r, s')"
  obtains secret where
    "r = \<lparr>kr_id = RawURLEncode (uuid s (tick s)), kr_name = name,
       kr_prefix = ''lpg_'' @ RawURLEncode (uuid s (tick s)),
       kr_key = ''lpg_'' @ RawURLEncode (uuid s (tick s)) @ ''_'' @ RawURLEncode secret,
       kr_hash = sha256 s (''lpg_'' @ RawURLEncode (uuid s (tick s)) @ ''_'' @ RawURLEncode secret)\<rparr>"
    "random s (Suc (tick s)) = Some secret" "s' = s\<lparr>tick := Suc (Suc (tick s))\<rparr>"
  using assms that unfolding newKeyRecord_def Let_def
  by (auto simp: txs split: option.splits)

lemma createKey_Inr:
  assumes "createKey allocation name s = (Inr (i, key), s')"
  obtains secret a where
    "i = RawURLEncode (uuid s (tick s))" "random s (Suc (tick s)) = Some secret"
    "key = ''lpg_'' @ i @ ''_'' @ RawURLEncode secret"
    "find_allocation allocation s = Some a" "a_status a \<noteq> ''revoked''"
    "i \<notin> k_id ` set (api_keys s)" "sha256 s key \<notin> k_secret_hash ` set (api_keys s)" "length (sha256 s key) = 32"
    "s' = s\<lparr>tick := Suc (Suc (Suc (tick s))), api_keys := api_keys s @
       [\<lparr>k_id = i, k_allocation = allocation, k_name = name, k_prefix = ''lpg_'' @ i,
         k_secret_hash = sha256 s key, k_created = clock s (Suc (Suc (tick s))),
         k_last_used = None, k_revoked = None\<rparr>]\<rparr>"
proof -
  from assms obtain r s1 where r: "newKeyRecord name s = (Inr r, s1)"
    and k: "insertKey allocation r s1 = (Inr (), s')" "i = kr_id r" "key = kr_key r"
    by (auto simp: createKey_def txs)
  from r obtain secret where secret: "random s (Suc (tick s)) = Some secret"
    and r': "r = \<lparr>kr_id = RawURLEncode (uuid s (tick s)), kr_name = name,
       kr_prefix = ''lpg_'' @ RawURLEncode (uuid s (tick s)),
       kr_key = ''lpg_'' @ RawURLEncode (uuid s (tick s)) @ ''_'' @ RawURLEncode secret,
       kr_hash = sha256 s (''lpg_'' @ RawURLEncode (uuid s (tick s)) @ ''_'' @ RawURLEncode secret)\<rparr>"
    and s1: "s1 = s\<lparr>tick := Suc (Suc (tick s))\<rparr>"
    by (rule newKeyRecord_Inr)
  from k(1) obtain a where a: "find_allocation allocation s = Some a" "a_status a \<noteq> ''revoked''"
    by (auto simp: insertKey_def txs s1 find_allocation_def)
  have ik: "i = RawURLEncode (uuid s (tick s))" "key = ''lpg_'' @ i @ ''_'' @ RawURLEncode secret"
    using k(2,3) by (simp_all add: r')
  from k(1) secret a show thesis
    by (intro that [OF ik(1) secret ik(2) a])
      (simp_all add: insertKey_def insert_api_key_def txs find_allocation_def s1 r' ik)
qed

section \<open>A sample run\<close>

definition sample_request :: Create where
  "sample_request = \<lparr>c_Name = ''grant'', c_Sponsor = [], c_Beneficiary = [], c_GrantID = [],
     c_Amount = ''1000'', c_Currency = ''eth'', c_Status = ''active'', c_Metadata = [],
     c_Starts = None, c_Ends = None\<rparr>"

end
