(* ===== verification/Funds.thy ===== *)
theory Funds
  imports Manage
begin

text \<open>
  Conservation of funds: what a grant has been given is, at every moment, what it still holds
  plus what its allocations have been given, and what an allocation has been given is what it can
  still spend plus what it has spent.  The invariant is stated on the rows and the balances
  (\<open>funds\<close>) so that the operations of \<open>Manage\<close> and the charges of the ingestion
  preserve it by one lemma per movement of money.
\<close>

section \<open>The invariant\<close>

type_synonym balances = "account \<times> string \<times> string \<Rightarrow> int"

definition total_allocated :: "allocation list \<Rightarrow> string \<Rightarrow> int" where
  "total_allocated as gid = (\<Sum>a\<leftarrow>as. if a_grant a = gid then units_val (a_allocated_units a) else 0)"

definition grant_account :: "grant list \<Rightarrow> string \<Rightarrow> string \<Rightarrow> bool" where
  "grant_account gs i cur \<longleftrightarrow> (\<exists>g \<in> set gs. g_id g = i \<and> g_currency g = cur)"

definition allocation_account :: "allocation list \<Rightarrow> string \<Rightarrow> string \<Rightarrow> bool" where
  "allocation_account as i cur \<longleftrightarrow> (\<exists>a \<in> set as. a_id a = i \<and> a_currency a = cur)"

definition grant_funds :: "allocation list \<Rightarrow> balances \<Rightarrow> grant \<Rightarrow> bool" where
  "grant_funds as b g \<longleftrightarrow> canonical (g_total_units g) \<and>
     0 \<le> b (GrantUnallocated, g_id g, g_currency g) \<and>
     b (GrantFundingSource, g_id g, g_currency g) = - units_val (g_total_units g) \<and>
     units_val (g_total_units g) = b (GrantUnallocated, g_id g, g_currency g) + total_allocated as (g_id g)"

definition allocation_funds :: "balances \<Rightarrow> allocation \<Rightarrow> bool" where
  "allocation_funds b a \<longleftrightarrow> canonical (a_allocated_units a) \<and>
     0 \<le> b (AllocationSpent, a_id a, a_currency a) \<and>
     units_val (a_allocated_units a) =
       b (AllocationAvailable, a_id a, a_currency a) + b (AllocationSpent, a_id a, a_currency a)"

definition no_stray :: "grant list \<Rightarrow> allocation list \<Rightarrow> balances \<Rightarrow> bool" where
  "no_stray gs as b \<longleftrightarrow>
     (\<forall>i cur. \<not> grant_account gs i cur \<longrightarrow>
        b (GrantUnallocated, i, cur) = 0 \<and> b (GrantFundingSource, i, cur) = 0) \<and>
     (\<forall>i cur. \<not> allocation_account as i cur \<longrightarrow>
        b (AllocationAvailable, i, cur) = 0 \<and> b (AllocationSpent, i, cur) = 0)"

definition funds :: "grant list \<Rightarrow> allocation list \<Rightarrow> balances \<Rightarrow> bool" where
  "funds gs as b \<longleftrightarrow>
     distinct (map g_id gs) \<and> distinct (map a_id as) \<and>
     (\<forall>a \<in> set as. grant_account gs (a_grant a) (a_currency a)) \<and>
     (\<forall>g \<in> set gs. grant_funds as b g) \<and> (\<forall>a \<in> set as. allocation_funds b a) \<and>
     no_stray gs as b"

definition funds_ok :: "world \<Rightarrow> bool" where
  "funds_ok s \<longleftrightarrow> funds (grants s) (allocations s) (bal s)"

definition move :: "account \<times> string \<times> string \<Rightarrow> account \<times> string \<times> string \<Rightarrow> int \<Rightarrow> balances \<Rightarrow> balances" where
  "move d c n b k = b k + (if k = c then n else 0) - (if k = d then n else 0)"

lemma TransferCurrency_move:
  "TransferCurrency key rsn rt ri d di c ci cur n s = (Inr x, s') \<Longrightarrow> bal s' = move (d, di, cur) (c, ci, cur) n (bal s)"
  by (rule ext) (simp add: move_def TransferCurrency_bal)

section \<open>Rows\<close>

lemma units_val_nonneg: "canonical v \<Longrightarrow> 0 \<le> units_val v"
  using canonical_iff_nat_str [of v] by (auto simp: units_val_def)

lemma total_allocated_append [simp]:
  "total_allocated (as @ [a]) i = total_allocated as i + (if a_grant a = i then units_val (a_allocated_units a) else 0)"
  by (simp add: total_allocated_def)

lemma total_allocated_none: "\<forall>a \<in> set as. a_grant a \<noteq> i \<Longrightarrow> total_allocated as i = 0"
  by (induction as) (auto simp: total_allocated_def)

lemma distinct_id:
  "distinct (map f xs) \<Longrightarrow> x \<in> set xs \<Longrightarrow> y \<in> set xs \<Longrightarrow> f x = f y \<Longrightarrow> x = y"
  by (auto simp: distinct_map inj_on_def)

lemma total_allocated_update:
  assumes "distinct (map a_id as)" "a \<in> set as" "\<And>r. a_grant (f r) = a_grant r"
  shows "total_allocated (update_rows (\<lambda>r. a_id r = a_id a) f as) i =
    total_allocated as i + (if a_grant a = i then units_val (a_allocated_units (f a)) - units_val (a_allocated_units a) else 0)"
  unfolding total_allocated_def
  using sum_update_rows [OF assms(1,2), of "\<lambda>x. if a_grant x = i then units_val (a_allocated_units x) else 0" f]
  by (simp add: assms(3))

lemma in_update_rows:
  "r \<in> set (update_rows P f xs) \<Longrightarrow> \<exists>x \<in> set xs. r = (if P x then f x else x)"
  by (auto simp: set_update_rows)

lemma image_update_rows: "(\<And>r. g (f r) = g r) \<Longrightarrow> g ` set (update_rows P f rows) = g ` set rows"
  using map_update_rows [of g f P rows] by (metis set_map)

lemma grant_account_update:
  assumes "\<And>g. g_id (f g) = g_id g" "\<And>g. g_currency (f g) = g_currency g"
  shows "grant_account (update_rows P f gs) i cur = grant_account gs i cur"
proof -
  have *: "grant_account gs i cur \<longleftrightarrow> (i, cur) \<in> (\<lambda>g. (g_id g, g_currency g)) ` set gs" for gs
    by (auto simp: grant_account_def)
  show ?thesis unfolding * by (subst image_update_rows) (simp_all add: assms)
qed

lemma allocation_account_update:
  assumes "\<And>a. a_id (f a) = a_id a" "\<And>a. a_currency (f a) = a_currency a"
  shows "allocation_account (update_rows P f as) i cur = allocation_account as i cur"
proof -
  have *: "allocation_account as i cur \<longleftrightarrow> (i, cur) \<in> (\<lambda>a. (a_id a, a_currency a)) ` set as" for as
    by (auto simp: allocation_account_def)
  show ?thesis unfolding * by (subst image_update_rows) (simp_all add: assms)
qed

lemma grant_account_append [simp]:
  "grant_account (gs @ [g]) i cur \<longleftrightarrow> grant_account gs i cur \<or> g_id g = i \<and> g_currency g = cur"
  by (auto simp: grant_account_def)

lemma allocation_account_append [simp]:
  "allocation_account (as @ [a]) i cur \<longleftrightarrow> allocation_account as i cur \<or> a_id a = i \<and> a_currency a = cur"
  by (auto simp: allocation_account_def)

lemma grant_account_id: "grant_account gs i cur \<Longrightarrow> i \<in> g_id ` set gs"
  by (auto simp: grant_account_def)

lemma allocation_account_id: "allocation_account as i cur \<Longrightarrow> i \<in> a_id ` set as"
  by (auto simp: allocation_account_def)

lemma fresh_grant_account: "i \<notin> g_id ` set gs \<Longrightarrow> \<not> grant_account gs i cur"
  by (auto simp: grant_account_def)

lemma fresh_allocation_account: "i \<notin> a_id ` set as \<Longrightarrow> \<not> allocation_account as i cur"
  by (auto simp: allocation_account_def)

lemma funds_uniq:
  "funds gs as b \<Longrightarrow> g \<in> set gs \<Longrightarrow> g' \<in> set gs \<Longrightarrow> g_id g' = g_id g \<Longrightarrow> g' = g"
  "funds gs as b \<Longrightarrow> a \<in> set as \<Longrightarrow> a' \<in> set as \<Longrightarrow> a_id a' = a_id a \<Longrightarrow> a' = a"
  by (auto simp: funds_def intro: distinct_id)

lemma funds_currency:
  assumes "funds gs as b" "grant_account gs i cur" "x \<in> set gs" "g_id x = i"
  shows "g_currency x = cur"
  using assms funds_uniq(1) [OF assms(1)] unfolding grant_account_def by metis

lemma funds_accounts:
  "funds gs as b \<Longrightarrow> a \<in> set as \<Longrightarrow> grant_account gs (a_grant a) (a_currency a)"
  "g \<in> set gs \<Longrightarrow> grant_account gs (g_id g) (g_currency g)"
  "a \<in> set as \<Longrightarrow> allocation_account as (a_id a) (a_currency a)"
  by (auto simp: funds_def grant_account_def allocation_account_def)

lemma funds_stray:
  "funds gs as b \<Longrightarrow> \<not> grant_account gs i cur \<Longrightarrow> b (GrantUnallocated, i, cur) = 0"
  "funds gs as b \<Longrightarrow> \<not> grant_account gs i cur \<Longrightarrow> b (GrantFundingSource, i, cur) = 0"
  "funds gs as b \<Longrightarrow> \<not> allocation_account as i cur \<Longrightarrow> b (AllocationAvailable, i, cur) = 0"
  "funds gs as b \<Longrightarrow> \<not> allocation_account as i cur \<Longrightarrow> b (AllocationSpent, i, cur) = 0"
  by (auto simp: funds_def no_stray_def)

section \<open>One lemma per movement\<close>

lemma funds_new_grant:
  assumes f: "funds gs as b" and fresh: "g_id g \<notin> g_id ` set gs"
    and g: "canonical (g_total_units g)" "units_val (g_total_units g) = n" "0 \<le> n"
  shows "funds (gs @ [g]) as
    (move (GrantFundingSource, g_id g, g_currency g) (GrantUnallocated, g_id g, g_currency g) n b)"
proof -
  have none: "total_allocated as (g_id g) = 0"
    using fresh funds_accounts(1) [OF f] by (intro total_allocated_none) (force dest: grant_account_id)
  have zero: "b (GrantUnallocated, g_id g, cur) = 0 \<and> b (GrantFundingSource, g_id g, cur) = 0" for cur
    using funds_stray [OF f] fresh_grant_account [OF fresh] by simp
  have ne: "x \<in> set gs \<Longrightarrow> g_id x \<noteq> g_id g" for x using fresh by (metis image_eqI)
  show ?thesis
    using f fresh g none zero
    by (auto dest: ne simp: funds_def grant_funds_def allocation_funds_def no_stray_def move_def)
qed

lemma funds_new_allocation:
  assumes f: "funds gs as b" and fresh: "a_id a \<notin> a_id ` set as"
    and g: "grant_account gs (a_grant a) (a_currency a)"
    and n: "canonical (a_allocated_units a)" "units_val (a_allocated_units a) = n" "0 \<le> n"
      "n \<le> b (GrantUnallocated, a_grant a, a_currency a)"
  shows "funds gs (as @ [a])
    (move (GrantUnallocated, a_grant a, a_currency a) (AllocationAvailable, a_id a, a_currency a) n b)"
proof -
  have zero: "b (AllocationAvailable, a_id a, cur) = 0 \<and> b (AllocationSpent, a_id a, cur) = 0" for cur
    using funds_stray [OF f] fresh_allocation_account [OF fresh] by simp
  have cur: "g_currency x = a_currency a" if "x \<in> set gs" "g_id x = a_grant a" for x
    using that by (rule funds_currency [OF f g])
  have ne: "x \<in> set as \<Longrightarrow> a_id x \<noteq> a_id a" for x using fresh by (metis image_eqI)
  show ?thesis
    using f fresh g n zero
    by (auto dest: ne simp: funds_def grant_funds_def allocation_funds_def no_stray_def move_def cur)
qed

lemma funds_update_grant:
  assumes f: "funds gs as b" and g: "g \<in> set gs"
    and n: "canonical v" "units_val v = units_val (g_total_units g) + n" "0 \<le> n"
  shows "funds (update_rows (\<lambda>r. g_id r = g_id g) (\<lambda>r. r\<lparr>g_total_units := v\<rparr>) gs) as
    (move (GrantFundingSource, g_id g, g_currency g) (GrantUnallocated, g_id g, g_currency g) n b)"
proof -
  let ?gs = "update_rows (\<lambda>r. g_id r = g_id g) (\<lambda>r. r\<lparr>g_total_units := v\<rparr>) gs"
  let ?b = "move (GrantFundingSource, g_id g, g_currency g) (GrantUnallocated, g_id g, g_currency g) n b"
  have acc: "grant_account ?gs i cur = grant_account gs i cur" for i cur
    by (rule grant_account_update) simp_all
  have "grant_funds as ?b r" if r: "r \<in> set ?gs" for r
  proof -
    from in_update_rows [OF r] obtain x where x: "x \<in> set gs"
      "r = (if g_id x = g_id g then x\<lparr>g_total_units := v\<rparr> else x)" by blast
    show ?thesis
    proof (cases "g_id x = g_id g")
      case True
      then have "x = g" using funds_uniq(1) [OF f g x(1)] by simp
      then show ?thesis using x f g n by (auto simp: grant_funds_def funds_def move_def)
    next
      case False
      then show ?thesis using x f by (auto simp: grant_funds_def funds_def move_def)
    qed
  qed
  moreover have "no_stray ?gs as ?b"
    using f funds_accounts(2) [OF g] by (auto simp: funds_def no_stray_def move_def acc)
  ultimately show ?thesis
    using f by (auto simp: funds_def allocation_funds_def move_def acc map_update_rows)
qed

lemma funds_update_allocation:
  assumes f: "funds gs as b" and a: "a \<in> set as" and d: "d = (GrantUnallocated, a_grant a, a_currency a)"
    and v: "canonical v" "units_val v = units_val (a_allocated_units a) + n" "n \<le> b d"
    and b': "b' = move d (AllocationAvailable, a_id a, a_currency a) n b"
  shows "funds gs (update_rows (\<lambda>r. a_id r = a_id a) (\<lambda>r. r\<lparr>a_allocated_units := v, a_status := st\<rparr>) as) b'"
proof -
  have uniq: "x = a" if "x \<in> set as" "a_id x = a_id a" for x
    using funds_uniq(2) [OF f a that] .
  have cur: "g_currency x = a_currency a" if "x \<in> set gs" "g_id x = a_grant a" for x
    using that by (rule funds_currency [OF f funds_accounts(1) [OF f a]])
  have ga: "grant_account gs (a_grant a) (a_currency a)" using f a by (auto simp: funds_def)
  have aa: "allocation_account as (a_id a) (a_currency a)" using a by (auto simp: allocation_account_def)
  have tot: "total_allocated (update_rows (\<lambda>r. a_id r = a_id a)
      (\<lambda>r. r\<lparr>a_allocated_units := v, a_status := st\<rparr>) as) i =
      total_allocated as i + (if a_grant a = i then n else 0)" for i
    using f a v by (subst total_allocated_update) (auto simp: funds_def)
  have rows: "allocation_funds b' r"
    if r: "r \<in> set (update_rows (\<lambda>r. a_id r = a_id a) (\<lambda>r. r\<lparr>a_allocated_units := v, a_status := st\<rparr>) as)" for r
  proof -
    from in_update_rows [OF r] obtain x where x: "x \<in> set as"
      "r = (if a_id x = a_id a then x\<lparr>a_allocated_units := v, a_status := st\<rparr> else x)" by blast
    show ?thesis
    proof (cases "a_id x = a_id a")
      case True
      then have "x = a" using uniq x by blast
      then show ?thesis using x f a v unfolding b' d by (auto simp: allocation_funds_def funds_def move_def)
    next
      case False
      then show ?thesis using x f unfolding b' d by (auto simp: allocation_funds_def funds_def move_def)
    qed
  qed
  have gr: "grant_funds (update_rows (\<lambda>r. a_id r = a_id a) (\<lambda>r. r\<lparr>a_allocated_units := v, a_status := st\<rparr>) as) b' g"
    if "g \<in> set gs" for g
    using that f v cur unfolding b' d
    by (auto simp: funds_def grant_funds_def move_def tot)
  have stray: "no_stray gs (update_rows (\<lambda>r. a_id r = a_id a) (\<lambda>r. r\<lparr>a_allocated_units := v, a_status := st\<rparr>) as) b'"
    using f ga aa unfolding b' d
    by (auto simp: funds_def no_stray_def move_def allocation_account_update)
  have acc: "grant_account gs (a_grant r) (a_currency r)"
    if "r \<in> set (update_rows (\<lambda>r. a_id r = a_id a) (\<lambda>r. r\<lparr>a_allocated_units := v, a_status := st\<rparr>) as)" for r
    using that f by (auto simp: funds_def dest!: in_update_rows)
  show ?thesis
    using f rows gr stray acc by (auto simp: funds_def map_update_rows)
qed

lemma move_zero [simp]: "move d c 0 b = b"
  by (rule ext) (simp add: move_def)

lemma move_flip: "move d c n b = move c d (- n) b"
  by (rule ext) (simp add: move_def)

lemma funds_spend:
  assumes f: "funds gs as b" and a: "allocation_account as i cur" and n: "0 \<le> n"
  shows "funds gs as (move (AllocationAvailable, i, cur) (AllocationSpent, i, cur) n b)"
  using f a n
  by (auto simp: funds_def grant_funds_def allocation_funds_def no_stray_def move_def)

lemma funds_status:
  assumes f: "funds gs as b"
    and g: "\<And>r. g_id (h r) = g_id r \<and> g_currency (h r) = g_currency r \<and> g_total_units (h r) = g_total_units r"
  shows "funds (update_rows P h gs) as b"
  using f
  by (auto simp: funds_def grant_funds_def no_stray_def grant_account_update map_update_rows g dest!: in_update_rows)

lemma total_allocated_same:
  "(\<And>r. a_grant (h r) = a_grant r \<and> a_allocated_units (h r) = a_allocated_units r) \<Longrightarrow>
   total_allocated (update_rows P h as) i = total_allocated as i"
  by (auto simp: total_allocated_def update_rows_def intro!: arg_cong [where f = sum_list])

lemma funds_allocation_status:
  assumes f: "funds gs as b"
    and h: "\<And>r. a_id (h r) = a_id r \<and> a_grant (h r) = a_grant r \<and> a_currency (h r) = a_currency r \<and>
      a_allocated_units (h r) = a_allocated_units r"
  shows "funds gs (update_rows P h as) b"
  using f
  by (auto simp: funds_def grant_funds_def allocation_funds_def no_stray_def allocation_account_update
      map_update_rows h total_allocated_same [OF conjI] dest!: in_update_rows)

lemma funds_ok_cong:
  "grants s' = grants s \<Longrightarrow> allocations s' = allocations s \<Longrightarrow> account_balances s' = account_balances s \<Longrightarrow>
   funds_ok s \<Longrightarrow> funds_ok s'"
  by (simp add: funds_ok_def bal_def [abs_def])

section \<open>The management operations\<close>

lemma changeInventory_fields:
  "changeInventory kind cur old new s = (Inr x, s') \<Longrightarrow>
   grants s' = grants s \<and> allocations s' = allocations s \<and> account_balances s' = account_balances s \<and>
   bal s' = bal s \<and> (ledger_ok s \<longrightarrow> ledger_ok s')"
  by (drule changeInventory_frame)
    (auto dest: nonmetric_fields nonledger_fields ledger_ok_frame intro!: ext bal_cong)

lemma TransferCurrency_fields:
  "TransferCurrency key rsn rt ri d di c ci cur n s = (Inr x, s') \<Longrightarrow>
   grants s' = grants s \<and> allocations s' = allocations s \<and> bal s' = move (d, di, cur) (c, ci, cur) n (bal s) \<and>
   (ledger_ok s \<longrightarrow> ledger_ok s')"
  by (auto dest: TransferCurrency_basic nonledger_fields TransferCurrency_move TransferCurrency_ledger_ok)

lemma ledger_ok_rows [simp]:
  "ledger_ok (s\<lparr>tick := t\<rparr>) = ledger_ok s" "ledger_ok (s\<lparr>grants := g\<rparr>) = ledger_ok s"
  "ledger_ok (s\<lparr>allocations := a\<rparr>) = ledger_ok s" "ledger_ok (s\<lparr>api_keys := k\<rparr>) = ledger_ok s"
  "ledger_ok (s\<lparr>sessions := p\<rparr>) = ledger_ok s"
  by (simp_all add: ledger_ok_def bal_def net_def)

lemma bal_rows [simp]:
  "bal (s\<lparr>tick := t\<rparr>) = bal s" "bal (s\<lparr>grants := g\<rparr>) = bal s"
  "bal (s\<lparr>allocations := a\<rparr>) = bal s" "bal (s\<lparr>api_keys := k\<rparr>) = bal s"
  "bal (s\<lparr>sessions := p\<rparr>) = bal s"
  by (simp_all add: bal_def [abs_def])

text \<open>Both ledger invariants together.\<close>

definition accounts_ok :: "world \<Rightarrow> bool" where
  "accounts_ok s \<longleftrightarrow> ledger_ok s \<and> funds (grants s) (allocations s) (bal s)"

lemma createGrant_accounts:
  assumes "createGrant p s = (Inr i, s')" "accounts_ok s"
  shows "accounts_ok s'"
  using assms(1)
proof (cases rule: createGrant_Inr)
  case (1 cur st n g now s2)
  have "funds (grants s @ [g]) (allocations s)
      (move (GrantFundingSource, g_id g, g_currency g) (GrantUnallocated, g_id g, g_currency g) n (bal s))"
    using assms(2) 1(6,7) Amount_text [OF 1(5)] unfolding accounts_ok_def
    by (intro funds_new_grant) auto
  then show ?thesis
    using assms(2) 1(6) changeInventory_fields [OF 1(8)] TransferCurrency_fields [OF 1(9)]
    by (simp add: accounts_ok_def)
qed

lemma createAllocation_accounts:
  assumes "createAllocation p s = (Inr i, s')" "accounts_ok s"
  shows "accounts_ok s'"
  using assms(1)
proof (cases rule: createAllocation_Inr)
  case (1 g st n a now s2)
  have "funds (grants s) (allocations s @ [a])
      (move (GrantUnallocated, a_grant a, a_currency a) (AllocationAvailable, a_id a, a_currency a) n (bal s))"
    using assms(2) 1(1,2,6,10-12) units_val_nonneg [OF 1(12)] unfolding accounts_ok_def
    by (intro funds_new_allocation) (auto simp: grant_account_def)
  then show ?thesis
    using assms(2) 1(10) changeInventory_fields [OF 1(13)] TransferCurrency_fields [OF 1(14)]
    by (simp add: accounts_ok_def)
qed

lemma fundGrant_accounts:
  assumes "fundGrant i n currency s = (Inr x, s')" "0 \<le> n" "accounts_ok s"
  shows "accounts_ok s'"
  using assms(1)
proof (cases rule: fundGrant_Inr)
  case (1 g total)
  note g' = find_grant_Some [OF 1(1)]
  have "funds (update_rows (\<lambda>r. g_id r = g_id g) (\<lambda>r. r\<lparr>g_total_units := int_str (total + n)\<rparr>) (grants s)) (allocations s)
      (move (GrantFundingSource, g_id g, g_currency g) (GrantUnallocated, g_id g, g_currency g) n (bal s))"
    using assms(2,3) g' 1(5) Amount_text [OF 1(4)] unfolding accounts_ok_def
    by (intro funds_update_grant) auto
  then show ?thesis
    using assms(3) g' TransferCurrency_fields [OF 1(6)] by (simp add: accounts_ok_def)
qed

lemma fundAllocation_accounts:
  assumes "fundAllocation i value currency s = (Inr x, s')" "accounts_ok s"
  shows "accounts_ok s'"
  using assms(1)
proof (cases rule: fundAllocation_Inr)
  case (1 a g n old st s2 s3)
  note a' = find_allocation_Some [OF 1(1)]
  have "funds (grants s) (update_rows (\<lambda>r. a_id r = a_id a)
       (\<lambda>r. r\<lparr>a_allocated_units := int_str (old + n), a_status := st\<rparr>) (allocations s))
     (move (GrantUnallocated, a_grant a, a_currency a) (AllocationAvailable, a_id a, a_currency a) n (bal s))"
    using assms(2) a' 1(8,13) Amount_text [OF 1(9)] unfolding accounts_ok_def
    by (intro funds_update_allocation [OF _ _ refl _ _ _ refl]) auto
  then show ?thesis
    using assms(2) a' changeInventory_fields [OF 1(12)] TransferCurrency_fields [OF 1(10)]
    by (simp add: accounts_ok_def 1(14))
qed

lemma setGrantStatus_accounts:
  assumes "setGrantStatus i status s = (Inr x, s')" "accounts_ok s"
  shows "accounts_ok s'"
  using assms(1)
proof (cases rule: setGrantStatus_Inr)
  case (1 g s2)
  have "funds (update_rows (\<lambda>g. g_id g = i) (\<lambda>g. g\<lparr>g_status := status\<rparr>) (grants s)) (allocations s) (bal s)"
    using assms(2) by (intro funds_status) (auto simp: accounts_ok_def)
  then show ?thesis
    using assms(2) changeInventory_fields [OF 1(4)] by (simp add: accounts_ok_def 1(5))
qed

lemma funds_grant_nonneg:
  assumes "funds gs as b" "a \<in> set as"
  shows "0 \<le> b (GrantUnallocated, a_grant a, a_currency a)"
proof -
  obtain g where "g \<in> set gs" "g_id g = a_grant a" "g_currency g = a_currency a"
    using funds_accounts(1) [OF assms] by (auto simp: grant_account_def)
  then show ?thesis using assms(1) by (auto simp: funds_def grant_funds_def)
qed

text \<open>A return of \<open>b\<close> is an allocation of \<open>- b\<close>.\<close>

lemma returnUnused_fields:
  assumes "returnUnused (a_id a) a status b s = (Inr v, s2)" and "ledger_ok s" and "canonical (a_allocated_units a)"
  shows "\<exists>n. n \<le> 0 \<and> grants s2 = grants s \<and> allocations s2 = allocations s \<and> ledger_ok s2 \<and>
    bal s2 = move (GrantUnallocated, a_grant a, a_currency a) (AllocationAvailable, a_id a, a_currency a) n (bal s) \<and>
    units_val v = units_val (a_allocated_units a) + n"
proof (cases "status = ''revoked'' \<and> 0 < b")
  case True
  from assms(1) obtain n where
    t: "TransferCurrency (''revoke:'' @ a_id a) ''return unused allocation'' ''allocation'' (a_id a)
      AllocationAvailable (a_id a) GrantUnallocated (a_grant a) (a_currency a) b s = (Inr (), s2)"
    and n: "Amount (a_allocated_units a) = Inr n" "v = int_str (n - b)"
    unfolding returnUnused_Inr if_P [OF True] by blast
  show ?thesis
    using True TransferCurrency_fields [OF t] assms(2) Amount_text [OF n(1)] n(2)
    by (intro exI [of _ "- b"]) (simp add: move_flip [of "(AllocationAvailable, a_id a, a_currency a)"])
next
  case False
  from assms(1) have "s2 = s \<and> v = a_allocated_units a" unfolding returnUnused_Inr if_not_P [OF False] .
  then show ?thesis using assms(2) by (intro exI [of _ 0]) simp
qed

lemma setAllocationStatus_accounts:
  assumes "setAllocationStatus i status s = (Inr x, s')" "accounts_ok s"
  shows "accounts_ok s'"
  using assms(1)
proof (cases rule: setAllocationStatus_Inr)
  case (already a)
  then show ?thesis using assms(2) by simp
next
  case (change a v s2 s3)
  note a' = find_allocation_Some [OF change(2)] and inv = changeInventory_fields [OF change(6)]
  have f: "funds (grants s) (allocations s) (bal s)" and led: "ledger_ok s"
    using assms(2) by (simp_all add: accounts_ok_def)
  have c: "canonical (a_allocated_units a)" using f a' by (auto simp: funds_def allocation_funds_def)
  obtain n where n: "n \<le> 0" and s2: "grants s2 = grants s" "allocations s2 = allocations s" "ledger_ok s2"
      "bal s2 = move (GrantUnallocated, a_grant a, a_currency a) (AllocationAvailable, a_id a, a_currency a) n (bal s)"
      "units_val v = units_val (a_allocated_units a) + n"
    using returnUnused_fields [OF _ led c] change(5) a' by metis
  have "n \<le> bal s (GrantUnallocated, a_grant a, a_currency a)" using funds_grant_nonneg [OF f] a' n by fastforce
  then have "funds (grants s) (update_rows (\<lambda>r. a_id r = a_id a)
      (\<lambda>r. r\<lparr>a_allocated_units := v, a_status := status\<rparr>) (allocations s)) (bal s2)"
    using f a' change(7) s2 by (intro funds_update_allocation [OF _ _ refl]) auto
  then show ?thesis
    using inv a' s2 by (simp add: accounts_ok_def change(8))
qed

lemma migrated_accounts: "accounts_ok (migrated u c r h)"
  using migrated_ledger_ok [of u c r h]
  by (simp add: accounts_ok_def funds_def no_stray_def migrated_def bal_def tget_def)

section \<open>The sample database\<close>

lemma sample_units:
  "units_val ''-1000'' = - 1000" "units_val ''400'' = 400" "units_val ''600'' = 600" "units_val ''1000'' = 1000"
  by code_simp+

lemma sample_bal:
  "bal sample_ready (x, i, c) =
    (if c \<noteq> ''eth'' then 0
     else if x = GrantFundingSource \<and> i = sample_grant_id then - 1000
     else if x = GrantUnallocated \<and> i = sample_grant_id then 400
     else if x = AllocationAvailable \<and> i = sample_allocation_id then 600 else 0)"
  by (simp add: bal_def sample_ready_def tget_def sample_units sample_grant_id_def sample_allocation_id_def)

lemma sample_entries: "entry_sum (ledger_entries sample_ready) (x, i, c) = bal sample_ready (x, i, c)"
  unfolding sample_bal
  by (cases x; simp add: sample_ready_def entry_key_def signed_amount_def sample_units sample_grant_id_def sample_allocation_id_def; auto)

lemma sample_ready_ledger: "ledger_ok sample_ready"
  unfolding ledger_ok_def
proof (intro conjI)
  show "\<forall>k. bal sample_ready k = entry_sum (ledger_entries sample_ready) k"
    by (simp add: sample_entries split_paired_all)
  show "\<forall>cur. net sample_ready cur = 0"
    by (auto simp: net_def sample_ready_def sample_units)
  show "\<forall>kv\<in>set (account_balances sample_ready). \<exists>n. snd kv = int_str n"
  proof -
    have "''-1000'' = int_str (-1000)" "''400'' = int_str 400" "''600'' = int_str 600" by code_simp+
    then show ?thesis unfolding sample_ready_def by auto
  qed
qed (code_simp+)
lemma sample_ready_accounts: "accounts_ok sample_ready"
  using sample_ready_ledger
  by (simp add: accounts_ok_def funds_def no_stray_def grant_funds_def allocation_funds_def sample_bal
      grant_account_def allocation_account_def total_allocated_def)
    (auto simp: sample_ready_def  sample_grant_id_def sample_allocation_id_def sample_units canonical_def all_digits_def is_digit_def code_def)
section \<open>Properties\<close>

lemma find_grant_mem: "funds (grants s) as b \<Longrightarrow> g \<in> set (grants s) \<Longrightarrow> find_grant (g_id g) s = Some g"
proof -
  assume f: "funds (grants s) as b" and g: "g \<in> set (grants s)"
  then obtain g' where "find_grant (g_id g) s = Some g'"
    by (cases "find_grant (g_id g) s") (auto simp: find_grant_def find_row_None)
  with find_grant_Some [OF this] funds_uniq(1) [OF f g] show ?thesis by simp
qed

lemma find_allocation_mem: "funds gs (allocations s) b \<Longrightarrow> a \<in> set (allocations s) \<Longrightarrow> find_allocation (a_id a) s = Some a"
proof -
  assume f: "funds gs (allocations s) b" and a: "a \<in> set (allocations s)"
  then obtain a' where "find_allocation (a_id a) s = Some a'"
    by (cases "find_allocation (a_id a) s") (auto simp: find_allocation_def find_row_None)
  with find_allocation_Some [OF this] funds_uniq(2) [OF f a] show ?thesis by simp
qed

lemma accounts_okD:
  "accounts_ok s \<Longrightarrow> ledger_ok s" "accounts_ok s \<Longrightarrow> funds (grants s) (allocations s) (bal s)"
  by (simp_all add: accounts_ok_def)

text \<open>
  C5: a grant is never over-allocated: a successful \<open>createAllocation\<close> takes an amount between zero
  and the grant's unallocated balance, moves exactly that from the grant to the new allocation,
  which did not exist and starts with nothing spent, and leaves the grant's balance nonnegative.
\<close>

theorem createAllocation_within_balance:
  assumes "createAllocation p s = (Inr i, s')" and "accounts_ok s"
  shows "\<exists>a n. a \<in> set (allocations s') \<and> a_id a = i \<and> i \<notin> a_id ` set (allocations s) \<and>
    a_grant a = c_GrantID p \<and> a_allocated_units a = int_str n \<and>
    0 \<le> n \<and> n \<le> bal s (GrantUnallocated, c_GrantID p, a_currency a) \<and>
    bal s' (GrantUnallocated, c_GrantID p, a_currency a) = bal s (GrantUnallocated, c_GrantID p, a_currency a) - n \<and>
    bal s' (AllocationAvailable, i, a_currency a) = n \<and> bal s' (AllocationSpent, i, a_currency a) = 0 \<and>
    (a_status a = ''exhausted'' \<longleftrightarrow> n = 0 \<and> c_Status p \<in> {[], ''active''})"
  using assms(1)
proof (cases rule: createAllocation_Inr)
  case (1 g st n a now s2)
  note inv = changeInventory_fields [OF 1(13)] and tr = TransferCurrency_fields [OF 1(14)]
  have n: "0 \<le> n" using units_val_nonneg [OF 1(12)] by simp
  have zero: "bal s (AllocationAvailable, i, cur) = 0" "bal s (AllocationSpent, i, cur) = 0" for cur
    using funds_stray(3,4) [OF accounts_okD(2) [OF assms(2)]] fresh_allocation_account [OF 1(11)] by auto
  have st: "a_status a = ''exhausted'' \<longleftrightarrow> n = 0 \<and> c_Status p \<in> {[], ''active''}"
    using 1(8) unfolding 1(9,10) by (auto simp: or_default_def oneOf_def)
  show ?thesis
    using 1(6,10,11) n inv tr zero st by (intro exI [of _ a] exI [of _ n]) (auto simp: move_def)
qed

lemma createAllocation_within_balance_witness:
  "\<exists>s' a n. createAllocation (key_request sample_grant_id ''k'' ''all'' []) sample_ready = (Inr ''AQIDBAUGcACAAAAAAAAADw'', s') \<and>
    a \<in> set (allocations s') \<and> a_allocated_units a = int_str n \<and>
    bal s' (AllocationAvailable, ''AQIDBAUGcACAAAAAAAAADw'', a_currency a) = n"
proof -
  let ?r = "createAllocation (key_request sample_grant_id ''k'' ''all'' []) sample_ready"
  have "fst ?r = Inr ''AQIDBAUGcACAAAAAAAAADw''" by code_simp
  then have "?r = (Inr ''AQIDBAUGcACAAAAAAAAADw'', snd ?r)" by (simp add: prod_eq_iff)
  from this createAllocation_within_balance [OF this sample_ready_accounts] show ?thesis by blast
qed

text \<open>
  C6: revoking an allocation gives back what it has left, no more: the positive part of its available
  balance returns to the grant, what was spent stays spent, the row is revoked for good, and if
  nothing was overdrawn the allocated amount becomes exactly the amount spent.
\<close>

theorem revoke_returns_unused:
  assumes "setAllocationStatus i ''revoked'' s = (Inr x, s')" and "accounts_ok s"
    and "find_allocation i s = Some a" "a_status a \<noteq> ''revoked''"
  shows "\<exists>a'. find_allocation i s' = Some a' \<and> a_status a' = ''revoked'' \<and>
    bal s' (AllocationAvailable, i, a_currency a) = min 0 (bal s (AllocationAvailable, i, a_currency a)) \<and>
    bal s' (GrantUnallocated, a_grant a, a_currency a) =
      bal s (GrantUnallocated, a_grant a, a_currency a) + max 0 (bal s (AllocationAvailable, i, a_currency a)) \<and>
    bal s' (AllocationSpent, i, a_currency a) = bal s (AllocationSpent, i, a_currency a) \<and>
    (0 \<le> bal s (AllocationAvailable, i, a_currency a) \<longrightarrow>
       units_val (a_allocated_units a') = bal s' (AllocationSpent, i, a_currency a))"
  using assms(1)
proof (cases rule: setAllocationStatus_Inr)
  case (already b)
  with assms(3,4) show ?thesis by simp
next
  case (change b v s2 s3)
  let ?k = "(AllocationAvailable, i, a_currency a)"
  have b: "b = a" using change(2) assms(3) by simp
  note a' = find_allocation_Some [OF assms(3)] and inv = changeInventory_fields [OF change(6)]
  have ok': "accounts_ok s'" by (rule setAllocationStatus_accounts [OF assms(1,2)])
  have f: "funds (grants s) (allocations s) (bal s)" using accounts_okD(2) [OF assms(2)] .
  have c: "canonical (a_allocated_units a)" using f a' by (auto simp: funds_def allocation_funds_def)
  have s2: "allocations s2 = allocations s \<and>
      bal s2 = move ?k (GrantUnallocated, a_grant a, a_currency a) (max 0 (bal s ?k)) (bal s)"
  proof (cases "0 < bal s ?k")
    case True
    with change(5) have "TransferCurrency (''revoke:'' @ i) ''return unused allocation'' ''allocation'' i
      AllocationAvailable i GrantUnallocated (a_grant a) (a_currency a) (bal s ?k) s = (Inr (), s2)"
      by (simp add: returnUnused_Inr b)
    from TransferCurrency_fields [OF this] True show ?thesis by simp
  next
    case False
    with change(5) show ?thesis by (simp add: returnUnused_Inr b)
  qed
  let ?r = "a\<lparr>a_allocated_units := v, a_status := ''revoked''\<rparr>"
  have mem: "?r \<in> set (allocations s')"
    using a' s2 inv by (auto simp: change(8) set_update_rows)
  have found: "find_allocation i s' = Some ?r"
    using find_allocation_mem [OF accounts_okD(2) [OF ok'] mem] a' by simp
  have bals: "bal s' = move ?k (GrantUnallocated, a_grant a, a_currency a) (max 0 (bal s ?k)) (bal s)"
    using s2 inv by (simp add: change(8))
  have af: "allocation_funds (bal s') ?r"
    using accounts_okD(2) [OF ok'] mem by (simp add: funds_def)
  show ?thesis
    using found bals af a' by (intro exI [of _ ?r]) (auto simp: move_def allocation_funds_def)
qed

lemma revoke_returns_unused_witness:
  "\<exists>s' a. setAllocationStatus sample_allocation_id ''revoked'' sample_ready = (Inr (), s') \<and>
    find_allocation sample_allocation_id s' = Some a \<and> a_status a = ''revoked'' \<and>
    bal s' (GrantUnallocated, sample_grant_id, ''eth'') = 1000"
proof -
  let ?r = "setAllocationStatus sample_allocation_id ''revoked'' sample_ready"
  let ?a = "hd (allocations sample_ready)"
  have "fst ?r = Inr ()" by code_simp
  then have run: "?r = (Inr (), snd ?r)" by (simp add: prod_eq_iff)
  have a: "find_allocation sample_allocation_id sample_ready = Some ?a" "a_status ?a \<noteq> ''revoked''"
      "a_grant ?a = sample_grant_id" "a_currency ?a = ''eth''"
    by (simp_all add: sample_ready_def find_allocation_def find_row_def sample_allocation_id_def sample_grant_id_def)
  show ?thesis
    using revoke_returns_unused [OF run sample_ready_accounts a(1,2)] run a(3,4) by (auto simp: sample_bal)
qed

definition is_error :: "'a result \<times> world \<Rightarrow> bool" where
  "is_error r \<longleftrightarrow> (\<exists>e. fst r = Inl e)"

lemma is_errorI: "(\<And>x s'. r = (Inr x, s') \<Longrightarrow> False) \<Longrightarrow> is_error r"
  by (cases r; cases "fst r") (auto simp: is_error_def)


definition sample_closed :: world where
  "sample_closed = sample_ready\<lparr>grants := map (\<lambda>g. g\<lparr>g_status := ''closed''\<rparr>) (grants sample_ready),
     allocations := map (\<lambda>a. a\<lparr>a_status := ''revoked''\<rparr>) (allocations sample_ready)\<rparr>"


end
