(* ===== verification/Auth.thy ===== *)
theory Auth
  imports Funds
begin

text \<open>
  \<open>internal/store/auth.go\<close>: the signer webhook's authorization decision.  A request carries a
  bearer API key and the signer's state; the decision is taken on one snapshot of the key, its
  allocation and grant, the balance, the payment session and the Kafka lag, and is taken again
  under the write lock before a new session is created.
\<close>

section \<open>Requests and decisions\<close>

record RemoteState =
  StateID :: string
  PMSessionID :: string
  OrchestratorAddress :: string
  App :: string
  PaymentType :: string
  AuthID :: string
  FeeWei :: string
  FeeUSD :: string

text \<open>The headers stand in the order in which the range loop over the map meets them, which Go
  leaves open.\<close>

record AuthRequest =
  Headers :: "(string \<times> string list) list"
  State :: "RemoteState option"

record Decision =
  Status :: int
  Reason :: string
  Expiry :: int
  d_AuthID :: string

definition decision :: "int \<Rightarrow> string \<Rightarrow> string \<Rightarrow> Decision" where
  "decision status reason auth = \<lparr>Status = status, Reason = reason, Expiry = 0, d_AuthID = auth\<rparr>"

lemma decision_simps [simp]:
  "Status (decision a b c) = a" "Reason (decision a b c) = b" "d_AuthID (decision a b c) = c"
  by (simp_all add: decision_def)

section \<open>The key\<close>

text \<open>The header loop; \<open>None\<close> is its early return.\<close>

fun bearer_from :: "string \<Rightarrow> (string \<times> string list) list \<Rightarrow> string option" where
  "bearer_from bearer [] = Some bearer"
| "bearer_from bearer ((k, v) # headers) =
     (if EqualFold k ''Authorization'' then
        (if bearer \<noteq> [] \<or> length v \<noteq> 1 then None else bearer_from (hd v) headers)
      else bearer_from bearer headers)"

definition bearer_token :: "(string \<times> string list) list \<Rightarrow> string option" where
  "bearer_token headers = (case bearer_from [] headers of
     None \<Rightarrow> None
   | Some bearer \<Rightarrow> (case Fields bearer of
       [scheme, token] \<Rightarrow> if EqualFold scheme ''Bearer'' then Some token else None
     | _ \<Rightarrow> None))"

text \<open>\<open>apiKeyID\<close>: \<open>lpg_<22 characters of base64, a version 7 UUID>_<secret>\<close>.\<close>

definition apiKeyID :: "string \<Rightarrow> string option" where
  "apiKeyID key =
     (if take 4 key \<noteq> ''lpg_'' then None
      else let payload = drop 4 key in
        if length payload \<le> 23 \<or> payload ! 22 \<noteq> CHR ''_'' then None
        else let ident = take 22 payload in
          (case RawURLDecode ident of
             None \<Rightarrow> None
           | Some decoded \<Rightarrow>
               if length decoded = 16 \<and> decoded ! 6 div 16 = 7 \<and> decoded ! 8 div 64 = 2
               then Some ident else None))"

section \<open>The snapshot\<close>

record authorizationSnapshot =
  saved :: string
  sn_allocation :: string
  sn_allocationStatus :: string
  sn_grantStatus :: string
  sn_balance :: string
  sn_revoked :: "int option"
  sn_start :: "int option"
  sn_end :: "int option"
  sn_grantStart :: "int option"
  sn_grantEnd :: "int option"
  sn_lastUsed :: "int option"
  sn_id :: string
  sn_key :: string
  sn_app :: string
  sn_paymentType :: string
  sn_orchestrator :: string
  sn_status :: string
  sn_lastSeen :: int
  sn_currency :: string
  sn_lag :: kafka_lag

definition no_snapshot :: authorizationSnapshot where
  "no_snapshot = \<lparr>saved = [], sn_allocation = [], sn_allocationStatus = [], sn_grantStatus = [],
     sn_balance = [], sn_revoked = None, sn_start = None, sn_end = None, sn_grantStart = None,
     sn_grantEnd = None, sn_lastUsed = None, sn_id = [], sn_key = [], sn_app = [],
     sn_paymentType = [], sn_orchestrator = [], sn_status = [], sn_lastSeen = 0, sn_currency = [],
     sn_lag = \<lparr>CheckedAt = 0, CoveredThrough = 0, Available = False\<rparr>\<rparr>"

definition find_session_by_state :: "string \<Rightarrow> world \<Rightarrow> session option" where
  "find_session_by_state state s = find_row (\<lambda>x. s_state_id x = state) (sessions s)"

text \<open>One row of the join, with the \<open>coalesce\<close> defaults of the three outer joins.\<close>

definition snapshot_row :: "api_key \<Rightarrow> allocation \<Rightarrow> grant \<Rightarrow> string option \<Rightarrow> session option \<Rightarrow>
    kafka_lag option \<Rightarrow> authorizationSnapshot" where
  "snapshot_row k a g b x h =
     \<lparr>saved = k_secret_hash k, sn_allocation = k_allocation k, sn_allocationStatus = a_status a,
      sn_grantStatus = g_status g, sn_balance = (case b of None \<Rightarrow> ''0'' | Some v \<Rightarrow> v),
      sn_revoked = k_revoked k, sn_start = a_starts a, sn_end = a_ends a,
      sn_grantStart = g_starts g, sn_grantEnd = g_ends g, sn_lastUsed = k_last_used k,
      sn_id = (case x of None \<Rightarrow> [] | Some r \<Rightarrow> s_id r),
      sn_key = (case x of None \<Rightarrow> [] | Some r \<Rightarrow> s_api_key r),
      sn_app = (case x of None \<Rightarrow> [] | Some r \<Rightarrow> s_app r),
      sn_paymentType = (case x of None \<Rightarrow> [] | Some r \<Rightarrow> s_payment_type r),
      sn_orchestrator = (case x of None \<Rightarrow> [] | Some r \<Rightarrow> s_orchestrator r),
      sn_status = (case x of None \<Rightarrow> [] | Some r \<Rightarrow> s_status r),
      sn_lastSeen = (case x of None \<Rightarrow> 0 | Some r \<Rightarrow> s_last_seen r),
      sn_currency = a_currency a,
      sn_lag = (case h of None \<Rightarrow> \<lparr>CheckedAt = 0, CoveredThrough = 0, Available = False\<rparr> | Some l \<Rightarrow> l)\<rparr>"

definition readAuthorization :: "string \<Rightarrow> string \<Rightarrow> string \<Rightarrow> world \<Rightarrow> authorizationSnapshot" where
  "readAuthorization key state topic s = (case find_api_key key s of
     None \<Rightarrow> no_snapshot
   | Some k \<Rightarrow> (case find_allocation (k_allocation k) s of
       None \<Rightarrow> no_snapshot
     | Some a \<Rightarrow> (case find_grant (a_grant a) s of
         None \<Rightarrow> no_snapshot
       | Some g \<Rightarrow> snapshot_row k a g
           (map_of (account_balances s) (AllocationAvailable, a_id a, a_currency a))
           (find_session_by_state state s) (map_of (kafka_lags s) topic))))"

section \<open>The decision\<close>

definition inWindow :: "int \<Rightarrow> int option \<Rightarrow> int option \<Rightarrow> bool" where
  "inWindow now start ends \<longleftrightarrow>
     (case start of None \<Rightarrow> True | Some a \<Rightarrow> a \<le> now) \<and> (case ends of None \<Rightarrow> True | Some b \<Rightarrow> now < b)"

text \<open>Durations are nanoseconds; \<open>Time.Sub\<close> saturates at the largest \<open>Duration\<close>.\<close>

definition MinKafkaLag :: int where
  "MinKafkaLag = 1000000000"

definition DefaultMaxKafkaLag :: int where
  "DefaultMaxKafkaLag = 60000000000"

definition since_ms :: "int \<Rightarrow> int \<Rightarrow> int" where
  "since_ms now past = max MinInt64 (min MaxInt64 ((now - past) * 1000000))"

definition lag_reason :: "kafka_lag \<Rightarrow> int \<Rightarrow> int \<Rightarrow> string" where
  "lag_reason h now maxAge =
     (if maxAge < MinKafkaLag \<or> \<not> Available h \<or> CheckedAt h \<le> 0 \<or> CoveredThrough h \<le> 0 \<or>
         now < CheckedAt h \<or> CheckedAt h < CoveredThrough h then ''kafka lag unavailable''
      else if maxAge \<le> since_ms now (CheckedAt h) then ''kafka lag unavailable''
      else if maxAge \<le> since_ms now (CoveredThrough h) then ''kafka lag exceeded''
      else [])"

definition payment_fee :: "authorizationSnapshot \<Rightarrow> RemoteState \<Rightarrow> string + string" where
  "payment_fee a state =
     (if sn_currency a = ''usd'' then
        (case DecimalToUnits (FeeUSD state) ''USD'' of
           Inl e \<Rightarrow> Inl ''invalid USD payment fee'' | Inr units \<Rightarrow> Inr units)
      else Inr (FeeWei state))"

definition binding_mismatch :: "authorizationSnapshot \<Rightarrow> RemoteState \<Rightarrow> string \<Rightarrow> string \<Rightarrow> bool" where
  "binding_mismatch a state key orch \<longleftrightarrow>
     sn_key a \<noteq> key \<or> sn_app a \<noteq> App state \<or> sn_paymentType a \<noteq> PaymentType state \<or>
     sn_orchestrator a \<noteq> orch \<or> sn_status a \<noteq> ''active'' \<or>
     (AuthID state \<noteq> [] \<and> AuthID state \<noteq> sn_id a)"

definition decide :: "authorizationSnapshot \<Rightarrow> RemoteState \<Rightarrow> string \<Rightarrow> string \<Rightarrow> int \<Rightarrow> int \<Rightarrow> Decision result" where
  "decide a state key hash now maxAge =
     (if hash \<noteq> saved a \<or> sn_revoked a \<noteq> None then Inr (decision 401 ''invalid API key'' [])
      else if sn_grantStatus a \<noteq> ''active'' \<or> \<not> oneOf (sn_allocationStatus a) [''active'', ''exhausted'']
          \<or> \<not> inWindow now (sn_start a) (sn_end a) \<or> \<not> inWindow now (sn_grantStart a) (sn_grantEnd a)
        then Inr (decision 403 ''grant or allocation is inactive'' [])
      else (case signedBalance (sn_balance a) of
        Inl e \<Rightarrow> Inl e
      | Inr balance \<Rightarrow>
          if sn_allocationStatus a = ''exhausted'' \<or> balance \<le> 0
          then Inr (decision 402 ''allocation exhausted'' [])
          else (case payment_fee a state of
            Inl reason \<Rightarrow> Inr (decision 400 reason [])
          | Inr fee \<Rightarrow> (case Amount fee of
              Inl e \<Rightarrow> Inr (decision 400 ''invalid payment fee'' [])
            | Inr amount \<Rightarrow>
                if balance < amount then Inr (decision 402 ''insufficient allocation balance'' [])
                else (case Address (OrchestratorAddress state) of
                  Inl e \<Rightarrow> Inl e
                | Inr orch \<Rightarrow>
                    if sn_id a = [] \<and> AuthID state \<noteq> [] then Inr (decision 403 ''unknown auth_id'' [])
                    else if sn_id a \<noteq> [] \<and> binding_mismatch a state key orch
                      then Inr (decision 403 ''session is revoked or binding does not match'' [])
                    else if lag_reason (sn_lag a) now maxAge \<noteq> []
                      then Inr (decision 503 (lag_reason (sn_lag a) now maxAge) [])
                    else Inr (decision 200 [] (sn_id a)))))))"

section \<open>Authorize\<close>

definition touch_key :: "string \<Rightarrow> (api_key \<Rightarrow> bool) \<Rightarrow> int \<Rightarrow> world \<Rightarrow> world" where
  "touch_key key cond now s = s\<lparr>api_keys := update_rows (\<lambda>k. k_id k = key \<and> cond k)
     (\<lambda>k. k\<lparr>k_last_used := Some now\<rparr>) (api_keys s)\<rparr>"

definition touchAuthorization :: "string \<Rightarrow> string \<Rightarrow> int \<Rightarrow> (world, unit) tx" where
  "touchAuthorization key session now = Write
     (let cutoff = now - 60000 in
      thenE (modify (\<lambda>s. s\<lparr>sessions := update_rows (\<lambda>x. s_id x = session \<and> s_last_seen x \<le> cutoff)
               (\<lambda>x. x\<lparr>s_last_seen := now\<rparr>) (sessions s)\<rparr>))
        (modify (touch_key key
           (\<lambda>k. case k_last_used k of None \<Rightarrow> True | Some t \<Rightarrow> t \<le> cutoff) now)))"

text \<open>The part under the write lock: everything is read and decided again.\<close>

definition new_session :: "authorizationSnapshot \<Rightarrow> RemoteState \<Rightarrow> string \<Rightarrow> string \<Rightarrow> string \<Rightarrow> int \<Rightarrow> session" where
  "new_session a state key ident orch now =
     \<lparr>s_id = ident, s_allocation = sn_allocation a, s_api_key = key, s_state_id = StateID state,
      s_app = App state, s_payment_type = PaymentType state, s_orchestrator = orch,
      s_status = ''active'', s_created = now, s_last_seen = now\<rparr>"

definition authorize_locked ::
  "RemoteState \<Rightarrow> string \<Rightarrow> string \<Rightarrow> string \<Rightarrow> int \<Rightarrow> (world, Decision \<times> authorizationSnapshot \<times> int) tx" where
  "authorize_locked state keyID hash topic maxAge =
     bindE (gets (readAuthorization keyID (StateID state) topic)) (\<lambda>a.
       bindE NowMs (\<lambda>now.
         bindE (liftE (decide a state keyID hash now maxAge)) (\<lambda>d.
           if Status d \<noteq> 200 \<or> d_AuthID d \<noteq> [] then ret (d, a, now)
           else bindE ID (\<lambda>ident.
             let orch = (case Address (OrchestratorAddress state) of Inl e \<Rightarrow> [] | Inr v \<Rightarrow> v) in
             thenE (insert_session (new_session a state keyID ident orch now))
               (thenE (modify (touch_key keyID (\<lambda>k. True) now))
                 (ret (d\<lparr>d_AuthID := ident\<rparr>, a\<lparr>sn_lastSeen := now, sn_lastUsed := Some now\<rparr>, now)))))))"

definition stale :: "authorizationSnapshot \<Rightarrow> int \<Rightarrow> bool" where
  "stale a now \<longleftrightarrow> (let cutoff = now - 60000 in
     sn_lastSeen a \<le> cutoff \<or> (case sn_lastUsed a of None \<Rightarrow> True | Some t \<Rightarrow> t \<le> cutoff))"

text \<open>A failed activity touch is only logged.\<close>

definition touch_if_stale :: "string \<Rightarrow> Decision \<Rightarrow> authorizationSnapshot \<Rightarrow> int \<Rightarrow> (world, Decision) tx" where
  "touch_if_stale keyID d a now s =
     (if stale a now then (Inr d, snd (touchAuthorization keyID (d_AuthID d) now s)) else (Inr d, s))"

definition authorize_key :: "RemoteState \<Rightarrow> string \<Rightarrow> string \<Rightarrow> string \<Rightarrow> int \<Rightarrow> (world, Decision) tx" where
  "authorize_key state keyID hash topic maxAge =
     bindE (gets (readAuthorization keyID (StateID state) topic)) (\<lambda>a.
       bindE NowMs (\<lambda>now.
         bindE (liftE (decide a state keyID hash now maxAge)) (\<lambda>d.
           if Status d \<noteq> 200 then ret d
           else if d_AuthID d = [] then
             bindE (Write (authorize_locked state keyID hash topic maxAge)) (\<lambda>(d, a, now).
               if Status d \<noteq> 200 then ret d else touch_if_stale keyID d a now)
           else touch_if_stale keyID d a now)))"

definition Authorize :: "string \<Rightarrow> int \<Rightarrow> AuthRequest \<Rightarrow> (world, Decision) tx" where
  "Authorize topic maxAge req = (case State req of
     None \<Rightarrow> fail (PlainError ''signer state is required'')
   | Some state \<Rightarrow>
       if StateID state = [] then fail (PlainError ''signer state is required'')
       else (case bearer_token (Headers req) of
         None \<Rightarrow> ret (decision 401 ''invalid API key'' [])
       | Some token \<Rightarrow> (case apiKeyID token of
           None \<Rightarrow> ret (decision 401 ''invalid API key'' [])
         | Some keyID \<Rightarrow> bindE (gets (\<lambda>s. sha256 s token))
             (\<lambda>hash. authorize_key state keyID hash topic maxAge))))"

definition SetKafkaLag :: "string \<Rightarrow> kafka_lag \<Rightarrow> (world, unit) tx" where
  "SetKafkaLag topic h = Write (sql_write ''kafka_lag'' (\<lambda>s. 0 \<le> CheckedAt h \<and> 0 \<le> CoveredThrough h)
     (\<lambda>s. s\<lparr>kafka_lags := AList.update topic h (kafka_lags s)\<rparr>))"

section \<open>When a request is granted\<close>

text \<open>The lag is acceptable exactly when both readings are young enough; saturation never matters.\<close>

definition lag_fresh :: "kafka_lag \<Rightarrow> int \<Rightarrow> int \<Rightarrow> bool" where
  "lag_fresh h now maxAge \<longleftrightarrow> MinKafkaLag \<le> maxAge \<and> Available h \<and> 0 < CoveredThrough h \<and>
     CoveredThrough h \<le> CheckedAt h \<and> CheckedAt h \<le> now \<and> (now - CoveredThrough h) * 1000000 < maxAge"

lemma lag_reason_fresh:
  assumes "is_i64 maxAge"
  shows "lag_reason h now maxAge = [] \<longleftrightarrow> lag_fresh h now maxAge"
  using assms by (auto simp: lag_reason_def lag_fresh_def since_ms_def is_i64_def MinKafkaLag_def not_le not_less)

text \<open>The authorization policy, as a plain conjunction.\<close>

definition key_valid :: "authorizationSnapshot \<Rightarrow> string \<Rightarrow> bool" where
  "key_valid a hash \<longleftrightarrow> saved a = hash \<and> sn_revoked a = None"

definition grant_open :: "authorizationSnapshot \<Rightarrow> int \<Rightarrow> bool" where
  "grant_open a now \<longleftrightarrow> sn_grantStatus a = ''active'' \<and> sn_allocationStatus a = ''active'' \<and>
     inWindow now (sn_start a) (sn_end a) \<and> inWindow now (sn_grantStart a) (sn_grantEnd a)"

definition fee_covered :: "authorizationSnapshot \<Rightarrow> RemoteState \<Rightarrow> bool" where
  "fee_covered a state \<longleftrightarrow> (\<exists>balance fee amount. sn_balance a = int_str balance \<and> 0 < balance \<and>
     payment_fee a state = Inr fee \<and> Amount fee = Inr amount \<and> amount \<le> balance)"

definition session_bound :: "authorizationSnapshot \<Rightarrow> RemoteState \<Rightarrow> string \<Rightarrow> bool" where
  "session_bound a state key \<longleftrightarrow> (\<exists>orch. Address (OrchestratorAddress state) = Inr orch \<and>
     (if sn_id a = [] then AuthID state = [] else \<not> binding_mismatch a state key orch))"

lemma decide_200:
  "decide a state key hash now maxAge = Inr d \<and> Status d = 200 \<longleftrightarrow>
   d = decision 200 [] (sn_id a) \<and> key_valid a hash \<and> grant_open a now \<and> fee_covered a state \<and>
   session_bound a state key \<and> lag_reason (sn_lag a) now maxAge = []"
proof
  assume "decide a state key hash now maxAge = Inr d \<and> Status d = 200"
  then show "d = decision 200 [] (sn_id a) \<and> key_valid a hash \<and> grant_open a now \<and> fee_covered a state \<and>
   session_bound a state key \<and> lag_reason (sn_lag a) now maxAge = []"
    by (auto simp: decide_def key_valid_def grant_open_def fee_covered_def session_bound_def oneOf_def
        signedBalance_Inr not_le not_less split: if_splits sum.splits)
next
  assume "d = decision 200 [] (sn_id a) \<and> key_valid a hash \<and> grant_open a now \<and> fee_covered a state \<and>
   session_bound a state key \<and> lag_reason (sn_lag a) now maxAge = []"
  then show "decide a state key hash now maxAge = Inr d \<and> Status d = 200"
    by (auto simp: decide_def key_valid_def grant_open_def fee_covered_def session_bound_def oneOf_def split: if_splits)
qed

text \<open>The decisions and their status codes.\<close>

lemma payment_fee_Inl: "payment_fee a state = Inl r \<Longrightarrow> r = ''invalid USD payment fee''"
  by (auto simp: payment_fee_def split: if_splits sum.splits)

lemma decide_status:
  "decide a state key hash now maxAge = Inr d \<Longrightarrow> Status d \<in> {200, 400, 401, 402, 403, 503} \<and>
   (d_AuthID d \<noteq> [] \<longrightarrow> Status d = 200) \<and> (Status d = 200 \<longleftrightarrow> Reason d = [])"
  by (auto simp: decide_def dest!: payment_fee_Inl split: if_split_asm sum.split_asm)

section \<open>What an authorization changes\<close>

definition nonsession :: "world \<Rightarrow> world" where
  "nonsession s = s\<lparr>api_keys := [], sessions := [], tick := 0\<rparr>"

lemma nonsession_simps [simp]:
  "nonsession (s\<lparr>tick := t\<rparr>) = nonsession s" "nonsession (s\<lparr>api_keys := k\<rparr>) = nonsession s"
  "nonsession (s\<lparr>sessions := x\<rparr>) = nonsession s"
  by (simp_all add: nonsession_def)

lemma nonsession_sel:
  "grants (nonsession s) = grants s" "allocations (nonsession s) = allocations s"
  "account_balances (nonsession s) = account_balances s" "ledger_entries (nonsession s) = ledger_entries s"
  "ledger_transactions (nonsession s) = ledger_transactions s" "usage_events (nonsession s) = usage_events s"
  "metric_counts (nonsession s) = metric_counts s" "metric_amounts (nonsession s) = metric_amounts s"
  "metric_balances (nonsession s) = metric_balances s" "settlements (nonsession s) = settlements s"
  "kafka_lags (nonsession s) = kafka_lags s" "signing_authorizations (nonsession s) = signing_authorizations s"
  "ingestion_checkpoints (nonsession s) = ingestion_checkpoints s" "sha256 (nonsession s) = sha256 s"
  "escrow_snapshots (nonsession s) = escrow_snapshots s"
  by (simp_all add: nonsession_def)

lemma nonsession_fields:
  "nonsession s' = nonsession s \<Longrightarrow>
   grants s' = grants s \<and> allocations s' = allocations s \<and> account_balances s' = account_balances s \<and>
   ledger_entries s' = ledger_entries s \<and> ledger_transactions s' = ledger_transactions s \<and>
   usage_events s' = usage_events s \<and> metric_counts s' = metric_counts s \<and> metric_amounts s' = metric_amounts s \<and>
   metric_balances s' = metric_balances s \<and> settlements s' = settlements s \<and>
   kafka_lags s' = kafka_lags s \<and> signing_authorizations s' = signing_authorizations s \<and>
   ingestion_checkpoints s' = ingestion_checkpoints s \<and> sha256 s' = sha256 s \<and> escrow_snapshots s' = escrow_snapshots s"
  by (intro conjI; metis nonsession_sel)

lemma touch_key_nonsession [simp]: "nonsession (touch_key key c now s) = nonsession s"
  by (simp add: touch_key_def)

lemma touchAuthorization_run:
  "touchAuthorization key x now s = (Inr (), touch_key key
     (\<lambda>k. case k_last_used k of None \<Rightarrow> True | Some t \<Rightarrow> t \<le> now - 60000) now
     (s\<lparr>sessions := update_rows (\<lambda>r. s_id r = x \<and> s_last_seen r \<le> now - 60000)
        (\<lambda>r. r\<lparr>s_last_seen := now\<rparr>) (sessions s)\<rparr>))"
  by (simp add: touchAuthorization_def Write_def Let_def)

lemma nonsession_rollback [simp]: "nonsession (rollback s t) = nonsession s"
  by (simp add: rollback_def)

lemma authorize_locked_frame: "authorize_locked st k h tp m s = (r, s') \<Longrightarrow> nonsession s' = nonsession s"
  by (auto simp: authorize_locked_def bindE_def thenE_def NowMs_def ID_def insert_session_def sql_write_def
      liftE_simp Let_def split: sum.splits if_splits prod.splits)

lemma touch_if_stale_frame: "touch_if_stale k d a now s = (r, s') \<Longrightarrow> nonsession s' = nonsession s"
  by (auto simp: touch_if_stale_def touchAuthorization_run split: if_splits)

lemma authorize_key_frame: "authorize_key st k h tp m s = (r, s') \<Longrightarrow> nonsession s' = nonsession s"
  by (auto simp: authorize_key_def bindE_def NowMs_def liftE_simp Write_def
      split: sum.splits if_splits prod.splits dest!: authorize_locked_frame touch_if_stale_frame)

lemma Authorize_frame: "Authorize tp m req s = (r, s') \<Longrightarrow> nonsession s' = nonsession s"
  by (auto simp: Authorize_def split: option.splits if_splits dest!: authorize_key_frame)

text \<open>What is not granted leaves every table as it was.\<close>

lemma touch_if_stale_Inr: "touch_if_stale k d a now s = (r, s') \<Longrightarrow> r = Inr d"
  by (auto simp: touch_if_stale_def split: if_splits)

lemma authorize_locked_Inr:
  assumes "authorize_locked st k h tp m s = (Inr (d, a', now), s')"
  obtains
    (decided) "a' = readAuthorization k (StateID st) tp s" "now = clock s (tick s)"
      "decide a' st k h now m = Inr d" "Status d \<noteq> 200 \<or> d_AuthID d \<noteq> []" "s' = s\<lparr>tick := Suc (tick s)\<rparr>"
  | (created) a d0 i orch s1 where
      "a = readAuthorization k (StateID st) tp s" "now = clock s (tick s)" "decide a st k h now m = Inr d0"
      "Status d0 = 200" "d_AuthID d0 = []" "d = d0\<lparr>d_AuthID := i\<rparr>"
      "orch = (case Address (OrchestratorAddress st) of Inl e \<Rightarrow> [] | Inr v \<Rightarrow> v)"
      "insert_session (new_session a st k i orch now) (s\<lparr>tick := Suc (Suc (tick s))\<rparr>) = (Inr (), s1)"
      "a' = a\<lparr>sn_lastSeen := now, sn_lastUsed := Some now\<rparr>"
      "s' = touch_key k (\<lambda>k. True) now s1"
proof -
  from assms obtain d0 where d0: "decide (readAuthorization k (StateID st) tp s) st k h (clock s (tick s)) m = Inr d0"
    by (auto simp: authorize_locked_def txs)
  show thesis
  proof (cases "Status d0 \<noteq> 200 \<or> d_AuthID d0 \<noteq> []")
    case True
    with assms d0 show thesis
      by (intro decided) (auto simp: authorize_locked_def txs)
  next
    case False
    with assms d0 show thesis
      unfolding authorize_locked_def Let_def by (auto simp: txs intro!: created [OF refl])
  qed
qed

lemma authorize_locked_not_200:
  "authorize_locked st k h tp m s = (Inr (d, a, now), s') \<Longrightarrow> Status d \<noteq> 200 \<Longrightarrow> tables.truncate s' = tables.truncate s"
  by (erule authorize_locked_Inr) (simp_all add: tables.defs)

lemma authorize_key_not_200:
  assumes "authorize_key st k h tp m s = (Inr d, s')" "Status d \<noteq> 200"
  shows "tables.truncate s' = tables.truncate s"
  using assms
  by (auto simp: authorize_key_def txs tables.defs split: if_splits prod.splits
      dest!: touch_if_stale_Inr authorize_locked_not_200)

lemma authorize_key_Inl:
  assumes "authorize_key st k h tp m s = (Inl e, s')"
  shows "tables.truncate s' = tables.truncate s"
  using assms
  by (auto simp: authorize_key_def tx_failure txs tables.defs liftE_simp NowMs_def rollback_def Write_Inl_iff
      split: if_splits prod.splits dest!: touch_if_stale_Inr)

section \<open>What a grant rests on\<close>

text \<open>The key, the allocation and the grant behind an authorization of \<open>st\<close> at \<open>now\<close>.\<close>

definition authorized :: "world \<Rightarrow> RemoteState \<Rightarrow> string \<Rightarrow> string \<Rightarrow> string \<Rightarrow> int \<Rightarrow> int \<Rightarrow> bool" where
  "authorized s st token keyID topic maxAge now \<longleftrightarrow> (\<exists>k a g fee n h.
     k \<in> set (api_keys s) \<and> k_id k = keyID \<and> k_secret_hash k = sha256 s token \<and> k_revoked k = None \<and>
     a \<in> set (allocations s) \<and> a_id a = k_allocation k \<and> a_status a = ''active'' \<and>
     inWindow now (a_starts a) (a_ends a) \<and>
     g \<in> set (grants s) \<and> g_id g = a_grant a \<and> g_status g = ''active'' \<and> inWindow now (g_starts g) (g_ends g) \<and>
     (if a_currency a = ''usd'' then DecimalToUnits (FeeUSD st) ''USD'' = Inr fee else fee = FeeWei st) \<and>
     Amount fee = Inr n \<and> 0 < bal s (AllocationAvailable, a_id a, a_currency a) \<and>
     n \<le> bal s (AllocationAvailable, a_id a, a_currency a) \<and>
     map_of (kafka_lags s) topic = Some h \<and> lag_fresh h now maxAge)"

definition session_for :: "world \<Rightarrow> RemoteState \<Rightarrow> string \<Rightarrow> string \<Rightarrow> bool" where
  "session_for s st keyID auth \<longleftrightarrow> (\<exists>x \<in> set (sessions s). s_id x = auth \<and> s_api_key x = keyID \<and>
     s_state_id x = StateID st \<and> s_app x = App st \<and> s_payment_type x = PaymentType st \<and>
     Address (OrchestratorAddress st) = Inr (s_orchestrator x) \<and> s_status x = ''active'')"

lemma readAuthorization_row:
  assumes "saved (readAuthorization key st tp s) \<noteq> []"
  obtains k a g where "find_api_key key s = Some k" "find_allocation (k_allocation k) s = Some a"
    "find_grant (a_grant a) s = Some g" "k \<in> set (api_keys s)" "k_id k = key" "a \<in> set (allocations s)"
    "a_id a = k_allocation k" "g \<in> set (grants s)" "g_id g = a_grant a"
    "readAuthorization key st tp s = snapshot_row k a g
       (map_of (account_balances s) (AllocationAvailable, a_id a, a_currency a))
       (find_session_by_state st s) (map_of (kafka_lags s) tp)"
  using assms
  by (auto simp: readAuthorization_def no_snapshot_def find_api_key_def split: option.splits
      dest: find_row_Some find_allocation_Some find_grant_Some intro!: that)

lemma snapshot_row_simps [simp]:
  "saved (snapshot_row k a g b x h) = k_secret_hash k" "sn_revoked (snapshot_row k a g b x h) = k_revoked k"
  "sn_grantStatus (snapshot_row k a g b x h) = g_status g" "sn_allocationStatus (snapshot_row k a g b x h) = a_status a"
  "sn_start (snapshot_row k a g b x h) = a_starts a" "sn_end (snapshot_row k a g b x h) = a_ends a"
  "sn_grantStart (snapshot_row k a g b x h) = g_starts g" "sn_grantEnd (snapshot_row k a g b x h) = g_ends g"
  "sn_currency (snapshot_row k a g b x h) = a_currency a"
  "sn_balance (snapshot_row k a g b x h) = (case b of None \<Rightarrow> ''0'' | Some v \<Rightarrow> v)"
  "sn_lag (snapshot_row k a g b x h) = (case h of None \<Rightarrow> \<lparr>CheckedAt = 0, CoveredThrough = 0, Available = False\<rparr> | Some l \<Rightarrow> l)"
  by (simp_all add: snapshot_row_def)

lemma int_str_zero: "int_str 0 = ''0''"
  by (simp add: int_str_def digit_char_def)

lemma decided_authorized:
  assumes d: "decide (readAuthorization key (StateID st) tp s) st key (sha256 s token) now m = Inr d"
    and "Status d = 200" "sha256 s token \<noteq> []" "is_i64 m"
  shows "authorized s st token key tp m now"
proof -
  let ?a = "readAuthorization key (StateID st) tp s"
  have ok: "key_valid ?a (sha256 s token)" "grant_open ?a now" "fee_covered ?a st" "lag_reason (sn_lag ?a) now m = []"
    using d assms(2) decide_200 [of ?a st key "sha256 s token" now m d] by simp_all
  have "saved ?a \<noteq> []" using ok(1) assms(3) by (simp add: key_valid_def)
  then obtain k a g where rows: "k \<in> set (api_keys s)" "k_id k = key" "a \<in> set (allocations s)"
      "a_id a = k_allocation k" "g \<in> set (grants s)" "g_id g = a_grant a"
    and a: "?a = snapshot_row k a g (map_of (account_balances s) (AllocationAvailable, a_id a, a_currency a))
       (find_session_by_state (StateID st) s) (map_of (kafka_lags s) tp)"
    by (rule readAuthorization_row)
  from ok(3) obtain balance fee amount where bal: "sn_balance ?a = int_str balance" "0 < balance"
    and fee: "payment_fee ?a st = Inr fee" "Amount fee = Inr amount" "amount \<le> balance"
    by (auto simp: fee_covered_def)
  have b: "bal s (AllocationAvailable, a_id a, a_currency a) = balance"
    using bal int_str_inject [of balance 0]
    by (auto simp: a bal_def tget_def int_str_zero simp del: int_str_inject split: option.splits)
  have f: "if a_currency a = ''usd'' then DecimalToUnits (FeeUSD st) ''USD'' = Inr fee else fee = FeeWei st"
    using fee(1) by (auto simp: a payment_fee_def split: if_splits sum.splits)
  have lag: "lag_fresh (sn_lag ?a) now m" using ok(4) lag_reason_fresh [OF assms(4)] by blast
  then obtain h where h: "map_of (kafka_lags s) tp = Some h" "lag_fresh h now m"
    by (auto simp: a lag_fresh_def split: option.splits)
  show ?thesis
    unfolding authorized_def
    using ok(1,2) rows b bal(2) fee(2,3) f h by (intro exI [of _ k] exI [of _ a] exI [of _ g] exI [of _ fee]
        exI [of _ amount] exI [of _ h]) (simp add: a key_valid_def grant_open_def)
qed

definition seen :: "session \<Rightarrow> session" where
  "seen x = x\<lparr>s_last_seen := 0\<rparr>"

lemma session_for_seen:
  assumes "seen ` set (sessions s') = seen ` set (sessions s)" "session_for s st key auth"
  shows "session_for s' st key auth"
proof -
  from assms(2) obtain x where x: "x \<in> set (sessions s)" "s_id x = auth" "s_api_key x = key"
     "s_state_id x = StateID st" "s_app x = App st" "s_payment_type x = PaymentType st"
     "Address (OrchestratorAddress st) = Inr (s_orchestrator x)" "s_status x = ''active''"
    by (auto simp: session_for_def)
  have "seen x \<in> seen ` set (sessions s')" using x(1) assms(1) by simp
  then obtain y where y: "y \<in> set (sessions s')" "seen y = seen x" by auto
  have "s_id y = s_id x \<and> s_api_key y = s_api_key x \<and> s_state_id y = s_state_id x \<and> s_app y = s_app x \<and>
      s_payment_type y = s_payment_type x \<and> s_orchestrator y = s_orchestrator x \<and> s_status y = s_status x"
    using y(2) by (cases x, cases y) (simp add: seen_def)
  with x y show ?thesis by (auto simp: session_for_def)
qed

lemma seen_update: "seen (x\<lparr>s_last_seen := t\<rparr>) = seen x"
  by (simp add: seen_def)

lemma touch_if_stale_seen:
  assumes "touch_if_stale k d a now s = (r, s')"
  shows "seen ` set (sessions s') = seen ` set (sessions s)"
proof -
  have "seen ` set (update_rows P (\<lambda>r. r\<lparr>s_last_seen := now\<rparr>) xs) = seen ` set xs" for P xs
    by (rule image_update_rows) (rule seen_update)
  moreover have "sessions s' = sessions s \<or> sessions s' = update_rows
      (\<lambda>r. s_id r = d_AuthID d \<and> s_last_seen r \<le> now - 60000) (\<lambda>r. r\<lparr>s_last_seen := now\<rparr>) (sessions s)"
    using assms by (auto simp: touch_if_stale_def touchAuthorization_run touch_key_def split: if_splits)
  ultimately show ?thesis by metis
qed

lemma find_session_Some: "find_session_by_state st s = Some x \<Longrightarrow> x \<in> set (sessions s) \<and> s_state_id x = st"
  by (auto simp: find_session_by_state_def dest: find_row_Some)

lemma decided_session:
  assumes d: "decide (readAuthorization key (StateID st) tp s) st key h now m = Inr d"
    and "Status d = 200" "d_AuthID d \<noteq> []"
  shows "session_for s st key (d_AuthID d)"
proof -
  let ?a = "readAuthorization key (StateID st) tp s"
  have ok: "d = decision 200 [] (sn_id ?a)" "session_bound ?a st key"
    using d assms(2) decide_200 [of ?a st key h now m d] by simp_all
  then have id: "d_AuthID d = sn_id ?a" "sn_id ?a \<noteq> []" using assms(3) by (metis decision_simps(3))+
  then obtain x where x: "find_session_by_state (StateID st) s = Some x" "sn_id ?a = s_id x" "sn_key ?a = s_api_key x"
      "sn_app ?a = s_app x" "sn_paymentType ?a = s_payment_type x" "sn_orchestrator ?a = s_orchestrator x"
      "sn_status ?a = s_status x"
    by (auto simp: readAuthorization_def snapshot_row_def no_snapshot_def split: option.splits)
  then show ?thesis
    using ok(2) id find_session_Some [OF x(1)]
    by (auto simp: session_bound_def binding_mismatch_def session_for_def)
qed

text \<open>Before the touch, a granted request has its session and its reasons.\<close>

lemma session_created:
  assumes "insert_session (new_session a st key i orch now) s = (Inr (), s1)" "Address (OrchestratorAddress st) = Inr orch"
  shows "session_for (touch_key key c now s1) st key i"
  using assms by (auto simp: insert_session_def txs session_for_def touch_key_def new_session_def)

lemma authorized_tick [simp]: "authorized (s\<lparr>tick := t\<rparr>) st token key tp m now = authorized s st token key tp m now"
  by (simp add: authorized_def bal_def)

lemma authorize_key_grants:
  assumes r: "authorize_key st key (sha256 s token) tp m s = (Inr d, s')" and ok: "Status d = 200"
    and h: "sha256 s token \<noteq> []" and m: "is_i64 m"
  shows "session_for s' st key (d_AuthID d) \<and> (\<exists>now. authorized s st token key tp m now)"
proof -
  let ?a = "readAuthorization key (StateID st) tp s" and ?now = "clock s (tick s)" and ?s1 = "s\<lparr>tick := Suc (tick s)\<rparr>"
  from r obtain d0 where d0: "decide ?a st key (sha256 s token) ?now m = Inr d0"
    and r1: "(if Status d0 \<noteq> 200 then ret d0
       else if d_AuthID d0 = [] then
         bindE (Write (authorize_locked st key (sha256 s token) tp m)) (\<lambda>(d, a, now).
           if Status d \<noteq> 200 then ret d else touch_if_stale key d a now)
       else touch_if_stale key d0 ?a ?now) ?s1 = (Inr d, s')"
    by (auto simp: authorize_key_def bindE_Inr NowMs_Inr liftE_Inr)
  have ok0: "Status d0 = 200" using r1 ok by (cases "Status d0 = 200") auto
  note auth0 = decided_authorized [OF d0 ok0 h m]
  show ?thesis
  proof (cases "d_AuthID d0 = []")
    case False
    with r1 ok0 have t: "touch_if_stale key d0 ?a ?now ?s1 = (Inr d, s')" by simp
    then have "d = d0" using touch_if_stale_Inr [OF t] by simp
    moreover have "session_for ?s1 st key (d_AuthID d0)"
      using decided_session [OF d0 ok0 False] by (simp add: session_for_def)
    ultimately show ?thesis using session_for_seen [OF touch_if_stale_seen [OF t]] auth0 by blast
  next
    case True
    with r1 ok0 obtain d1 a1 now1 s2 where l: "authorize_locked st key (sha256 s token) tp m ?s1 = (Inr (d1, a1, now1), s2)"
      and t: "(if Status d1 \<noteq> 200 then ret d1 else touch_if_stale key d1 a1 now1) s2 = (Inr d, s')"
      by (auto simp: txs)
    have ok1: "Status d1 = 200" using t ok by (cases "Status d1 = 200") auto
    with t have t': "touch_if_stale key d1 a1 now1 s2 = (Inr d, s')" by simp
    then have dd: "d = d1" using touch_if_stale_Inr [OF t'] by simp
    have "session_for s2 st key (d_AuthID d1)"
      using l
    proof (cases rule: authorize_locked_Inr)
      case decided
      then have "session_for ?s1 st key (d_AuthID d1)" using ok1 by (intro decided_session) auto
      with decided show ?thesis by (simp add: session_for_def)
    next
      case (created a d0' i orch s1)
      then have "session_bound a st key" using decide_200 by blast
      then have "Address (OrchestratorAddress st) = Inr orch" using created by (auto simp: session_bound_def)
      with session_created [OF created(8) this] created show ?thesis by simp
    qed
    then show ?thesis using session_for_seen [OF touch_if_stale_seen [OF t']] dd auth0 by blast
  qed
qed

section \<open>Keys\<close>

definition uuid_v7 :: "string \<Rightarrow> bool" where
  "uuid_v7 u \<longleftrightarrow> length u = 16 \<and> code (u ! 6) div 16 = 7 \<and> code (u ! 8) div 64 = 2"

lemma apiKeyID_key:
  assumes u: "uuid_v7 u" and ne: "secret \<noteq> []"
  shows "apiKeyID (''lpg_'' @ RawURLEncode u @ ''_'' @ secret) = Some (RawURLEncode u)"
proof -
  have len: "length (RawURLEncode u) = 22" using u by (simp add: length_RawURLEncode uuid_v7_def)
  have t: "take 22 (RawURLEncode u @ r) = RawURLEncode u" "(RawURLEncode u @ c # r) ! 22 = c" for c r
    using len by (simp_all add: nth_append)
  show ?thesis
    using ne u by (simp add: apiKeyID_def t len RawURLDecode_encode Let_def uuid_v7_def)
qed

lemma key_bytes: "c \<in> set (''lpg_'' @ RawURLEncode u @ ''_'' @ RawURLEncode v) \<Longrightarrow> 32 < code c \<and> code c < 128"
proof -
  have l: "\<forall>c \<in> set ''lpg_''. 32 < code c \<and> code c < 128" by (simp add: code_def)
  assume "c \<in> set (''lpg_'' @ RawURLEncode u @ ''_'' @ RawURLEncode v)"
  then have "c \<in> set ''lpg_'' \<or> c \<in> set (RawURLEncode u) \<or> c = CHR ''_'' \<or> c \<in> set (RawURLEncode v)"
    by (simp only: set_append) auto
  then show ?thesis
    using l RawURLEncode_bytes [of c u] RawURLEncode_bytes [of c v] by (auto simp: code_def)
qed

lemma bearer_token_key:
  assumes "\<forall>c \<in> set key. 32 < code c \<and> code c < 128" "key \<noteq> []"
  shows "bearer_token [(''Authorization'', [''Bearer '' @ key])] = Some key"
proof -
  have "Fields (''Bearer'' @ CHR '' '' # key) = [''Bearer'', key]"
    using assms by (intro Fields_two) (auto simp: code_def)
  then show ?thesis by (simp add: bearer_token_def EqualFold_def)
qed

section \<open>Properties\<close>

definition sample_state :: RemoteState where
  "sample_state = \<lparr>StateID = ''state'', PMSessionID = [], OrchestratorAddress = ''0x00000000000000000000000000000000000000aB'',
     App = ''app'', PaymentType = ''live'', AuthID = [], FeeWei = ''250'', FeeUSD = []\<rparr>"

definition sample_auth :: AuthRequest where
  "sample_auth = \<lparr>Headers = [(''authorization'', [''bearer '' @ sample_key])], State = Some sample_state\<rparr>"

definition sample_authorized :: world where
  "sample_authorized = snd (Authorize ''t'' 60000000000 sample_auth sample_ready)"

text \<open>
  C3: the decision is exactly the authorization policy: status 200 if and only if the key's hash
  matches and the key is not revoked, grant and allocation are active and inside their windows,
  the balance is positive and covers the fee in the allocation's currency, the session is
  unused or bound to this key and request, and the Kafka lag is fresh.
\<close>

theorem decide_policy:
  assumes "is_i64 maxAge"
  shows "decide a state key hash now maxAge = Inr d \<and> Status d = 200 \<longleftrightarrow>
    d = decision 200 [] (sn_id a) \<and> key_valid a hash \<and> grant_open a now \<and> fee_covered a state \<and>
    session_bound a state key \<and> lag_fresh (sn_lag a) now maxAge"
  using decide_200 lag_reason_fresh [OF assms] by simp

lemma decide_policy_witness:
  "\<exists>a d. a = readAuthorization ''AQIDBAUGcACAAAAAAAAADA'' ''state'' ''t'' sample_ready \<and>
     decide a sample_state ''AQIDBAUGcACAAAAAAAAADA'' ''lpg_AQIDBAUGcACAAAAAAAAADA_c3Nzc'' 1700000000015 DefaultMaxKafkaLag = Inr d \<and>
     Status d = 200 \<and> fee_covered a sample_state \<and> lag_fresh (sn_lag a) 1700000000015 DefaultMaxKafkaLag"
proof -
  let ?a = "readAuthorization ''AQIDBAUGcACAAAAAAAAADA'' ''state'' ''t'' sample_ready"
  have d: "decide ?a sample_state ''AQIDBAUGcACAAAAAAAAADA'' ''lpg_AQIDBAUGcACAAAAAAAAADA_c3Nzc'' 1700000000015 DefaultMaxKafkaLag =
      Inr (decision 200 [] [])" by code_simp
  have "is_i64 DefaultMaxKafkaLag" by (simp add: is_i64_def DefaultMaxKafkaLag_def)
  from d decide_policy [OF this, THEN iffD1, OF conjI [OF d decision_simps(1)]] show ?thesis
    by (intro exI [of _ ?a] exI [of _ "decision 200 [] []"] conjI refl) (elim conjE, assumption | rule decision_simps)+
qed


lemma sample_authorized_run:
  "Authorize ''t'' 60000000000 sample_auth sample_ready = (Inr (decision 200 [] ''AQIDBAUGcACAAAAAAAAAEQ''), sample_authorized)"
proof (rule prod_eqI)
  show "fst (Authorize ''t'' 60000000000 sample_auth sample_ready) =
      fst (Inr (decision 200 [] ''AQIDBAUGcACAAAAAAAAAEQ''), sample_authorized)" by code_simp
qed (simp add: sample_authorized_def)

lemma sample_sha: "bearer_token (Headers sample_auth) = Some token \<Longrightarrow> sha256 sample_ready token \<noteq> []"
proof -
  have "bearer_token (Headers sample_auth) = Some sample_key" by code_simp
  moreover have "sha256 sample_ready sample_key \<noteq> []" by code_simp
  ultimately show "bearer_token (Headers sample_auth) = Some token \<Longrightarrow> sha256 sample_ready token \<noteq> []" by simp
qed


text \<open>
  C4: an authorization never touches money: whatever the request and the outcome, grants,
  allocations, ledger, balances, usage and metric summaries stay as they were; and a request that
  is denied or fails leaves every table unchanged.
\<close>

theorem Authorize_conserves:
  assumes "Authorize topic maxAge req s = (r, s')"
  shows "nonsession s' = nonsession s \<and>
    ((\<exists>d. r = Inr d \<and> Status d = 200) \<or> tables.truncate s' = tables.truncate s)"
proof -
  have "tables.truncate s' = tables.truncate s" if "\<not> (\<exists>d. r = Inr d \<and> Status d = 200)"
    using assms that
    by (cases r) (auto simp: Authorize_def split: option.splits if_splits
        dest: authorize_key_not_200 authorize_key_Inl)
  then show ?thesis using Authorize_frame [OF assms] by blast
qed

lemma Authorize_conserves_witness:
  "nonsession sample_authorized = nonsession sample_ready \<and>
    ((\<exists>d. Inr (decision 200 [] ''AQIDBAUGcACAAAAAAAAAEQ'') = (Inr d :: Decision result) \<and> Status d = 200) \<or>
     tables.truncate sample_authorized = tables.truncate sample_ready)"
  by (rule Authorize_conserves) (rule sample_authorized_run)

text \<open>
  C8: an issued API key works: the bearer header with the key that \<open>createKey\<close> returned is parsed
  back to that key, the key names the stored row of the right allocation, unrevoked, and the row
  holds the hash of the key.
\<close>

theorem createKey_usable:
  assumes "createKey allocation name s = (Inr (ident, key), s')"
    and "uuid_v7 (uuid s (tick s))" "random s (Suc (tick s)) \<noteq> Some []"
  shows "bearer_token [(''Authorization'', [''Bearer '' @ key])] = Some key \<and> apiKeyID key = Some ident \<and>
    (\<exists>k \<in> set (api_keys s'). k_id k = ident \<and> k_allocation k = allocation \<and>
       k_secret_hash k = sha256 s' key \<and> k_revoked k = None)"
  using assms(1)
proof (cases rule: createKey_Inr)
  case (1 secret a)
  have ne: "RawURLEncode secret \<noteq> []"
    using 1(2) assms(3) RawURLEncode_inject [of secret "[]"] by (auto simp: RawURLEncode_def)
  have "apiKeyID key = Some ident" unfolding 1(3) 1(1) by (rule apiKeyID_key [OF assms(2) ne])
  moreover have "bearer_token [(''Authorization'', [''Bearer '' @ key])] = Some key"
  proof (rule bearer_token_key)
    show "\<forall>c \<in> set key. 32 < code c \<and> code c < 128" unfolding 1(3) 1(1) using key_bytes by blast
  qed (simp add: 1(3))
  ultimately show ?thesis by (simp add: 1(9))
qed

lemma createKey_usable_witness:
  "bearer_token [(''Authorization'', [''Bearer '' @ ''lpg_AQIDBAUGcACAAAAAAAAADw_c3Nzc3Nzc3Nzc3Nzc3Nzc3Nzc3Nzc3Nzc3Nzc3Nzc3M'']) ] =
      Some ''lpg_AQIDBAUGcACAAAAAAAAADw_c3Nzc3Nzc3Nzc3Nzc3Nzc3Nzc3Nzc3Nzc3Nzc3Nzc3M'' \<and>
    apiKeyID ''lpg_AQIDBAUGcACAAAAAAAAADw_c3Nzc3Nzc3Nzc3Nzc3Nzc3Nzc3Nzc3Nzc3Nzc3Nzc3M'' = Some ''AQIDBAUGcACAAAAAAAAADw''"
proof -
  let ?r = "createKey sample_allocation_id ''key'' sample_ready"
  have "fst ?r = Inr (''AQIDBAUGcACAAAAAAAAADw'', ''lpg_AQIDBAUGcACAAAAAAAAADw_c3Nzc3Nzc3Nzc3Nzc3Nzc3Nzc3Nzc3Nzc3Nzc3Nzc3M'')"
    by code_simp
  then have run: "?r = (Inr (''AQIDBAUGcACAAAAAAAAADw'', ''lpg_AQIDBAUGcACAAAAAAAAADw_c3Nzc3Nzc3Nzc3Nzc3Nzc3Nzc3Nzc3Nzc3Nzc3Nzc3M''), snd ?r)"
    by (simp add: prod_eq_iff)
  have "uuid_v7 (uuid sample_ready (tick sample_ready))" by code_simp
  moreover have "random sample_ready (Suc (tick sample_ready)) \<noteq> Some []" by code_simp
  ultimately show ?thesis using createKey_usable [OF run] by blast
qed

end
