(* ===== verification/Ingest.thy ===== *)
theory Ingest
  imports Auth
begin

text \<open>
  \<open>internal/store/ingest.go\<close>: one Kafka message becomes one audit row, at most one charge and the
  next checkpoint, in one transaction.  Decoding JSON is the argument \<open>dec\<close> of the definitions:
  the envelope or its absence, and the signed-ticket fields decoded so far with whether decoding
  succeeded.
\<close>

section \<open>Messages\<close>

record Envelope =
  e_ID :: string
  e_Type :: string
  e_Data :: string

record SignedTicketEvent =
  SessionID :: string
  t_AuthID :: string
  t_App :: string
  Pipeline :: string
  RequestID :: string
  ManifestID :: string
  Orchestrator :: string
  t_PMSessionID :: string
  ComputedFee :: string
  ComputedFeeUSD :: "string option"
  Sequence :: nat
  NumTickets :: int
  Started :: int
  Ended :: int
  BillableSeconds :: string
  Pixels :: string

record decoder =
  dec_envelope :: "string \<Rightarrow> Envelope option"
  dec_ticket :: "string \<Rightarrow> bool \<times> SignedTicketEvent"

definition no_ticket :: SignedTicketEvent where
  "no_ticket = \<lparr>SessionID = [], t_AuthID = [], t_App = [], Pipeline = [], RequestID = [],
     ManifestID = [], Orchestrator = [], t_PMSessionID = [], ComputedFee = [], ComputedFeeUSD = None,
     Sequence = 0, NumTickets = 0, Started = 0, Ended = 0, BillableSeconds = [], Pixels = []\<rparr>"

definition KafkaStream :: "string \<Rightarrow> int \<Rightarrow> string" where
  "KafkaStream topic part = topic @ '':'' @ int_str part"

definition validHash :: "string \<Rightarrow> bool" where
  "validHash s \<longleftrightarrow> length s = 66 \<and> take 2 s = ''0x'' \<and> (\<forall>c \<in> set (ToLower (drop 2 s)). is_lower_hex c)"

definition QuarantineReason :: "string \<Rightarrow> string" where
  "QuarantineReason detail =
     (if detail = [] then ''none''
      else if detail = ''malformed envelope or missing event id/type/data'' then ''envelope''
      else if detail = ''event id reused with different payload'' then ''conflicting_id''
      else if detail = ''malformed signed-ticket data'' then ''ticket_data''
      else if detail = ''missing auth_id or unknown payment session'' then ''unknown_session''
      else if detail = ''event does not match session binding'' then ''session_binding''
      else if detail = ''invalid fee, ticket count, request, timestamp, or PM session'' then ''invalid_ticket''
      else if detail = ''USD fee unavailable'' then ''missing_usd_fee''
      else ''other'')"

section \<open>Classification\<close>

text \<open>The local variables of \<open>Ingest\<close> once the message has been judged.\<close>

record verdict =
  v_status :: string
  v_reason :: string
  v_envelope_id :: string
  v_eventID :: "string option"
  v_sessionID :: "string option"
  v_ev :: SignedTicketEvent
  v_allocation :: string
  v_currency :: string
  v_feeUSD :: "string option"
  v_usdUnits :: "int option"

definition verdict_of :: "string \<Rightarrow> string \<Rightarrow> string \<Rightarrow> string option \<Rightarrow> SignedTicketEvent \<Rightarrow> verdict" where
  "verdict_of status reason eid event_id ev =
     \<lparr>v_status = status, v_reason = reason, v_envelope_id = eid, v_eventID = event_id,
      v_sessionID = None, v_ev = ev, v_allocation = [], v_currency = [], v_feeUSD = None,
      v_usdUnits = None\<rparr>"

definition quarantine :: "string \<Rightarrow> verdict \<Rightarrow> verdict" where
  "quarantine reason v = v\<lparr>v_status := ''quarantined'', v_reason := reason\<rparr>"

text \<open>The two fees of a ticket: an error, and the USD fee as units and as printed text.\<close>

definition ticket_fees :: "SignedTicketEvent \<Rightarrow> bool \<times> int option \<times> string option" where
  "ticket_fees ev =
     (let bad = (case Amount (ComputedFee ev) of Inl e \<Rightarrow> True | Inr n \<Rightarrow> False) in
      case ComputedFeeUSD ev of
        None \<Rightarrow> (bad, None, None)
      | Some usd \<Rightarrow> (case DecimalToUnits usd ''USD'' of
          Inl e \<Rightarrow> (True, None, None)
        | Inr units \<Rightarrow> (bad,
            (case Amount units of Inl e \<Rightarrow> None | Inr n \<Rightarrow> Some n),
            (case UnitsToDecimal units of Inl e \<Rightarrow> Some [] | Inr d \<Rightarrow> Some d))))"

definition find_session :: "string \<Rightarrow> world \<Rightarrow> session option" where
  "find_session i s = find_row (\<lambda>x. s_id x = i) (sessions s)"

definition judge_ticket :: "world \<Rightarrow> verdict \<Rightarrow> verdict" where
  "judge_ticket s v = (let ev = v_ev v in
     case find_session (t_AuthID ev) s of
       None \<Rightarrow> quarantine ''missing auth_id or unknown payment session'' v
     | Some x \<Rightarrow> (case find_allocation (s_allocation x) s of
         None \<Rightarrow> quarantine ''missing auth_id or unknown payment session'' v
       | Some a \<Rightarrow>
           (let (feeErr, usdUnits, feeUSD) = ticket_fees ev;
                v = v\<lparr>v_allocation := s_allocation x, v_currency := a_currency a,
                      v_feeUSD := feeUSD, v_usdUnits := usdUnits\<rparr> in
            if SessionID ev \<noteq> s_state_id x \<or> t_App ev \<noteq> s_app x \<or> Pipeline ev \<noteq> s_payment_type x \<or>
               Address (Orchestrator ev) \<noteq> Inr (s_orchestrator x)
            then quarantine ''event does not match session binding'' v
            else if feeErr \<or> NumTickets ev < 1 \<or> 100 < NumTickets ev \<or> RequestID ev = [] \<or>
               \<not> validHash (t_PMSessionID ev) \<or> Ended ev \<le> 0 \<or> Started ev < 0
            then quarantine ''invalid fee, ticket count, request, timestamp, or PM session'' v
            else if a_currency a = ''usd'' \<and> usdUnits = None
            then quarantine ''USD fee unavailable'' v
            else v\<lparr>v_sessionID := Some (t_AuthID ev),
                   v_ev := ev\<lparr>Orchestrator := s_orchestrator x,
                              t_PMSessionID := ToLower (t_PMSessionID ev)\<rparr>\<rparr>)))"

definition find_event :: "string \<Rightarrow> world \<Rightarrow> usage_event option" where
  "find_event i s = find_row (\<lambda>u. u_event_id u = Some i) (usage_events s)"

definition classify :: "decoder \<Rightarrow> string \<Rightarrow> world \<Rightarrow> verdict" where
  "classify dec raw s = (case dec_envelope dec raw of
     None \<Rightarrow> verdict_of ''quarantined'' ''malformed envelope or missing event id/type/data'' [] None no_ticket
   | Some env \<Rightarrow>
       if e_ID env = [] \<or> e_Type env = [] \<or> e_Data env = []
       then verdict_of ''quarantined'' ''malformed envelope or missing event id/type/data'' (e_ID env) None no_ticket
       else (case find_event (e_ID env) s of
         Some u \<Rightarrow>
           if u_raw_payload u = raw then verdict_of ''duplicate'' [] (e_ID env) None no_ticket
           else verdict_of ''quarantined'' ''event id reused with different payload'' (e_ID env) None no_ticket
       | None \<Rightarrow>
           if e_Type env \<noteq> ''create_signed_ticket''
           then verdict_of ''ignored'' [] (e_ID env) (Some (e_ID env)) no_ticket
           else let (ok, ev) = dec_ticket dec (e_Data env) in
             if \<not> ok then verdict_of ''quarantined'' ''malformed signed-ticket data'' (e_ID env) (Some (e_ID env)) ev
             else judge_ticket s (verdict_of ''applied'' [] (e_ID env) (Some (e_ID env)) ev)))"

section \<open>Matching settlements\<close>

definition ticket_sessions :: "string \<Rightarrow> string \<Rightarrow> world \<Rightarrow> string list" where
  "ticket_sessions pm orch s = remdups (map sa_session
     (filter (\<lambda>x. sa_pm_session x = pm \<and> sa_orchestrator x = orch) (signing_authorizations s)))"

definition attribution :: "string list \<Rightarrow> string \<times> string option" where
  "attribution ids = (case ids of
     [] \<Rightarrow> (''unmatched'', None)
   | [i] \<Rightarrow> (''matched'', Some i)
   | _ \<Rightarrow> (''ambiguous'', None))"

definition rematch_changes :: "string \<Rightarrow> string \<Rightarrow> string \<Rightarrow> string option \<Rightarrow> settlement_row \<Rightarrow> bool" where
  "rematch_changes pm orch status i r \<longleftrightarrow> st_pm_session r = pm \<and> st_recipient r = orch \<and>
     (st_match r \<noteq> status \<or> st_session r \<noteq> i)"

text \<open>\<open>GROUP BY status,match_status\<close> in the order SQLite returns the groups.\<close>

definition match_buckets :: "(settlement_row \<Rightarrow> bool) \<Rightarrow> settlement_row list \<Rightarrow> (string \<times> string \<times> int) list" where
  "match_buckets P rows = filter (\<lambda>(state, match, count). count \<noteq> 0)
     (map (\<lambda>(state, match). (state, match,
        rows_affected (\<lambda>r. P r \<and> st_status r = state \<and> st_match r = match) rows))
      (List.product [''orphaned'', ''settled''] [''ambiguous'', ''matched'', ''unmatched'']))"

definition move_bucket :: "string \<Rightarrow> string \<times> string \<times> int \<Rightarrow> (world, unit) tx" where
  "move_bucket status b = (case b of (state, match, count) \<Rightarrow>
     if match = status then ret ()
     else thenE (changeMetricCount ''settlements'' state match (- count))
            (changeMetricCount ''settlements'' state status count))"

definition rematch :: "string \<Rightarrow> string \<Rightarrow> (world, unit) tx" where
  "rematch pm orch =
     bindE (gets (\<lambda>s. attribution (ticket_sessions pm orch s))) (\<lambda>(status, i).
       bindE (gets (\<lambda>s. match_buckets (rematch_changes pm orch status i) (settlements s))) (\<lambda>buckets.
         if buckets = [] then ret ()
         else thenE (forE buckets (move_bucket status))
           (modify (\<lambda>s. s\<lparr>settlements := update_rows (rematch_changes pm orch status i)
              (\<lambda>r. r\<lparr>st_session := i, st_match := status\<rparr>) (settlements s)\<rparr>))))"

section \<open>Ingest\<close>

definition audit_row :: "string \<Rightarrow> string \<Rightarrow> int \<Rightarrow> int \<Rightarrow> string \<Rightarrow> verdict \<Rightarrow> int \<Rightarrow> usage_event" where
  "audit_row uid topic part offset raw v now =
     \<lparr>u_id = uid, u_event_id = v_eventID v, u_topic = topic, u_partition = part,
      u_offset = offset, u_raw_payload = raw, u_session = v_sessionID v,
      u_pipeline = Pipeline (v_ev v), u_request_id = RequestID (v_ev v),
      u_manifest_id = ManifestID (v_ev v), u_started = Started (v_ev v), u_ended = Ended (v_ev v),
      u_billable = BillableSeconds (v_ev v), u_pixels = Pixels (v_ev v),
      u_fee_wei = ComputedFee (v_ev v), u_fee_usd = v_feeUSD v, u_status = v_status v,
      u_error = v_reason v, u_created = now\<rparr>"

definition authorization_row :: "string \<Rightarrow> string \<Rightarrow> verdict \<Rightarrow> signing_authorization" where
  "authorization_row aid uid v =
     \<lparr>sa_id = aid, sa_usage_event = uid, sa_session = t_AuthID (v_ev v),
      sa_request_id = RequestID (v_ev v), sa_sequence = nat_str (Sequence (v_ev v)),
      sa_pm_session = t_PMSessionID (v_ev v), sa_orchestrator = Orchestrator (v_ev v),
      sa_fee_wei = ComputedFee (v_ev v), sa_fee_usd = v_feeUSD v,
      sa_num_tickets = NumTickets (v_ev v), sa_signed_at = Ended (v_ev v)\<rparr>"

text \<open>What the ticket costs, in units of the allocation's currency.\<close>

definition charge_of :: "verdict \<Rightarrow> int" where
  "charge_of v = (if v_currency v = ''usd'' then (case v_usdUnits v of None \<Rightarrow> 0 | Some n \<Rightarrow> n)
     else (case Amount (ComputedFee (v_ev v)) of Inl e \<Rightarrow> 0 | Inr n \<Rightarrow> n))"

definition exhaust_active :: "string \<Rightarrow> string \<Rightarrow> (world, unit) tx" where
  "exhaust_active allocation currency =
     bindE (gets (\<lambda>s. rows_affected (\<lambda>a. a_id a = allocation \<and> a_status a = ''active'') (allocations s)))
       (\<lambda>n. thenE (modify (\<lambda>s. s\<lparr>allocations := update_rows
                (\<lambda>a. a_id a = allocation \<and> a_status a = ''active'')
                (\<lambda>a. a\<lparr>a_status := ''exhausted''\<rparr>) (allocations s)\<rparr>))
          (if 0 < n then changeInventory ''allocations'' currency ''active'' ''exhausted'' else ret ()))"

definition apply_ticket :: "string \<Rightarrow> verdict \<Rightarrow> (world, unit) tx" where
  "apply_ticket uid v =
     bindE ID (\<lambda>aid.
       thenE (insert_signing_authorization (authorization_row aid uid v))
         (thenE (TransferCurrency (''usage:'' @ v_envelope_id v) ''signed usage'' ''signing_authorization'' aid
                   AllocationAvailable (v_allocation v) AllocationSpent (v_allocation v) (v_currency v) (charge_of v))
           (bindE (BalanceCurrency AllocationAvailable (v_allocation v) (v_currency v)) (\<lambda>balance.
             thenE (if balance \<le> 0 then exhaust_active (v_allocation v) (v_currency v) else ret ())
               (rematch (t_PMSessionID (v_ev v)) (Orchestrator (v_ev v)))))))"

definition next_offset :: "string \<Rightarrow> world \<Rightarrow> int" where
  "next_offset stream s = (case map_of (ingestion_checkpoints s) (''kafka'', stream) of
     None \<Rightarrow> 0 | Some (next, hash) \<Rightarrow> next)"

definition gap_error :: "string \<Rightarrow> int \<Rightarrow> int \<Rightarrow> int \<Rightarrow> error" where
  "gap_error topic part next offset = PlainError
     (''kafka offset gap for '' @ topic @ '' partition '' @ int_str part @
      '': expected '' @ int_str next @ '', received '' @ int_str offset)"

definition count_quarantine :: "verdict \<Rightarrow> (world, unit) tx" where
  "count_quarantine v = (if v_status v = ''quarantined''
     then changeMetricCount ''quarantines'' (QuarantineReason (v_reason v)) [] 1 else ret ())"

definition apply_verdict :: "string \<Rightarrow> verdict \<Rightarrow> (world, unit) tx" where
  "apply_verdict uid v = (if v_status v = ''applied'' then apply_ticket uid v else ret ())"

definition ingest_next :: "decoder \<Rightarrow> string \<Rightarrow> int \<Rightarrow> int \<Rightarrow> string \<Rightarrow> (world, unit) tx" where
  "ingest_next dec topic part offset raw =
     bindE ID (\<lambda>uid. bindE NowMs (\<lambda>now. bindE (gets (classify dec raw)) (\<lambda>v.
       thenE (insert_usage_event (audit_row uid topic part offset raw v now))
         (thenE (count_quarantine v)
           (thenE (apply_verdict uid v)
             (SetCheckpoint ''kafka'' (KafkaStream topic part) (offset + 1) []))))))"

definition Ingest :: "decoder \<Rightarrow> string \<Rightarrow> int \<Rightarrow> int \<Rightarrow> string \<Rightarrow> (world, unit) tx" where
  "Ingest dec topic part offset raw =
     (if part < 0 \<or> 2147483647 < part then fail (PlainError ''invalid Kafka partition'')
      else if offset < 0 \<or> offset = MaxInt64 then fail (PlainError ''invalid Kafka offset'')
      else Write (bindE (gets (next_offset (KafkaStream topic part))) (\<lambda>next.
        if offset < next then ret ()
        else if next < offset then fail (gap_error topic part next offset)
        else ingest_next dec topic part offset raw)))"

section \<open>What the steps do\<close>

subsection \<open>Rematching\<close>

definition nonmatch :: "world \<Rightarrow> world" where
  "nonmatch s = (nonmetric s)\<lparr>settlements := []\<rparr>"

lemma nonmatch_simps [simp]:
  "nonmatch (s\<lparr>settlements := r\<rparr>) = nonmatch s" "nonmatch (s\<lparr>tick := t\<rparr>) = nonmatch s"
  by (simp_all add: nonmatch_def nonmetric_def)

lemma nonmatch_nonmetric: "nonmetric s' = nonmetric s \<Longrightarrow> nonmatch s' = nonmatch s"
  by (simp add: nonmatch_def)

lemma nonmatch_sel:
  "grants (nonmatch s) = grants s" "allocations (nonmatch s) = allocations s"
  "account_balances (nonmatch s) = account_balances s" "ledger_entries (nonmatch s) = ledger_entries s"
  "ledger_transactions (nonmatch s) = ledger_transactions s" "usage_events (nonmatch s) = usage_events s"
  "ingestion_checkpoints (nonmatch s) = ingestion_checkpoints s" "sessions (nonmatch s) = sessions s"
  "signing_authorizations (nonmatch s) = signing_authorizations s" "api_keys (nonmatch s) = api_keys s"
  "kafka_lags (nonmatch s) = kafka_lags s" "escrow_snapshots (nonmatch s) = escrow_snapshots s"
  by (simp_all add: nonmatch_def nonmetric_def)

lemma nonmatch_fields:
  "nonmatch s' = nonmatch s \<Longrightarrow>
   grants s' = grants s \<and> allocations s' = allocations s \<and> account_balances s' = account_balances s \<and>
   ledger_entries s' = ledger_entries s \<and> ledger_transactions s' = ledger_transactions s \<and>
   usage_events s' = usage_events s \<and> ingestion_checkpoints s' = ingestion_checkpoints s \<and>
   sessions s' = sessions s \<and> signing_authorizations s' = signing_authorizations s \<and> api_keys s' = api_keys s \<and>
   kafka_lags s' = kafka_lags s \<and> escrow_snapshots s' = escrow_snapshots s"
  by (intro conjI; metis nonmatch_sel)

lemma forE_frame:
  "forE xs f s = (Inr u, s') \<Longrightarrow> (\<And>x s s'. f x s = (Inr (), s') \<Longrightarrow> P s' = P s) \<Longrightarrow> P s' = P s"
  by (induction xs arbitrary: s) (auto simp: txs)

lemma move_bucket_frame: "move_bucket status b s = (Inr u, s') \<Longrightarrow> nonmetric s' = nonmetric s"
  by (auto simp: move_bucket_def txs split: prod.splits if_splits dest!: changeMetricCount_frame)

lemma rematch_frame:
  assumes "rematch pm orch s = (Inr u, s')"
  shows "nonmatch s' = nonmatch s"
proof -
  have "nonmatch t = nonmatch s" if "forE b (move_bucket st) s = (Inr u, t)" for b st t u
    using that by (rule forE_frame) (rule nonmatch_nonmetric, rule move_bucket_frame)
  then show ?thesis
    using assms by (auto simp: rematch_def txs split: prod.splits if_splits)
qed

subsection \<open>Classification\<close>

lemma lookup_tick [simp]:
  "find_session i (s\<lparr>tick := t\<rparr>) = find_session i s" "find_event e (s\<lparr>tick := t\<rparr>) = find_event e s"
  "find_allocation a (s\<lparr>tick := t\<rparr>) = find_allocation a s" "find_grant g (s\<lparr>tick := t\<rparr>) = find_grant g s"
  by (simp_all add: find_session_def find_event_def find_allocation_def find_grant_def)

lemma judge_ticket_tick [simp]: "judge_ticket (s\<lparr>tick := t\<rparr>) v = judge_ticket s v"
  by (simp add: judge_ticket_def Let_def cong: option.case_cong)

lemma classify_tick [simp]: "classify dec raw (s\<lparr>tick := t\<rparr>) = classify dec raw s"
  by (simp add: classify_def Let_def cong: option.case_cong if_cong)

lemma quarantine_simps [simp]:
  "v_status (quarantine r v) = ''quarantined''" "v_reason (quarantine r v) = r"
  "v_envelope_id (quarantine r v) = v_envelope_id v" "v_eventID (quarantine r v) = v_eventID v"
  "v_sessionID (quarantine r v) = v_sessionID v" "v_ev (quarantine r v) = v_ev v"
  by (simp_all add: quarantine_def)

lemma verdict_of_simps [simp]:
  "v_status (verdict_of st r i e ev) = st" "v_reason (verdict_of st r i e ev) = r"
  "v_envelope_id (verdict_of st r i e ev) = i" "v_eventID (verdict_of st r i e ev) = e"
  "v_sessionID (verdict_of st r i e ev) = None" "v_ev (verdict_of st r i e ev) = ev"
  by (simp_all add: verdict_of_def)

text \<open>What an applied verdict stands for: a decoded ticket for a stored session, bound to it, with
  valid fees.\<close>

definition ticket_valid :: "world \<Rightarrow> SignedTicketEvent \<Rightarrow> session \<Rightarrow> allocation \<Rightarrow> bool" where
  "ticket_valid s ev x a \<longleftrightarrow>
     find_session (t_AuthID ev) s = Some x \<and> find_allocation (s_allocation x) s = Some a \<and>
     SessionID ev = s_state_id x \<and> t_App ev = s_app x \<and> Pipeline ev = s_payment_type x \<and>
     Address (Orchestrator ev) = Inr (s_orchestrator x) \<and> \<not> fst (ticket_fees ev) \<and>
     1 \<le> NumTickets ev \<and> NumTickets ev \<le> 100 \<and> RequestID ev \<noteq> [] \<and> validHash (t_PMSessionID ev) \<and>
     0 < Ended ev \<and> 0 \<le> Started ev \<and> (a_currency a = ''usd'' \<longrightarrow> fst (snd (ticket_fees ev)) \<noteq> None)"

lemma judge_ticket_applied:
  assumes "v_status v = ''applied''" "v_sessionID v = None"
  shows "v_status (judge_ticket s v) = ''applied'' \<longleftrightarrow> (\<exists>x a. ticket_valid s (v_ev v) x a)"
    and "v_status (judge_ticket s v) = ''applied'' \<or> v_status (judge_ticket s v) = ''quarantined''"
    and "v_eventID (judge_ticket s v) = v_eventID v \<and> v_envelope_id (judge_ticket s v) = v_envelope_id v"
    and "v_status (judge_ticket s v) = ''quarantined'' \<Longrightarrow> v_sessionID (judge_ticket s v) = None"
  using assms
  by (auto simp: judge_ticket_def ticket_valid_def Let_def not_le not_less split: option.splits prod.splits if_splits)

lemma judge_ticket_verdict:
  assumes "ticket_valid s (v_ev v) x a"
  shows "judge_ticket s v = v\<lparr>v_allocation := s_allocation x, v_currency := a_currency a,
    v_feeUSD := snd (snd (ticket_fees (v_ev v))), v_usdUnits := fst (snd (ticket_fees (v_ev v))),
    v_sessionID := Some (t_AuthID (v_ev v)),
    v_ev := (v_ev v)\<lparr>Orchestrator := s_orchestrator x, t_PMSessionID := ToLower (t_PMSessionID (v_ev v))\<rparr>\<rparr>"
  using assms by (auto simp: judge_ticket_def ticket_valid_def Let_def split: prod.splits)

text \<open>The cost of a ticket: its fee in the currency of the allocation.\<close>

definition ticket_cost :: "SignedTicketEvent \<Rightarrow> string \<Rightarrow> int \<Rightarrow> bool" where
  "ticket_cost ev currency n \<longleftrightarrow>
     (if currency = ''usd'' then \<exists>usd units. ComputedFeeUSD ev = Some usd \<and> DecimalToUnits usd ''USD'' = Inr units \<and> Amount units = Inr n
      else Amount (ComputedFee ev) = Inr n)"

lemma classify_applied:
  assumes "v_status (classify dec raw s) = ''applied''"
  obtains env ev x a n where
    "dec_envelope dec raw = Some env" "e_ID env \<noteq> []" "e_Type env = ''create_signed_ticket''" "find_event (e_ID env) s = None"
    "dec_ticket dec (e_Data env) = (True, ev)" "ticket_valid s ev x a"
    "v_envelope_id (classify dec raw s) = e_ID env" "v_eventID (classify dec raw s) = Some (e_ID env)"
    "v_sessionID (classify dec raw s) = Some (s_id x)" "t_AuthID (v_ev (classify dec raw s)) = s_id x"
    "v_allocation (classify dec raw s) = a_id a" "v_currency (classify dec raw s) = a_currency a"
    "a \<in> set (allocations s)" "x \<in> set (sessions s)"
    "ticket_cost ev (a_currency a) n" "charge_of (classify dec raw s) = n"
    "v_reason (classify dec raw s) = []"
proof -
  from assms obtain env ev where env: "dec_envelope dec raw = Some env" "e_ID env \<noteq> []"
      "e_Type env = ''create_signed_ticket''" "find_event (e_ID env) s = None" "dec_ticket dec (e_Data env) = (True, ev)"
    and c: "classify dec raw s = judge_ticket s (verdict_of ''applied'' [] (e_ID env) (Some (e_ID env)) ev)"
    by (auto simp: classify_def split: option.splits if_splits prod.splits)
  from assms obtain x a where v: "ticket_valid s ev x a"
    unfolding c using judge_ticket_applied(1) [of "verdict_of ''applied'' [] (e_ID env) (Some (e_ID env)) ev" s] by auto
  then have rows: "x \<in> set (sessions s)" "s_id x = t_AuthID ev" "a \<in> set (allocations s)" "a_id a = s_allocation x"
    by (auto simp: ticket_valid_def find_session_def dest: find_row_Some find_allocation_Some)
  have c': "classify dec raw s = (verdict_of ''applied'' [] (e_ID env) (Some (e_ID env)) ev)
     \<lparr>v_allocation := s_allocation x, v_currency := a_currency a,
       v_feeUSD := snd (snd (ticket_fees ev)), v_usdUnits := fst (snd (ticket_fees ev)),
       v_sessionID := Some (t_AuthID ev),
       v_ev := ev\<lparr>Orchestrator := s_orchestrator x, t_PMSessionID := ToLower (t_PMSessionID ev)\<rparr>\<rparr>"
    unfolding c using judge_ticket_verdict [where v = "verdict_of ''applied'' [] (e_ID env) (Some (e_ID env)) ev"] v by simp
  have "ticket_cost ev (a_currency a) (charge_of (classify dec raw s))"
    using v unfolding c'
    by (auto simp: ticket_valid_def ticket_cost_def charge_of_def ticket_fees_def Let_def split: option.splits sum.splits)
  then show thesis
    using rows by (intro that [OF env v]) (simp_all add: c' verdict_of_def)
qed

lemma ticket_cost_nonneg: "ticket_cost ev cur n \<Longrightarrow> 0 \<le> n"
  by (auto simp: ticket_cost_def dest: Amount_text split: if_splits)

lemma classify_account:
  "v_status (classify dec raw s) = ''applied'' \<Longrightarrow>
   allocation_account (allocations s) (v_allocation (classify dec raw s)) (v_currency (classify dec raw s))"
  by (erule classify_applied) (auto simp: allocation_account_def)

subsection \<open>Writing the verdict\<close>

lemma audit_row_simps [simp]:
  "u_id (audit_row uid tp pt off raw v now) = uid" "u_event_id (audit_row uid tp pt off raw v now) = v_eventID v"
  "u_topic (audit_row uid tp pt off raw v now) = tp" "u_partition (audit_row uid tp pt off raw v now) = pt"
  "u_offset (audit_row uid tp pt off raw v now) = off" "u_raw_payload (audit_row uid tp pt off raw v now) = raw"
  "u_session (audit_row uid tp pt off raw v now) = v_sessionID v" "u_status (audit_row uid tp pt off raw v now) = v_status v"
  "u_error (audit_row uid tp pt off raw v now) = v_reason v"
  by (simp_all add: audit_row_def)

lemma authorization_row_simps [simp]:
  "sa_id (authorization_row aid uid v) = aid" "sa_usage_event (authorization_row aid uid v) = uid"
  "sa_session (authorization_row aid uid v) = t_AuthID (v_ev v)" "sa_fee_wei (authorization_row aid uid v) = ComputedFee (v_ev v)"
  by (simp_all add: authorization_row_def)

lemma apply_ticket_Inr:
  assumes "apply_ticket uid v s = (Inr u, s')"
  obtains aid s1 s2 s3 where
    "aid = RawURLEncode (uuid s (tick s))"
    "s1 = s\<lparr>tick := Suc (tick s), signing_authorizations := signing_authorizations s @ [authorization_row aid uid v]\<rparr>"
    "TransferCurrency (''usage:'' @ v_envelope_id v) ''signed usage'' ''signing_authorization'' aid
       AllocationAvailable (v_allocation v) AllocationSpent (v_allocation v) (v_currency v) (charge_of v) s1 = (Inr (), s2)"
    "(if bal s2 (AllocationAvailable, v_allocation v, v_currency v) \<le> 0
      then exhaust_active (v_allocation v) (v_currency v) else ret ()) s2 = (Inr (), s3)"
    "rematch (t_PMSessionID (v_ev v)) (Orchestrator (v_ev v)) s3 = (Inr (), s')"
    "canonical (ComputedFee (v_ev v))"
  using assms that unfolding apply_ticket_def insert_signing_authorization_def
  by (auto simp: txs)

lemma ingest_next_Inr:
  assumes "ingest_next dec topic part offset raw s = (Inr u, s')"
  obtains v uid row s1 s2 s3 where
    "v = classify dec raw s" "uid = RawURLEncode (uuid s (tick s))"
    "row = audit_row uid topic part offset raw v (clock s (Suc (tick s)))"
    "uid \<notin> u_id ` set (usage_events s)"
    "(topic, part, offset) \<notin> (\<lambda>r. (u_topic r, u_partition r, u_offset r)) ` set (usage_events s)"
    "v_eventID v = None \<or> v_eventID v \<notin> u_event_id ` set (usage_events s)"
    "s1 = s\<lparr>tick := Suc (Suc (tick s)), usage_events := usage_events s @ [row]\<rparr>"
    "count_quarantine v s1 = (Inr (), s2)" "apply_verdict uid v s2 = (Inr (), s3)"
    "s' = s3\<lparr>ingestion_checkpoints := AList.update (''kafka'', KafkaStream topic part) (offset + 1, [])
       (ingestion_checkpoints s3)\<rparr>"
  using assms that unfolding ingest_next_def insert_usage_event_def SetCheckpoint_def
  by (auto simp: txs)

lemma Ingest_Inr:
  "Ingest dec topic part offset raw s = (Inr u, s') \<longleftrightarrow>
     0 \<le> part \<and> part \<le> 2147483647 \<and> 0 \<le> offset \<and> offset \<noteq> MaxInt64 \<and>
     (offset < next_offset (KafkaStream topic part) s \<and> s' = s \<or>
      offset = next_offset (KafkaStream topic part) s \<and> ingest_next dec topic part offset raw s = (Inr u, s'))"
  by (auto simp: Ingest_def txs split: if_splits)

lemma exhaust_active_fields:
  assumes "exhaust_active i cur s = (Inr u, s')"
  shows "grants s' = grants s \<and> bal s' = bal s \<and> (ledger_ok s \<longrightarrow> ledger_ok s') \<and>
    usage_events s' = usage_events s \<and> ingestion_checkpoints s' = ingestion_checkpoints s \<and>
    ledger_transactions s' = ledger_transactions s \<and> sessions s' = sessions s \<and>
    signing_authorizations s' = signing_authorizations s \<and>
    allocations s' = update_rows (\<lambda>a. a_id a = i \<and> a_status a = ''active'') (\<lambda>a. a\<lparr>a_status := ''exhausted''\<rparr>) (allocations s)"
proof -
  let ?s1 = "s\<lparr>allocations := update_rows (\<lambda>a. a_id a = i \<and> a_status a = ''active'')
      (\<lambda>a. a\<lparr>a_status := ''exhausted''\<rparr>) (allocations s)\<rparr>"
  from assms have "nonmetric s' = nonmetric ?s1"
    by (auto simp: exhaust_active_def txs split: if_splits dest!: changeInventory_frame)
  then show ?thesis
    by (auto dest!: nonmetric_fields nonledger_fields simp: ledger_ok_def net_def bal_def intro!: ext)
qed

lemma bal_fields: "account_balances s' = account_balances s \<Longrightarrow> bal s' = bal s"
  by (rule ext) (simp add: bal_def)

text \<open>An applied ticket moves its cost from the available to the spent balance of its allocation and
  keeps both ledger invariants.\<close>

lemma apply_ticket_fields:
  assumes "apply_ticket uid v s = (Inr u, s')" "accounts_ok s" "allocation_account (allocations s) (v_allocation v) (v_currency v)"
  shows "accounts_ok s' \<and> 0 \<le> charge_of v \<and> is_currency (v_currency v) \<and>
    bal s' = move (AllocationAvailable, v_allocation v, v_currency v) (AllocationSpent, v_allocation v, v_currency v) (charge_of v) (bal s) \<and>
    usage_events s' = usage_events s \<and> ingestion_checkpoints s' = ingestion_checkpoints s \<and> sessions s' = sessions s \<and>
    grants s' = grants s \<and>
    allocations s' = (if bal s' (AllocationAvailable, v_allocation v, v_currency v) \<le> 0
      then update_rows (\<lambda>a. a_id a = v_allocation v \<and> a_status a = ''active'') (\<lambda>a. a\<lparr>a_status := ''exhausted''\<rparr>) (allocations s)
      else allocations s)"
  using assms(1)
proof (cases rule: apply_ticket_Inr)
  case (1 aid s1 s2 s3)
  note tr = TransferCurrency_fields [OF 1(3)] and basic = TransferCurrency_basic [OF 1(3)]
  note re = rematch_frame [OF 1(5), THEN nonmatch_fields]
  have led1: "ledger_ok s1" and f1: "funds (grants s1) (allocations s1) (bal s1)" and b1: "bal s1 = bal s"
    using assms(2) by (simp_all add: 1(2) accounts_ok_def ledger_ok_def net_def bal_def [abs_def])
  have same: "usage_events s2 = usage_events s \<and> ingestion_checkpoints s2 = ingestion_checkpoints s \<and> sessions s2 = sessions s"
    using basic 1(2) by (auto dest: nonledger_fields)
  have f2: "funds (grants s2) (allocations s2) (bal s2)"
    using tr f1 basic assms(3) by (simp add: funds_spend 1(2))
  have s3: "grants s3 = grants s2 \<and> bal s3 = bal s2 \<and> ledger_ok s3 \<and> usage_events s3 = usage_events s2 \<and>
      ingestion_checkpoints s3 = ingestion_checkpoints s2 \<and> sessions s3 = sessions s2 \<and>
      allocations s3 = (if bal s2 (AllocationAvailable, v_allocation v, v_currency v) \<le> 0
      then update_rows (\<lambda>a. a_id a = v_allocation v \<and> a_status a = ''active'') (\<lambda>a. a\<lparr>a_status := ''exhausted''\<rparr>) (allocations s2)
      else allocations s2)"
    using 1(4) exhaust_active_fields [of "v_allocation v" "v_currency v" s2 "()" s3] tr led1 by (auto split: if_splits)
  have f3: "funds (grants s3) (allocations s3) (bal s3)"
    using s3 f2 by (auto intro: funds_allocation_status)
  have b: "bal s' = bal s3" "ledger_ok s'"
    using re s3 bal_fields [of s' s3] ledger_ok_cong [of s' s3] by auto
  show ?thesis
    using re s3 f3 b tr basic same b1 by (auto simp: accounts_ok_def 1(2))
qed

text \<open>Everything a message that is next in line leaves behind.\<close>

lemma changeMetricCount_fields:
  "changeMetricCount kind a b d s = (Inr u, s') \<Longrightarrow>
   grants s' = grants s \<and> allocations s' = allocations s \<and> bal s' = bal s \<and> (ledger_ok s \<longrightarrow> ledger_ok s') \<and>
   usage_events s' = usage_events s \<and> ingestion_checkpoints s' = ingestion_checkpoints s \<and> sessions s' = sessions s"
  by (drule changeMetricCount_frame)
    (auto dest: nonmetric_fields nonledger_fields ledger_ok_frame intro!: ext bal_cong)

lemma ledger_ok_audit [simp]:
  "ledger_ok (s\<lparr>usage_events := u\<rparr>) = ledger_ok s" "ledger_ok (s\<lparr>ingestion_checkpoints := c\<rparr>) = ledger_ok s"
  "bal (s\<lparr>usage_events := u\<rparr>) = bal s" "bal (s\<lparr>ingestion_checkpoints := c\<rparr>) = bal s"
  by (simp_all add: ledger_ok_def net_def bal_def [abs_def])

lemma accounts_ok_audit [simp]:
  "accounts_ok (s\<lparr>ingestion_checkpoints := c\<rparr>) = accounts_ok s"
  by (simp add: accounts_ok_def)

lemma ingest_next_fields:
  assumes "ingest_next dec topic part offset raw s = (Inr u, s')" "accounts_ok s"
  defines "v \<equiv> classify dec raw s"
  shows "accounts_ok s'"
    and "bal s' = (if v_status v = ''applied''
      then move (AllocationAvailable, v_allocation v, v_currency v) (AllocationSpent, v_allocation v, v_currency v) (charge_of v) (bal s)
      else bal s)"
    and "grants s' = grants s" "sessions s' = sessions s"
    and "allocations s' = (if v_status v = ''applied'' \<and> bal s' (AllocationAvailable, v_allocation v, v_currency v) \<le> 0
      then update_rows (\<lambda>a. a_id a = v_allocation v \<and> a_status a = ''active'') (\<lambda>a. a\<lparr>a_status := ''exhausted''\<rparr>) (allocations s)
      else allocations s)"
    and "usage_events s' = usage_events s @ [audit_row (RawURLEncode (uuid s (tick s))) topic part offset raw v (clock s (Suc (tick s)))]"
    and "ingestion_checkpoints s' = AList.update (''kafka'', KafkaStream topic part) (offset + 1, []) (ingestion_checkpoints s)"
proof -
  from assms(1) have "accounts_ok s' \<and> bal s' = (if v_status v = ''applied''
      then move (AllocationAvailable, v_allocation v, v_currency v) (AllocationSpent, v_allocation v, v_currency v) (charge_of v) (bal s)
      else bal s) \<and> grants s' = grants s \<and> sessions s' = sessions s \<and>
    allocations s' = (if v_status v = ''applied'' \<and> bal s' (AllocationAvailable, v_allocation v, v_currency v) \<le> 0
      then update_rows (\<lambda>a. a_id a = v_allocation v \<and> a_status a = ''active'') (\<lambda>a. a\<lparr>a_status := ''exhausted''\<rparr>) (allocations s)
      else allocations s) \<and>
    usage_events s' = usage_events s @ [audit_row (RawURLEncode (uuid s (tick s))) topic part offset raw v (clock s (Suc (tick s)))] \<and>
    ingestion_checkpoints s' = AList.update (''kafka'', KafkaStream topic part) (offset + 1, []) (ingestion_checkpoints s)"
  proof (cases rule: ingest_next_Inr)
    case (1 w uid row s1 s2 s3)
    have w: "w = v" using 1(1) by (simp add: v_def)
    have ok1: "accounts_ok s1" and b1: "bal s1 = bal s"
      using assms(2) by (simp_all add: 1(7) accounts_ok_def)
    have s2: "grants s2 = grants s1 \<and> allocations s2 = allocations s1 \<and> bal s2 = bal s1 \<and> ledger_ok s2 \<and>
        usage_events s2 = usage_events s1 \<and> ingestion_checkpoints s2 = ingestion_checkpoints s1 \<and> sessions s2 = sessions s1"
      using 1(8) ok1 changeMetricCount_fields by (auto simp: count_quarantine_def accounts_ok_def split: if_splits)
    then have ok2: "accounts_ok s2" using ok1 by (simp add: accounts_ok_def)
    show ?thesis
    proof (cases "v_status v = ''applied''")
      case True
      then have "allocation_account (allocations s2) (v_allocation v) (v_currency v)"
        using s2 classify_account unfolding v_def by (simp add: 1(7))
      moreover have "apply_ticket uid v s2 = (Inr (), s3)" using 1(9) True by (simp add: w apply_verdict_def)
      ultimately show ?thesis
        using apply_ticket_fields [OF _ ok2, of uid v "()" s3] s2 True b1 by (simp add: 1(10,7,2,3) w)
    next
      case False
      then have "s3 = s2" using 1(9) False by (simp add: w apply_verdict_def)
      then show ?thesis using s2 ok2 False b1 by (simp add: 1(10,7,2,3) w)
    qed
  qed
  then show "accounts_ok s'"
    and "bal s' = (if v_status v = ''applied''
      then move (AllocationAvailable, v_allocation v, v_currency v) (AllocationSpent, v_allocation v, v_currency v) (charge_of v) (bal s)
      else bal s)"
    and "grants s' = grants s" "sessions s' = sessions s"
    and "allocations s' = (if v_status v = ''applied'' \<and> bal s' (AllocationAvailable, v_allocation v, v_currency v) \<le> 0
      then update_rows (\<lambda>a. a_id a = v_allocation v \<and> a_status a = ''active'') (\<lambda>a. a\<lparr>a_status := ''exhausted''\<rparr>) (allocations s)
      else allocations s)"
    and "usage_events s' = usage_events s @ [audit_row (RawURLEncode (uuid s (tick s))) topic part offset raw v (clock s (Suc (tick s)))]"
    and "ingestion_checkpoints s' = AList.update (''kafka'', KafkaStream topic part) (offset + 1, []) (ingestion_checkpoints s)"
    by simp_all
qed

section \<open>A sample message\<close>

text \<open>A decoder of one message, its ticket, and the database in which it is charged.\<close>

definition sample_ticket :: SignedTicketEvent where
  "sample_ticket = \<lparr>SessionID = ''state'', t_AuthID = ''AQIDBAUGcACAAAAAAAAAEQ'', t_App = ''app'', Pipeline = ''live'',
     RequestID = ''req'', ManifestID = [], Orchestrator = ''0x00000000000000000000000000000000000000aB'',
     t_PMSessionID = ''0x'' @ replicate 64 (CHR ''0''), ComputedFee = ''250'', ComputedFeeUSD = None, Sequence = 1,
     NumTickets = 2, Started = 0, Ended = 1700000000000, BillableSeconds = ''1'', Pixels = ''2''\<rparr>"

definition sample_decoder :: decoder where
  "sample_decoder = \<lparr>dec_envelope = (\<lambda>raw. if raw = ''m1'' \<or> raw = ''m2''
       then Some \<lparr>e_ID = ''ev'', e_Type = ''create_signed_ticket'', e_Data = ''d''\<rparr> else None),
     dec_ticket = (\<lambda>data. (data = ''d'', sample_ticket))\<rparr>"

definition sample_session :: session where
  "sample_session = \<lparr>s_id = ''AQIDBAUGcACAAAAAAAAAEQ'', s_allocation = sample_allocation_id,
     s_api_key = ''AQIDBAUGcACAAAAAAAAADA'', s_state_id = ''state'', s_app = ''app'', s_payment_type = ''live'',
     s_orchestrator = ''0x00000000000000000000000000000000000000ab'', s_status = ''active'',
     s_created = 1700000000016, s_last_seen = 1700000000016\<rparr>"

definition sample_active :: world where
  "sample_active = sample_ready\<lparr>tick := 18, sessions := [sample_session]\<rparr>"

definition sample_charged :: world where
  "sample_charged = snd (Ingest sample_decoder ''t'' 0 0 ''m1'' sample_active)"

text \<open>The same database after an earlier delivery of the event on another topic.\<close>

definition sample_recorded :: world where
  "sample_recorded = sample_active\<lparr>usage_events :=
     [audit_row ''u'' ''other'' 0 7 ''m1'' (verdict_of ''applied'' [] ''ev'' (Some ''ev'') sample_ticket) 5]\<rparr>"

lemma sample_active_accounts: "accounts_ok sample_active"
  using sample_ready_accounts by (simp add: sample_active_def accounts_ok_def)

lemma sample_charged_run: "Ingest sample_decoder ''t'' 0 0 ''m1'' sample_active = (Inr (), sample_charged)"
proof -
  have "fst (Ingest sample_decoder ''t'' 0 0 ''m1'' sample_active) = Inr ()" by code_simp
  then show ?thesis by (simp add: prod_eq_iff sample_charged_def)
qed

section \<open>Properties\<close>

lemma next_offset_advance:
  "ingestion_checkpoints s' = AList.update (''kafka'', st) (n, h) (ingestion_checkpoints s) \<Longrightarrow>
   next_offset st' s' = (if st' = st then n else next_offset st' s)"
  by (simp add: next_offset_def AList.update_conv')

lemma Ingest_past:
  assumes "0 \<le> part" "part \<le> 2147483647" "0 \<le> offset" "offset \<noteq> MaxInt64" "offset < next_offset (KafkaStream topic part) s"
  shows "Ingest dec topic part offset raw s = (Inr (), s)"
  using assms by (simp add: Ingest_def Write_def)

text \<open>
  C11: a message is consumed exactly once: a successful ingestion at the expected offset appends one
  audit row with the message's topic, partition, offset and bytes and advances that stream's
  checkpoint, and no other, by one; and delivering the same offset again, whatever the payload,
  then succeeds without changing anything.
\<close>

theorem Ingest_exactly_once:
  assumes "Ingest dec topic part offset raw s = (Inr u, s')" "accounts_ok s"
    and "offset = next_offset (KafkaStream topic part) s"
  shows "(\<exists>r. usage_events s' = usage_events s @ [r] \<and> u_topic r = topic \<and> u_partition r = part \<and>
      u_offset r = offset \<and> u_raw_payload r = raw) \<and>
    (\<forall>stream. next_offset stream s' =
      (if stream = KafkaStream topic part then offset + 1 else next_offset stream s)) \<and>
    Ingest dec' topic part offset raw' s' = (Inr (), s')"
proof -
  have r: "ingest_next dec topic part offset raw s = (Inr u, s')"
    and b: "0 \<le> part" "part \<le> 2147483647" "0 \<le> offset" "offset \<noteq> MaxInt64"
    using assms(1,3) by (auto simp: Ingest_Inr)
  note f = ingest_next_fields [OF r assms(2)]
  have n: "next_offset stream s' = (if stream = KafkaStream topic part then offset + 1 else next_offset stream s)" for stream
    by (rule next_offset_advance [OF f(7)])
  have "Ingest dec' topic part offset raw' s' = (Inr (), s')"
    by (rule Ingest_past [OF b]) (simp add: n)
  then show ?thesis using n f(6) by simp
qed

lemma Ingest_exactly_once_witness:
  "\<exists>s'. Ingest sample_decoder ''t'' 0 0 ''malformed'' sample_active = (Inr (), s') \<and>
    Ingest sample_decoder ''t'' 0 0 ''other'' s' = (Inr (), s') \<and> next_offset (KafkaStream ''t'' 0) s' = 1"
proof -
  let ?r = "Ingest sample_decoder ''t'' 0 0 ''malformed'' sample_active"
  have "fst ?r = Inr ()" by code_simp
  then have run: "?r = (Inr (), snd ?r)" by (simp add: prod_eq_iff)
  have n: "0 = next_offset (KafkaStream ''t'' 0) sample_active"
    by (simp add: next_offset_def sample_active_def sample_ready_def sample_def migrated_def)
  show ?thesis
    using Ingest_exactly_once [OF run sample_active_accounts n, of sample_decoder "''other''"] run by auto
qed

text \<open>
  Messages are applied in order: one that skips ahead of the checkpoint is refused with the gap
  error and nothing is written, one behind it is accepted without effect.
\<close>

lemma Ingest_in_order:
  assumes "0 \<le> part" "part \<le> 2147483647" "0 \<le> offset" "offset < MaxInt64"
  shows "(next_offset (KafkaStream topic part) s < offset \<longrightarrow>
      Ingest dec topic part offset raw s = (Inl (gap_error topic part (next_offset (KafkaStream topic part) s) offset), s)) \<and>
    (offset < next_offset (KafkaStream topic part) s \<longrightarrow> Ingest dec topic part offset raw s = (Inr (), s))"
  using assms Ingest_past [of part offset topic s dec raw] by (auto simp: Ingest_def Write_def rollback_def)

lemma Ingest_in_order_witness:
  "Ingest sample_decoder ''t'' 0 5 ''m1'' sample_active = (Inl (gap_error ''t'' 0 0 5), sample_active)"
proof -
  have n: "next_offset (KafkaStream ''t'' 0) sample_active = 0"
    by (simp add: next_offset_def sample_active_def sample_ready_def sample_def migrated_def)
  show ?thesis
    using Ingest_in_order [of 0 5 "''t''" sample_active sample_decoder "''m1''"] by (simp add: n)
qed

text \<open>
  C12: the charge of a message: balances change only when the message is a well-formed ticket with a
  new event id for a stored session it is bound to, and then exactly the ticket's cost in the
  allocation's currency moves from the available to the spent balance; an allocation left without
  balance is no longer active.
\<close>

theorem Ingest_charge:
  assumes "Ingest dec topic part offset raw s = (Inr u, s')" "accounts_ok s"
  shows "accounts_ok s' \<and> (bal s' = bal s \<or>
    (\<exists>env ev x a n. dec_envelope dec raw = Some env \<and> e_Type env = ''create_signed_ticket'' \<and>
       find_event (e_ID env) s = None \<and> dec_ticket dec (e_Data env) = (True, ev) \<and> ticket_valid s ev x a \<and>
       ticket_cost ev (a_currency a) n \<and> 0 \<le> n \<and>
       bal s' = move (AllocationAvailable, a_id a, a_currency a) (AllocationSpent, a_id a, a_currency a) n (bal s) \<and>
       (\<forall>a' \<in> set (allocations s'). a_id a' = a_id a \<and> a_status a' = ''active'' \<longrightarrow>
          0 < bal s' (AllocationAvailable, a_id a, a_currency a))))"
proof (cases "offset = next_offset (KafkaStream topic part) s")
  case False
  then have "s' = s" using assms(1) by (auto simp: Ingest_Inr)
  then show ?thesis using assms(2) by simp
next
  case True
  then have r: "ingest_next dec topic part offset raw s = (Inr u, s')" using assms(1) by (auto simp: Ingest_Inr)
  note f = ingest_next_fields [OF r assms(2)]
  show ?thesis
  proof (cases "v_status (classify dec raw s) = ''applied''")
    case False
    then show ?thesis using f(1,2) by simp
  next
    case applied: True
    then show ?thesis
    proof (cases rule: classify_applied)
      case (1 env ev x a n)
      have b: "bal s' = move (AllocationAvailable, a_id a, a_currency a) (AllocationSpent, a_id a, a_currency a) n (bal s)"
        using f(2) applied 1 by simp
      have "0 < bal s' (AllocationAvailable, a_id a, a_currency a)"
        if a': "a' \<in> set (allocations s')" "a_id a' = a_id a" "a_status a' = ''active''" for a'
      proof (rule ccontr)
        assume "\<not> 0 < bal s' (AllocationAvailable, a_id a, a_currency a)"
        then have "allocations s' = update_rows (\<lambda>r. a_id r = a_id a \<and> a_status r = ''active'')
            (\<lambda>r. r\<lparr>a_status := ''exhausted''\<rparr>) (allocations s)"
          using f(5) applied 1 by simp
        with a' show False by (auto dest!: in_update_rows split: if_splits)
      qed
      then show ?thesis
        using 1 b f(1) ticket_cost_nonneg [OF 1(15)] by blast
    qed
  qed
qed

lemma Ingest_charge_witness: "accounts_ok sample_charged"
  using Ingest_charge [OF sample_charged_run sample_active_accounts] by simp

text \<open>
  C13: no event is charged twice: once an event id is in the audit log, a message with that id,
  whatever its payload and wherever it is delivered, changes no balance.
\<close>

theorem Ingest_no_double_charge:
  assumes "Ingest dec topic part offset raw s = (Inr u, s')" "accounts_ok s"
    and "dec_envelope dec raw = Some env" "find_event (e_ID env) s \<noteq> None"
  shows "bal s' = bal s"
proof (cases "offset = next_offset (KafkaStream topic part) s")
  case False
  then show ?thesis using assms(1) by (auto simp: Ingest_Inr)
next
  case True
  then have r: "ingest_next dec topic part offset raw s = (Inr u, s')" using assms(1) by (auto simp: Ingest_Inr)
  have "v_status (classify dec raw s) \<noteq> ''applied''"
    using assms(3,4) by (auto simp: classify_def split: option.splits)
  then show ?thesis using ingest_next_fields(2) [OF r assms(2)] by simp
qed

lemma Ingest_no_double_charge_witness:
  "\<exists>s'. Ingest sample_decoder ''t'' 0 0 ''m2'' sample_recorded = (Inr (), s') \<and> bal s' = bal sample_recorded"
proof -
  let ?r = "Ingest sample_decoder ''t'' 0 0 ''m2'' sample_recorded"
  let ?env = "\<lparr>e_ID = ''ev'', e_Type = ''create_signed_ticket'', e_Data = ''d''\<rparr>"
  have "fst ?r = Inr ()" by code_simp
  then have run: "?r = (Inr (), snd ?r)" by (simp add: prod_eq_iff)
  have ok: "accounts_ok sample_recorded"
    using sample_active_accounts by (simp add: sample_recorded_def accounts_ok_def)
  have env: "dec_envelope sample_decoder ''m2'' = Some ?env" by (simp add: sample_decoder_def)
  have "find_event (e_ID ?env) sample_recorded \<noteq> None"
    by (simp add: sample_recorded_def find_event_def find_row_def)
  from Ingest_no_double_charge [OF run ok env this] run show ?thesis by blast
qed

end
