(* ===== verification/Settlements.thy ===== *)
theory Settlements
  imports Ingest "HOL-Library.List_Lexorder" "HOL-Library.Char_ord" "HOL-Library.Product_Lexorder"
begin

text \<open>
  \<open>internal/store/settlements.go\<close>: the escrow side of the ledger.  A chain stream starts from an
  opening snapshot (\<open>BootstrapChain\<close>), applies the ticket broker's events block by block
  (\<open>ApplyChain\<close>, \<open>applyEscrowEvent\<close>, \<open>applySettlement\<close>) and takes orphaned blocks back
  (\<open>Rewind\<close>).  The definitions come first, then \<open>chain_effect\<close>, the balances the stored rows stand
  for, and the proof that the posted balances always equal them.
\<close>

section \<open>Data\<close>

definition DepositFunded :: string where "DepositFunded = ''deposit_funded''"
definition ReserveFunded :: string where "ReserveFunded = ''reserve_funded''"
definition ReserveClaimed :: string where "ReserveClaimed = ''reserve_claimed''"
definition Withdrawal :: string where "Withdrawal = ''withdrawal''"
definition WinningTicketTransfer :: string where "WinningTicketTransfer = ''winning_ticket_transfer''"
definition WinningTicketRedeemed :: string where "WinningTicketRedeemed = ''winning_ticket_redeemed''"

lemmas event_types = DepositFunded_def ReserveFunded_def ReserveClaimed_def Withdrawal_def
  WinningTicketTransfer_def WinningTicketRedeemed_def

record Block =
  Number :: int
  Hash :: string

record EscrowSnapshot =
  sn_ChainID :: string
  sn_Contract :: string
  sn_Sender :: string
  sn_Deposit :: string
  sn_Reserve :: string

record Settlement =
  se_ChainID :: string
  se_Contract :: string
  se_TxHash :: string
  se_BlockHash :: string
  se_Sender :: string
  se_Recipient :: string
  se_FaceValue :: string
  se_PaidAmount :: string
  se_DepositPaid :: string
  se_ReservePaid :: string
  se_WinProb :: string
  se_Nonce :: string
  se_Rand :: string
  se_PMSessionID :: string
  se_AuxData :: string
  se_LogIndex :: int
  se_BlockNumber :: int
  se_Timestamp :: int

record EscrowEvent =
  ee_Type :: string
  ee_ChainID :: string
  ee_Contract :: string
  ee_TxHash :: string
  ee_BlockHash :: string
  ee_Sender :: string
  ee_Recipient :: string
  ee_Amount :: string
  ee_DepositAmount :: string
  ee_ReserveAmount :: string
  ee_LogIndex :: int
  ee_BlockNumber :: int
  ee_Timestamp :: int
  ee_Settlement :: "Settlement option"

definition treasuryOwner :: "string \<Rightarrow> string \<Rightarrow> string" where
  "treasuryOwner chain sender = chain @ '':'' @ sender"

definition escrowOwner :: "string \<Rightarrow> string \<Rightarrow> string \<Rightarrow> string" where
  "escrowOwner chain contract sender = chain @ '':'' @ contract @ '':'' @ sender"

section \<open>Rows\<close>

text \<open>The constraints of the \<open>INSERT\<close>s and \<open>UPDATE\<close>s of this component.\<close>

definition chain_id_text :: "string \<Rightarrow> bool" where
  "chain_id_text s \<longleftrightarrow> canonical s \<and> hd s \<noteq> CHR ''0''"

definition aux_text :: "string \<Rightarrow> bool" where
  "aux_text s \<longleftrightarrow> take 2 s = ''0x'' \<and> even (length s) \<and> (\<forall>c \<in> set (drop 2 s). is_lower_hex c)"

definition snapshot_block_ok :: "int \<Rightarrow> string \<Rightarrow> bool" where
  "snapshot_block_ok n h \<longleftrightarrow> n = - 1 \<and> h = [] \<or> 0 \<le> n \<and> hex_text 66 h"

definition insert_escrow_snapshot :: "escrow_snapshot_row \<Rightarrow> (world, unit) tx" where
  "insert_escrow_snapshot r = sql_write ''escrow_snapshots''
     (\<lambda>s. es_id r \<notin> es_id ` set (escrow_snapshots s) \<and>
          (es_stream r, es_sender r) \<notin> (\<lambda>x. (es_stream x, es_sender x)) ` set (escrow_snapshots s) \<and>
          chain_id_text (es_chain r) \<and> hex_text 42 (es_contract r) \<and> hex_text 42 (es_sender r) \<and>
          snapshot_block_ok (es_block_number r) (es_block_hash r) \<and>
          canonical (es_deposit r) \<and> canonical (es_reserve r))
     (\<lambda>s. s\<lparr>escrow_snapshots := escrow_snapshots s @ [r]\<rparr>)"

definition event_identity :: "broker_event_row \<Rightarrow> string \<times> string \<times> string \<times> string \<times> int" where
  "event_identity r = (be_chain r, be_contract r, be_block_hash r, be_tx_hash r, be_log_index r)"

definition optional_address :: "string option \<Rightarrow> bool" where
  "optional_address a = (case a of None \<Rightarrow> True | Some x \<Rightarrow> hex_text 42 x)"

definition insert_broker_event :: "broker_event_row \<Rightarrow> (world, unit) tx" where
  "insert_broker_event r = sql_write ''ticket_broker_events''
     (\<lambda>s. be_id r \<notin> be_id ` set (ticket_broker_events s) \<and>
          event_identity r \<notin> event_identity ` set (ticket_broker_events s) \<and>
          chain_id_text (be_chain r) \<and> hex_text 42 (be_contract r) \<and> hex_text 66 (be_tx_hash r) \<and>
          0 \<le> be_log_index r \<and> 0 \<le> be_block_number r \<and> hex_text 66 (be_block_hash r) \<and>
          oneOf (be_type r) [DepositFunded, ReserveFunded, ReserveClaimed, Withdrawal,
            WinningTicketTransfer, WinningTicketRedeemed] \<and>
          hex_text 42 (be_sender r) \<and> optional_address (be_recipient r) \<and> canonical (be_amount r) \<and>
          canonical (be_deposit r) \<and> canonical (be_reserve r))
     (\<lambda>s. s\<lparr>ticket_broker_events := ticket_broker_events s @ [r]\<rparr>)"

definition settlement_identity :: "settlement_row \<Rightarrow> string \<times> string \<times> string \<times> string \<times> int" where
  "settlement_identity r = (st_chain r, st_contract r, st_block_hash r, st_tx_hash r, st_log_index r)"

definition insert_settlement :: "settlement_row \<Rightarrow> (world, unit) tx" where
  "insert_settlement r = sql_write ''settlements''
     (\<lambda>s. st_id r \<notin> st_id ` set (settlements s) \<and>
          settlement_identity r \<notin> settlement_identity ` set (settlements s) \<and>
          chain_id_text (st_chain r) \<and> hex_text 42 (st_contract r) \<and> hex_text 66 (st_tx_hash r) \<and>
          0 \<le> st_log_index r \<and> 0 \<le> st_block_number r \<and> hex_text 66 (st_block_hash r) \<and>
          hex_text 42 (st_sender r) \<and> hex_text 42 (st_recipient r) \<and>
          canonical (st_face r) \<and> canonical (st_paid r) \<and> canonical (st_deposit_paid r) \<and>
          canonical (st_reserve_paid r) \<and> canonical (st_win_prob r) \<and> canonical (st_nonce r) \<and>
          canonical (st_rand r) \<and> hex_text 66 (st_pm_session r) \<and> aux_text (st_aux_data r))
     (\<lambda>s. s\<lparr>settlements := settlements s @ [r]\<rparr>)"

definition insert_chain_block :: "string \<Rightarrow> Block \<Rightarrow> (world, unit) tx" where
  "insert_chain_block stream b = sql_write ''chain_blocks''
     (\<lambda>s. (stream, Number b) \<notin> fst ` set (chain_blocks s) \<and> 0 \<le> Number b \<and> hex_text 66 (Hash b))
     (\<lambda>s. s\<lparr>chain_blocks := chain_blocks s @ [((stream, Number b), Hash b)]\<rparr>)"

definition upsert_chain_block :: "string \<Rightarrow> Block \<Rightarrow> (world, unit) tx" where
  "upsert_chain_block stream b = sql_write ''chain_blocks''
     (\<lambda>s. 0 \<le> Number b \<and> hex_text 66 (Hash b))
     (\<lambda>s. s\<lparr>chain_blocks := AList.update (stream, Number b) (Hash b) (chain_blocks s)\<rparr>)"

definition delete_blocks :: "string \<Rightarrow> (int \<Rightarrow> bool) \<Rightarrow> (world, unit) tx" where
  "delete_blocks stream P =
     modify (\<lambda>s. s\<lparr>chain_blocks := filter (\<lambda>((st, n), h). \<not> (st = stream \<and> P n)) (chain_blocks s)\<rparr>)"

section \<open>Opening balances\<close>

definition register_bucket :: "string \<Rightarrow> string \<Rightarrow> account \<Rightarrow> (world, unit) tx" where
  "register_bucket sid owner account =
     bindE (Balance account owner) (\<lambda>balance.
       thenE (sql_write ''metric_balances''
           (\<lambda>s. (account, sid, ''eth'') \<notin> fst ` set (metric_balances s))
           (\<lambda>s. s\<lparr>metric_balances := metric_balances s @ [((account, sid, ''eth''), owner, int_str balance)]\<rparr>))
         (thenE (changeMetricAmount (account_name account) ''eth'' balance)
           (changeMetricCount ''escrow_unfunded_signers'' (drop 7 (account_name account)) []
              (boolCount (balance = 0)))))"

definition registerEscrowMetrics :: "string \<Rightarrow> string \<Rightarrow> (world, unit) tx" where
  "registerEscrowMetrics sid owner = forE [EscrowDeposit, EscrowReserve] (register_bucket sid owner)"

definition new_escrow_snapshot :: "string \<Rightarrow> string \<Rightarrow> Block \<Rightarrow> EscrowSnapshot \<Rightarrow> int \<Rightarrow> int \<Rightarrow> int \<Rightarrow> escrow_snapshot_row" where
  "new_escrow_snapshot sid stream anchor sn deposit reserve now =
     \<lparr>es_id = sid, es_stream = stream, es_chain = sn_ChainID sn, es_contract = sn_Contract sn,
      es_sender = sn_Sender sn, es_block_number = Number anchor, es_block_hash = Hash anchor,
      es_deposit = int_str deposit, es_reserve = int_str reserve, es_created = now\<rparr>"

definition open_snapshot :: "string \<Rightarrow> Block \<Rightarrow> EscrowSnapshot \<Rightarrow> (world, unit) tx" where
  "open_snapshot stream anchor sn =
     bindE (liftE (Amount (sn_Deposit sn))) (\<lambda>deposit.
     bindE (liftE (Amount (sn_Reserve sn))) (\<lambda>reserve.
     bindE ID (\<lambda>sid. bindE NowMs (\<lambda>now.
       thenE (insert_escrow_snapshot (new_escrow_snapshot sid stream anchor sn deposit reserve now))
         (let treasury = treasuryOwner (sn_ChainID sn) (sn_Sender sn);
              escrow = escrowOwner (sn_ChainID sn) (sn_Contract sn) (sn_Sender sn) in
          thenE (registerEscrowMetrics sid escrow)
           (thenE (Transfer (''snapshot:'' @ sid @ '':deposit'') ''opening deposit'' ''escrow_snapshot'' sid
                     TreasuryCash treasury EscrowDeposit escrow deposit)
             (Transfer (''snapshot:'' @ sid @ '':reserve'') ''opening reserve'' ''escrow_snapshot'' sid
                TreasuryCash treasury EscrowReserve escrow reserve)))))))"

definition anchor_block :: "string \<Rightarrow> Block \<Rightarrow> (world, unit) tx" where
  "anchor_block stream anchor =
     (if 0 \<le> Number anchor then
        if Hash anchor = [] then fail (PlainError ''snapshot anchor hash required'')
        else insert_chain_block stream anchor
      else if Number anchor \<noteq> - 1 \<or> Hash anchor \<noteq> [] then fail (PlainError ''invalid pre-genesis snapshot anchor'')
      else ret ())"

definition BootstrapChain :: "string \<Rightarrow> Block \<Rightarrow> EscrowSnapshot list \<Rightarrow> (world, unit) tx" where
  "BootstrapChain stream anchor snapshots =
     (if snapshots = [] then fail (PlainError ''empty opening snapshot'')
      else Write (thenE (anchor_block stream anchor)
        (thenE (forE snapshots (open_snapshot stream anchor))
          (SetCheckpoint ''chain'' stream (i64 (Number anchor + 1)) (Hash anchor)))))"

section \<open>Settlements\<close>

definition displayETH :: "int \<Rightarrow> string" where
  "displayETH amount = (case WeiToETH (int_str amount) of
     Inl e \<Rightarrow> ''invalid ETH amount'' | Inr value \<Rightarrow> value @ '' ETH'')"

definition requireBalance :: "account \<Rightarrow> string \<Rightarrow> int \<Rightarrow> (world, unit) tx" where
  "requireBalance account owner amount =
     bindE (Balance account owner) (\<lambda>balance.
       if balance < amount
       then fail (PlainError (''insufficient '' @ account_name account @ '' balance: have '' @ displayETH balance @
              '', need '' @ displayETH amount))
       else ret ())"

definition requireExactBalance :: "account \<Rightarrow> string \<Rightarrow> int \<Rightarrow> (world, unit) tx" where
  "requireExactBalance account owner amount =
     bindE (Balance account owner) (\<lambda>balance.
       if balance \<noteq> amount
       then fail (PlainError (account_name account @ '' balance mismatch: have '' @ displayETH balance @
              '', event reports '' @ displayETH amount))
       else ret ())"

definition settlement_amounts :: "int \<Rightarrow> int \<Rightarrow> (string \<times> int) list" where
  "settlement_amounts face paid =
     [(''settlement_face_value'', face), (''settlement_paid'', paid),
      (''settlement_shortfall'', if paid < face then face - paid else 0)]"

definition updateSettlementMetrics :: "string \<Rightarrow> string \<Rightarrow> string \<Rightarrow> int \<Rightarrow> int \<Rightarrow> (world, unit) tx" where
  "updateSettlementMetrics old new match face paid =
     (if old = new then ret ()
      else let sign = boolCount (new = ''settled'') - boolCount (old = ''settled'') in
        thenE (if old \<noteq> [] then changeMetricCount ''settlements'' old match (- 1) else ret ())
          (thenE (changeMetricCount ''settlements'' new match 1)
            (thenE (forE (settlement_amounts face paid) (\<lambda>(name, n). changeMetricAmount name ''eth'' (n * sign)))
              (changeMetricCount ''settlements_underpaid'' [] []
                 (sign * boolCount (0 < (if paid < face then face - paid else 0)))))))"

definition find_settlement :: "Settlement \<Rightarrow> world \<Rightarrow> settlement_row option" where
  "find_settlement x s = find_row (\<lambda>r. settlement_identity r =
     (se_ChainID x, se_Contract x, se_BlockHash x, se_TxHash x, se_LogIndex x)) (settlements s)"

definition settlement_differs :: "Settlement \<Rightarrow> settlement_row \<Rightarrow> bool" where
  "settlement_differs x r \<longleftrightarrow> st_block_number r \<noteq> se_BlockNumber x \<or> st_sender r \<noteq> se_Sender x \<or>
     st_recipient r \<noteq> se_Recipient x \<or> st_face r \<noteq> se_FaceValue x \<or> st_paid r \<noteq> se_PaidAmount x \<or>
     st_deposit_paid r \<noteq> se_DepositPaid x \<or> st_reserve_paid r \<noteq> se_ReservePaid x \<or>
     st_win_prob r \<noteq> se_WinProb x \<or> st_nonce r \<noteq> se_Nonce x \<or> st_rand r \<noteq> se_Rand x \<or>
     st_pm_session r \<noteq> se_PMSessionID x \<or> st_aux_data r \<noteq> se_AuxData x"

definition new_settlement :: "string \<Rightarrow> int \<Rightarrow> Settlement \<Rightarrow> settlement_row" where
  "new_settlement i now x =
     \<lparr>st_id = i, st_chain = se_ChainID x, st_contract = se_Contract x, st_tx_hash = se_TxHash x,
      st_log_index = se_LogIndex x, st_block_number = se_BlockNumber x, st_block_hash = se_BlockHash x,
      st_sender = se_Sender x, st_recipient = se_Recipient x, st_face = se_FaceValue x,
      st_paid = se_PaidAmount x, st_deposit_paid = se_DepositPaid x, st_reserve_paid = se_ReservePaid x,
      st_win_prob = se_WinProb x, st_nonce = se_Nonce x, st_rand = se_Rand x,
      st_pm_session = se_PMSessionID x, st_aux_data = se_AuxData x, st_session = None,
      st_match = ''unmatched'', st_status = ''settled'', st_generation = 0, st_created = now,
      st_settled_at = se_Timestamp x\<rparr>"

text \<open>\<open>INSERT INTO settlements\<close>, or the revival of an orphaned row: its identifier and generation.\<close>

definition insert_new_settlement :: "Settlement \<Rightarrow> (world, string \<times> int) tx" where
  "insert_new_settlement x =
     bindE ID (\<lambda>i. bindE NowMs (\<lambda>now. thenE (insert_settlement (new_settlement i now x)) (ret (i, 0))))"

definition revive_settlement :: "settlement_row \<Rightarrow> Settlement \<Rightarrow> (world, string \<times> int) tx" where
  "revive_settlement r x = (let generation = i64 (st_generation r + 1) in
     thenE (sql_write ''settlements'' (\<lambda>s. 0 \<le> generation)
        (\<lambda>s. s\<lparr>settlements := update_rows (\<lambda>q. st_id q = st_id r)
           (\<lambda>q. q\<lparr>st_status := ''settled'', st_generation := generation, st_settled_at := se_Timestamp x\<rparr>)
           (settlements s)\<rparr>))
       (ret (st_id r, generation)))"

text \<open>The payments of a redemption: the deposit first, then the reserve, to the settled spend.\<close>

definition pay_settlement :: "Settlement \<Rightarrow> int \<Rightarrow> int \<Rightarrow> int \<Rightarrow> string \<Rightarrow> int \<Rightarrow> (world, unit) tx" where
  "pay_settlement x faceValue depositPaid reservePaid i generation =
     (let escrow = escrowOwner (se_ChainID x) (se_Contract x) (se_Sender x);
          spend = treasuryOwner (se_ChainID x) (se_Sender x);
          key = ''settle:'' @ i @ '':'' @ int_str generation in
      bindE (Balance EscrowDeposit escrow) (\<lambda>depositBalance.
        let expectedDeposit = (if depositBalance < faceValue then depositBalance else faceValue) in
        if depositPaid \<noteq> expectedDeposit
        then fail (PlainError (''redemption deposit payment mismatch: have '' @ displayETH depositPaid @
               '', expected '' @ displayETH expectedDeposit))
        else thenE (wrapE ''redemption reserve'' (requireBalance EscrowReserve escrow reservePaid))
          (thenE (Transfer (key @ '':deposit'') ''winning ticket deposit payment'' ''settlement'' i
                    EscrowDeposit escrow TreasurySettledSpend spend depositPaid)
            (thenE (Transfer (key @ '':reserve'') ''winning ticket reserve payment'' ''settlement'' i
                      EscrowReserve escrow TreasurySettledSpend spend reservePaid)
              (rematch (se_PMSessionID x) (se_Recipient x))))))"

text \<open>A redemption that is not settled yet, after its row (if any) has been looked up.\<close>

definition settle :: "Settlement \<Rightarrow> int \<Rightarrow> int \<Rightarrow> int \<Rightarrow> int \<Rightarrow> settlement_row option \<Rightarrow> (world, unit) tx" where
  "settle x faceValue paid depositPaid reservePaid row =
     bindE (case row of None \<Rightarrow> insert_new_settlement x | Some r \<Rightarrow> revive_settlement r x) (\<lambda>(i, generation).
       thenE (updateSettlementMetrics (case row of None \<Rightarrow> [] | Some r \<Rightarrow> st_status r) ''settled''
                (case row of None \<Rightarrow> ''unmatched'' | Some r \<Rightarrow> st_match r) faceValue paid)
         (pay_settlement x faceValue depositPaid reservePaid i generation))"

definition applySettlement :: "Settlement \<Rightarrow> (world, unit) tx" where
  "applySettlement x =
     bindE (liftE (Amount (se_FaceValue x))) (\<lambda>faceValue.
     bindE (liftE (Amount (se_PaidAmount x))) (\<lambda>paid.
     bindE (liftE (Amount (se_DepositPaid x))) (\<lambda>depositPaid.
     bindE (liftE (Amount (se_ReservePaid x))) (\<lambda>reservePaid.
       if depositPaid + reservePaid \<noteq> paid \<or> faceValue < paid
       then fail (PlainError ''invalid redemption payment split'')
       else bindE (gets (find_settlement x)) (\<lambda>row. case row of
           None \<Rightarrow> settle x faceValue paid depositPaid reservePaid None
         | Some r \<Rightarrow>
             if settlement_differs x r
             then fail (PlainError ''settlement log identity reused with different data'')
             else if st_status r = ''settled'' then ret ()
             else settle x faceValue paid depositPaid reservePaid (Some r))))))"

section \<open>Escrow events\<close>

definition find_broker_event :: "EscrowEvent \<Rightarrow> world \<Rightarrow> broker_event_row option" where
  "find_broker_event x s = find_row (\<lambda>r. event_identity r =
     (ee_ChainID x, ee_Contract x, ee_BlockHash x, ee_TxHash x, ee_LogIndex x)) (ticket_broker_events s)"

definition event_differs :: "EscrowEvent \<Rightarrow> broker_event_row \<Rightarrow> bool" where
  "event_differs x r \<longleftrightarrow> be_type r \<noteq> ee_Type x \<or> be_sender r \<noteq> ee_Sender x \<or>
     (case be_recipient r of None \<Rightarrow> [] | Some a \<Rightarrow> a) \<noteq> ee_Recipient x \<or> be_amount r \<noteq> ee_Amount x \<or>
     be_deposit r \<noteq> ee_DepositAmount x \<or> be_reserve r \<noteq> ee_ReserveAmount x \<or>
     be_block_number r \<noteq> ee_BlockNumber x"

definition new_broker_event :: "string \<Rightarrow> int \<Rightarrow> EscrowEvent \<Rightarrow> broker_event_row" where
  "new_broker_event i now x =
     \<lparr>be_id = i, be_chain = ee_ChainID x, be_contract = ee_Contract x, be_tx_hash = ee_TxHash x,
      be_log_index = ee_LogIndex x, be_block_number = ee_BlockNumber x, be_block_hash = ee_BlockHash x,
      be_type = ee_Type x, be_sender = ee_Sender x,
      be_recipient = (if ee_Recipient x = [] then None else Some (ee_Recipient x)),
      be_amount = ee_Amount x, be_deposit = ee_DepositAmount x, be_reserve = ee_ReserveAmount x,
      be_status = ''canonical'', be_generation = 0, be_created = now, be_occurred = ee_Timestamp x\<rparr>"

definition redeem :: "EscrowEvent \<Rightarrow> (world, unit) tx" where
  "redeem x = (case ee_Settlement x of
     None \<Rightarrow> fail (PlainError ''redemption is missing settlement data'')
   | Some st \<Rightarrow> applySettlement st)"

definition withdraw :: "string \<Rightarrow> string \<Rightarrow> string \<Rightarrow> EscrowEvent \<Rightarrow> string \<Rightarrow> (world, unit) tx" where
  "withdraw key treasury escrow x i =
     bindE (liftE (Amount (ee_DepositAmount x))) (\<lambda>deposit.
     bindE (liftE (Amount (ee_ReserveAmount x))) (\<lambda>reserve.
       thenE (wrapE ''withdrawal deposit'' (requireExactBalance EscrowDeposit escrow deposit))
         (thenE (wrapE ''withdrawal reserve'' (requireExactBalance EscrowReserve escrow reserve))
           (thenE (Transfer (key @ '':deposit'') ''deposit withdrawn'' ''escrow_event'' i
                     EscrowDeposit escrow TreasuryCash treasury deposit)
             (Transfer (key @ '':reserve'') ''reserve withdrawn'' ''escrow_event'' i
                EscrowReserve escrow TreasuryCash treasury reserve)))))"

text \<open>The \<open>switch\<close> on the event's type.  The last branch is dead code: the row's \<open>CHECK\<close> admits
  only the six types.\<close>

definition post_event :: "string \<Rightarrow> int \<Rightarrow> EscrowEvent \<Rightarrow> (world, unit) tx" where
  "post_event i generation x =
     (let treasury = treasuryOwner (ee_ChainID x) (ee_Sender x);
          escrow = escrowOwner (ee_ChainID x) (ee_Contract x) (ee_Sender x);
          key = ''event:'' @ i @ '':'' @ int_str generation in
      if ee_Type x = DepositFunded then
        bindE (liftE (Amount (ee_Amount x))) (\<lambda>n. Transfer key ''deposit funded'' ''escrow_event'' i
           TreasuryCash treasury EscrowDeposit escrow n)
      else if ee_Type x = ReserveFunded then
        bindE (liftE (Amount (ee_Amount x))) (\<lambda>n. Transfer key ''reserve funded'' ''escrow_event'' i
           TreasuryCash treasury EscrowReserve escrow n)
      else if ee_Type x = Withdrawal then withdraw key treasury escrow x i
      else if ee_Type x = WinningTicketRedeemed then redeem x
      else if ee_Type x = ReserveClaimed \<or> ee_Type x = WinningTicketTransfer then ret ()
      else fail (PlainError (''unknown chain event '' @ [CHR 0x22] @ ee_Type x @ [CHR 0x22])))"

definition insert_new_event :: "EscrowEvent \<Rightarrow> (world, string \<times> int) tx" where
  "insert_new_event x =
     bindE ID (\<lambda>i. bindE NowMs (\<lambda>now. thenE (insert_broker_event (new_broker_event i now x)) (ret (i, 0))))"

definition revive_event :: "broker_event_row \<Rightarrow> EscrowEvent \<Rightarrow> (world, string \<times> int) tx" where
  "revive_event r x = (let generation = i64 (be_generation r + 1) in
     thenE (sql_write ''ticket_broker_events'' (\<lambda>s. 0 \<le> generation)
        (\<lambda>s. s\<lparr>ticket_broker_events := update_rows (\<lambda>q. be_id q = be_id r)
           (\<lambda>q. q\<lparr>be_status := ''canonical'', be_generation := generation, be_occurred := ee_Timestamp x\<rparr>)
           (ticket_broker_events s)\<rparr>))
       (ret (be_id r, generation)))"

definition applyEscrowEvent :: "EscrowEvent \<Rightarrow> (world, unit) tx" where
  "applyEscrowEvent x =
     bindE (gets (find_broker_event x)) (\<lambda>row. case row of
         None \<Rightarrow> bindE (insert_new_event x) (\<lambda>(i, generation). post_event i generation x)
       | Some r \<Rightarrow>
           if event_differs x r
           then fail (PlainError ''chain log identity reused with different event data'')
           else if be_status r = ''canonical''
           then (if ee_Type x = WinningTicketRedeemed then redeem x else ret ())
           else bindE (revive_event r x) (\<lambda>(i, generation). post_event i generation x))"

definition ApplyChain :: "string \<Rightarrow> Block list \<Rightarrow> EscrowEvent list \<Rightarrow> int \<Rightarrow> (world, unit) tx" where
  "ApplyChain stream blocks events lookback =
     (if blocks = [] then fail (PlainError ''empty block batch'')
      else Write (thenE (forE blocks (upsert_chain_block stream))
        (thenE (forE events applyEscrowEvent)
          (thenE (SetCheckpoint ''chain'' stream (i64 (Number (last blocks) + 1)) (Hash (last blocks)))
            (delete_blocks stream (\<lambda>n. n < i64 (Number (last blocks) - lookback)))))))"

section \<open>Reorganisations\<close>

text \<open>\<open>ORDER BY block_number DESC, log_index DESC\<close>; rows that tie on both keep the order of the table.\<close>

definition newest_first :: "('a \<Rightarrow> int) \<Rightarrow> ('a \<Rightarrow> int) \<Rightarrow> 'a list \<Rightarrow> 'a list" where
  "newest_first blk idx rows = sort_key (\<lambda>r. (- blk r, - idx r)) rows"

definition settlements_after :: "string \<Rightarrow> string \<Rightarrow> int \<Rightarrow> world \<Rightarrow> settlement_row list" where
  "settlements_after chain contract n s = newest_first st_block_number st_log_index
     (filter (\<lambda>r. st_chain r = chain \<and> st_contract r = contract \<and> st_status r = ''settled'' \<and>
        n < st_block_number r) (settlements s))"

definition events_after :: "string \<Rightarrow> string \<Rightarrow> int \<Rightarrow> world \<Rightarrow> broker_event_row list" where
  "events_after chain contract n s = newest_first be_block_number be_log_index
     (filter (\<lambda>r. be_chain r = chain \<and> be_contract r = contract \<and> be_status r = ''canonical'' \<and>
        n < be_block_number r) (ticket_broker_events s))"

definition orphan_settlement :: "string \<Rightarrow> world \<Rightarrow> world" where
  "orphan_settlement i s = s\<lparr>settlements := update_rows (\<lambda>q. st_id q = i) (\<lambda>q. q\<lparr>st_status := ''orphaned''\<rparr>) (settlements s)\<rparr>"

definition reverse_settlement :: "string \<Rightarrow> string \<Rightarrow> settlement_row \<Rightarrow> (world, unit) tx" where
  "reverse_settlement chain contract r =
     bindE (liftE (Amount (st_deposit_paid r))) (\<lambda>deposit.
     bindE (liftE (Amount (st_reserve_paid r))) (\<lambda>reserve.
       let escrow = escrowOwner chain contract (st_sender r);
           spend = treasuryOwner chain (st_sender r);
           key = ''orphan:settle:'' @ st_id r @ '':'' @ int_str (st_generation r) in
       thenE (Transfer (key @ '':deposit'') ''orphaned deposit payment reversal'' ''settlement'' (st_id r)
                TreasurySettledSpend spend EscrowDeposit escrow deposit)
         (thenE (Transfer (key @ '':reserve'') ''orphaned reserve payment reversal'' ''settlement'' (st_id r)
                   TreasurySettledSpend spend EscrowReserve escrow reserve)
           (bindE (liftE (Amount (st_face r))) (\<lambda>face.
            bindE (liftE (Amount (st_paid r))) (\<lambda>paid.
              thenE (updateSettlementMetrics ''settled'' ''orphaned'' (st_match r) face paid)
                (modify (orphan_settlement (st_id r)))))))))"

definition orphan_event :: "string \<Rightarrow> world \<Rightarrow> world" where
  "orphan_event i s = s\<lparr>ticket_broker_events := update_rows (\<lambda>q. be_id q = i) (\<lambda>q. q\<lparr>be_status := ''orphaned''\<rparr>) (ticket_broker_events s)\<rparr>"

definition unpost_event :: "string \<Rightarrow> string \<Rightarrow> broker_event_row \<Rightarrow> (world, unit) tx" where
  "unpost_event chain contract r =
     (let treasury = treasuryOwner chain (be_sender r);
          escrow = escrowOwner chain contract (be_sender r);
          key = ''orphan:event:'' @ be_id r @ '':'' @ int_str (be_generation r) in
      if be_type r = DepositFunded \<or> be_type r = ReserveFunded then
        bindE (liftE (Amount (be_amount r))) (\<lambda>amount.
          Transfer key ''orphaned funding reversal'' ''escrow_event'' (be_id r)
            (if be_type r = ReserveFunded then EscrowReserve else EscrowDeposit) escrow
            TreasuryCash treasury amount)
      else if be_type r = Withdrawal then
        bindE (liftE (Amount (be_deposit r))) (\<lambda>deposit.
        bindE (liftE (Amount (be_reserve r))) (\<lambda>reserve.
          thenE (Transfer (key @ '':deposit'') ''orphaned deposit withdrawal reversal'' ''escrow_event'' (be_id r)
                   TreasuryCash treasury EscrowDeposit escrow deposit)
            (Transfer (key @ '':reserve'') ''orphaned reserve withdrawal reversal'' ''escrow_event'' (be_id r)
               TreasuryCash treasury EscrowReserve escrow reserve)))
      else ret ())"

definition reverse_event :: "string \<Rightarrow> string \<Rightarrow> broker_event_row \<Rightarrow> (world, unit) tx" where
  "reverse_event chain contract r =
     thenE (unpost_event chain contract r) (modify (orphan_event (be_id r)))"

text \<open>\<open>SELECT min(block_number)\<close>: no snapshot gives \<open>NULL\<close>, which does not scan into an \<open>int64\<close>.\<close>

definition opening_anchor :: "string \<Rightarrow> world \<Rightarrow> int option" where
  "opening_anchor stream s =
     (case map es_block_number (filter (\<lambda>r. es_stream r = stream) (escrow_snapshots s)) of
        [] \<Rightarrow> None | n # ns \<Rightarrow> Some (fold min ns n))"

definition rewind_to :: "string \<Rightarrow> string \<Rightarrow> string \<Rightarrow> Block \<Rightarrow> (world, unit) tx" where
  "rewind_to stream chain contract ancestor =
     bindE (gets (settlements_after chain contract (Number ancestor))) (\<lambda>reversals.
     thenE (forE reversals (reverse_settlement chain contract))
      (bindE (gets (events_after chain contract (Number ancestor))) (\<lambda>events.
        thenE (forE events (reverse_event chain contract))
         (thenE (delete_blocks stream (\<lambda>n. Number ancestor < n))
           (SetCheckpoint ''chain'' stream (i64 (Number ancestor + 1)) (Hash ancestor))))))"

definition Rewind :: "string \<Rightarrow> string \<Rightarrow> string \<Rightarrow> Block \<Rightarrow> (world, unit) tx" where
  "Rewind stream chain contract ancestor =
     Write (bindE (gets (opening_anchor stream)) (\<lambda>row. case row of
         None \<Rightarrow> fail (PlainError ''sql: Scan error on column index 0: converting NULL to int64 is unsupported'')
       | Some anchor \<Rightarrow>
           if Number ancestor < anchor then fail ErrEscrowSnapshotReorg
           else rewind_to stream chain contract ancestor))"

section \<open>Reading\<close>

definition Blocks :: "string \<Rightarrow> world \<Rightarrow> Block list" where
  "Blocks stream s = map (\<lambda>((st, n), h). \<lparr>Number = n, Hash = h\<rparr>)
     (sort_key (\<lambda>((st, n), h). - n) (filter (\<lambda>((st, n), h). st = stream) (chain_blocks s)))"

definition report_line :: "escrow_snapshot_row \<Rightarrow> (world, (string \<times> string) list) tx" where
  "report_line r =
     (let owner = escrowOwner (es_chain r) (es_contract r) (es_sender r) in
      bindE (Balance EscrowDeposit owner) (\<lambda>deposit.
      bindE (Balance EscrowReserve owner) (\<lambda>reserve.
      bindE (Checkpoint ''chain'' (es_stream r)) (\<lambda>(next, hash, found).
        ret [(''chain_id'', es_chain r), (''contract_address'', es_contract r), (''sender'', es_sender r),
             (''confirmed_through_block'', int_str (if found then i64 (next - 1) else es_block_number r)),
             (''deposit_balance_wei'', int_str deposit), (''reserve_balance_wei'', int_str reserve),
             (''total_balance_wei'', int_str (deposit + reserve))]))))"

definition EscrowReport :: "(world, (string \<times> string) list list) tx" where
  "EscrowReport = bindE (gets (\<lambda>s. sort_key (\<lambda>r. (es_chain r, es_contract r, es_sender r)) (escrow_snapshots s)))
     (\<lambda>rows. mapE rows report_line)"

end
