(* ===== verification/Escrow.thy ===== *)
theory Escrow
  imports Settlements
begin

text \<open>
  The correctness of the escrow ledger of \<open>Settlements\<close>.  \<open>chain_effect\<close> is the abstract
  specification: the balance of a treasury or escrow account as the sum of what the opening
  snapshots, the canonical events and the settled redemptions stand for.  \<open>escrow_ok\<close> says that
  the posted balances equal it; every chain operation preserves it, so a reorganisation, which
  only flips rows to \<open>orphaned\<close>, takes the balances back exactly.
\<close>

section \<open>The balances the rows stand for\<close>

definition pay :: "account \<times> string \<times> string \<Rightarrow> account \<times> string \<times> string \<Rightarrow> int \<Rightarrow> balances" where
  "pay d c n k = (if k = c then n else 0) - (if k = d then n else 0)"

definition eth :: "account \<Rightarrow> string \<Rightarrow> account \<times> string \<times> string" where
  "eth a owner = (a, owner, ''eth'')"

definition snapshot_effect :: "escrow_snapshot_row \<Rightarrow> balances" where
  "snapshot_effect r k =
     (let treasury = eth TreasuryCash (treasuryOwner (es_chain r) (es_sender r));
          owner = escrowOwner (es_chain r) (es_contract r) (es_sender r) in
      pay treasury (eth EscrowDeposit owner) (units_val (es_deposit r)) k +
      pay treasury (eth EscrowReserve owner) (units_val (es_reserve r)) k)"

definition event_effect :: "broker_event_row \<Rightarrow> balances" where
  "event_effect r k =
     (let treasury = eth TreasuryCash (treasuryOwner (be_chain r) (be_sender r));
          owner = escrowOwner (be_chain r) (be_contract r) (be_sender r) in
      if be_status r \<noteq> ''canonical'' then 0
      else if be_type r = DepositFunded then pay treasury (eth EscrowDeposit owner) (units_val (be_amount r)) k
      else if be_type r = ReserveFunded then pay treasury (eth EscrowReserve owner) (units_val (be_amount r)) k
      else if be_type r = Withdrawal then
        pay (eth EscrowDeposit owner) treasury (units_val (be_deposit r)) k +
        pay (eth EscrowReserve owner) treasury (units_val (be_reserve r)) k
      else 0)"

definition settlement_effect :: "settlement_row \<Rightarrow> balances" where
  "settlement_effect r k =
     (let spend = eth TreasurySettledSpend (treasuryOwner (st_chain r) (st_sender r));
          owner = escrowOwner (st_chain r) (st_contract r) (st_sender r) in
      if st_status r \<noteq> ''settled'' then 0
      else pay (eth EscrowDeposit owner) spend (units_val (st_deposit_paid r)) k +
        pay (eth EscrowReserve owner) spend (units_val (st_reserve_paid r)) k)"

definition chain_effect :: "world \<Rightarrow> balances" where
  "chain_effect s k = (\<Sum>r\<leftarrow>escrow_snapshots s. snapshot_effect r k) +
     (\<Sum>r\<leftarrow>ticket_broker_events s. event_effect r k) + (\<Sum>r\<leftarrow>settlements s. settlement_effect r k)"

fun chain_account :: "account \<Rightarrow> bool" where
  "chain_account TreasuryCash = True"
| "chain_account TreasurySettledSpend = True"
| "chain_account EscrowDeposit = True"
| "chain_account EscrowReserve = True"
| "chain_account _ = False"

text \<open>What a posted balance has beyond what the rows stand for.\<close>

definition gap :: "world \<Rightarrow> balances" where
  "gap s k = bal s k - chain_effect s k"

definition escrow_ok :: "world \<Rightarrow> bool" where
  "escrow_ok s \<longleftrightarrow> (\<forall>k. chain_account (fst k) \<longrightarrow> bal s k = chain_effect s k)"

text \<open>The stored rows: keys are unique and every row satisfies the checks of its table.\<close>

definition settlement_wf :: "settlement_row \<Rightarrow> bool" where
  "settlement_wf r \<longleftrightarrow> oneOf (st_status r) [''settled'', ''orphaned''] \<and>
     oneOf (st_match r) [''matched'', ''unmatched'', ''ambiguous''] \<and>
     (st_match r = ''matched'' \<longleftrightarrow> st_session r \<noteq> None) \<and> 0 \<le> st_generation r \<and>
     0 \<le> st_block_number r \<and> 0 \<le> st_log_index r \<and>
     canonical (st_face r) \<and> canonical (st_paid r) \<and> canonical (st_deposit_paid r) \<and> canonical (st_reserve_paid r) \<and>
     units_val (st_deposit_paid r) + units_val (st_reserve_paid r) = units_val (st_paid r) \<and>
     units_val (st_paid r) \<le> units_val (st_face r)"

definition broker_event_wf :: "broker_event_row \<Rightarrow> bool" where
  "broker_event_wf r \<longleftrightarrow> oneOf (be_status r) [''canonical'', ''orphaned''] \<and> 0 \<le> be_generation r \<and>
     0 \<le> be_block_number r \<and> 0 \<le> be_log_index r \<and>
     oneOf (be_type r) [DepositFunded, ReserveFunded, ReserveClaimed, Withdrawal, WinningTicketTransfer, WinningTicketRedeemed] \<and>
     canonical (be_amount r) \<and> canonical (be_deposit r) \<and> canonical (be_reserve r)"

definition chain_rows :: "world \<Rightarrow> bool" where
  "chain_rows s \<longleftrightarrow>
     distinct (map es_id (escrow_snapshots s)) \<and>
     distinct (map (\<lambda>r. (es_stream r, es_sender r)) (escrow_snapshots s)) \<and>
     distinct (map be_id (ticket_broker_events s)) \<and> distinct (map event_identity (ticket_broker_events s)) \<and>
     distinct (map st_id (settlements s)) \<and> distinct (map settlement_identity (settlements s)) \<and>
     (\<forall>r \<in> set (ticket_broker_events s). broker_event_wf r) \<and> (\<forall>r \<in> set (settlements s). settlement_wf r)"

subsection \<open>Effects\<close>

lemma pay_other: "fst k \<noteq> fst d \<Longrightarrow> fst k \<noteq> fst c \<Longrightarrow> pay d c n k = 0"
  by (auto simp: pay_def)

lemma pay_flip: "pay c d n k = - pay d c n k"
  by (simp add: pay_def)

lemma fst_eth [simp]: "fst (eth a owner) = a"
  by (simp add: eth_def)

lemma chain_account_pay:
  "\<not> chain_account (fst k) \<Longrightarrow> chain_account (fst d) \<Longrightarrow> chain_account (fst c) \<Longrightarrow> pay d c n k = 0"
  by (rule pay_other) auto

lemma effects_other:
  assumes "\<not> chain_account (fst k)"
  shows "snapshot_effect r k = 0" "event_effect e k = 0" "settlement_effect x k = 0"
  using assms
  by (simp_all add: snapshot_effect_def event_effect_def settlement_effect_def Let_def chain_account_pay)

lemma chain_effect_other: "\<not> chain_account (fst k) \<Longrightarrow> chain_effect s k = 0"
  by (simp add: chain_effect_def effects_other)

lemma chain_effect_cong:
  "escrow_snapshots s' = escrow_snapshots s \<Longrightarrow> ticket_broker_events s' = ticket_broker_events s \<Longrightarrow>
   settlements s' = settlements s \<Longrightarrow> chain_effect s' k = chain_effect s k"
  by (simp add: chain_effect_def)

lemma gap_cong:
  "account_balances s' = account_balances s \<Longrightarrow> escrow_snapshots s' = escrow_snapshots s \<Longrightarrow>
   ticket_broker_events s' = ticket_broker_events s \<Longrightarrow> settlements s' = settlements s \<Longrightarrow> gap s' k = gap s k"
  by (simp add: gap_def bal_def chain_effect_def)

lemma escrow_ok_gap: "escrow_ok s \<longleftrightarrow> (\<forall>k. chain_account (fst k) \<longrightarrow> gap s k = 0)"
  by (simp add: escrow_ok_def gap_def)

section \<open>What the chain operations leave alone\<close>

text \<open>
  \<open>chain_frame s s'\<close>: the ledger invariant is kept, no balance outside the treasury and the escrow
  moves, and nothing but the chain tables, the ledger and the summaries is written.
\<close>

definition other_tables :: "world \<Rightarrow> world" where
  "other_tables s = (nonledger s)\<lparr>settlements := [], escrow_snapshots := [], ticket_broker_events := [],
     ingestion_checkpoints := [], chain_blocks := []\<rparr>"

definition chain_frame :: "world \<Rightarrow> world \<Rightarrow> bool" where
  "chain_frame s s' \<longleftrightarrow> (ledger_ok s \<longrightarrow> ledger_ok s') \<and>
     (\<forall>k. \<not> chain_account (fst k) \<longrightarrow> bal s' k = bal s k) \<and> other_tables s' = other_tables s"

interpretation chain: preorder_frame chain_frame
  by unfold_locales (auto simp: chain_frame_def)

lemma other_tables_sel:
  "grants (other_tables s) = grants s" "allocations (other_tables s) = allocations s"
  "api_keys (other_tables s) = api_keys s" "sessions (other_tables s) = sessions s"
  "usage_events (other_tables s) = usage_events s" "signing_authorizations (other_tables s) = signing_authorizations s"
  "management_idempotency (other_tables s) = management_idempotency s" "kafka_lags (other_tables s) = kafka_lags s"
  by (simp_all add: other_tables_def nonledger_def nonmetric_def)

lemma other_tables_fields:
  "other_tables s' = other_tables s \<Longrightarrow>
   grants s' = grants s \<and> allocations s' = allocations s \<and> api_keys s' = api_keys s \<and> sessions s' = sessions s \<and>
   usage_events s' = usage_events s \<and> signing_authorizations s' = signing_authorizations s \<and>
   management_idempotency s' = management_idempotency s \<and> kafka_lags s' = kafka_lags s"
  by (intro conjI; metis other_tables_sel)

lemma nonledger_other: "nonledger s' = nonledger s \<Longrightarrow> other_tables s' = other_tables s"
  by (simp add: other_tables_def)

lemma nonmetric_chain: "nonmetric s' = nonmetric s \<Longrightarrow> chain_frame s s'"
  by (auto simp: chain_frame_def dest: ledger_ok_frame nonmetric_fields nonledger_other intro: bal_cong)

lemma nonmatch_chain:
  assumes "nonmatch s' = nonmatch s"
  shows "chain_frame s s'"
proof -
  have *: "other_tables t = other_tables (nonmatch t)" for t
    by (simp add: nonmatch_def other_tables_def nonledger_def nonmetric_def)
  have "other_tables s' = other_tables s" using * [of s] * [of s'] assms by simp
  then show ?thesis
    using nonmatch_fields [OF assms] by (auto simp: chain_frame_def intro: ledger_ok_cong bal_cong)
qed

lemma within_nonmetric: "(\<And>s x s'. m s = (Inr x, s') \<Longrightarrow> nonmetric s' = nonmetric s) \<Longrightarrow> within chain_frame m"
  by (intro withinI nonmetric_chain)

lemma Transfer_chain:
  assumes "chain_account d" "chain_account c"
  shows "within chain_frame (Transfer key rsn rt ri d di c ci n)"
proof (rule withinI)
  fix s x s' assume "Transfer key rsn rt ri d di c ci n s = (Inr x, s')"
  then have t: "TransferCurrency key rsn rt ri d di c ci ''eth'' n s = (Inr x, s')" by (simp add: Transfer_def)
  have "bal s' k = bal s k" if "\<not> chain_account (fst k)" for k
    using TransferCurrency_bal [OF t, of k] that assms by auto
  then show "chain_frame s s'"
    using nonledger_other TransferCurrency_basic [OF t] TransferCurrency_ledger_ok [OF t] unfolding chain_frame_def by blast
qed

text \<open>Statements on the chain tables alone.\<close>

lemma chain_row_frames:
  "chain_frame s (s\<lparr>escrow_snapshots := a\<rparr>)" "chain_frame s (s\<lparr>ticket_broker_events := b\<rparr>)"
  "chain_frame s (s\<lparr>settlements := c\<rparr>)" "chain_frame s (s\<lparr>chain_blocks := d\<rparr>)"
  "chain_frame s (s\<lparr>ingestion_checkpoints := e\<rparr>)" "chain_frame s (s\<lparr>tick := n\<rparr>)"
  "chain_frame s (s\<lparr>metric_balances := m\<rparr>)"
  by (auto simp: chain_frame_def other_tables_def nonledger_def nonmetric_def ledger_ok_def net_def bal_def)

lemma within_Balance: "within chain_frame (Balance a b)"
  unfolding Balance_def by (rule withinI) (auto simp: BalanceCurrency_Inr chain.R_refl)

lemma metric_chain:
  "within chain_frame (changeMetricCount kind a b n)" "within chain_frame (changeMetricAmount name cur n)"
  by (intro within_nonmetric, erule changeMetricCount_frame changeMetricAmount_frame)+

lemmas within_chain = chain.within_intros within_wrapE within_Balance
  within_sql_write within_modify within_ID within_NowMs within_Write chain_row_frames
  metric_chain Transfer_chain

lemma rematch_chain: "within chain_frame (rematch pm orch)"
  by (rule withinI) (rule nonmatch_chain, rule rematch_frame)

lemma updateSettlementMetrics_chain: "within chain_frame (updateSettlementMetrics old new match face paid)"
  unfolding updateSettlementMetrics_def Let_def by (intro within_chain)

lemma applySettlement_chain: "within chain_frame (applySettlement x)"
  unfolding applySettlement_def settle_def pay_settlement_def requireBalance_def insert_new_settlement_def
    insert_settlement_def revive_settlement_def Let_def
  by (intro within_chain updateSettlementMetrics_chain rematch_chain) simp_all

lemma post_event_chain: "within chain_frame (post_event i g x)"
  unfolding post_event_def withdraw_def redeem_def requireExactBalance_def Let_def
  by (intro within_chain applySettlement_chain) simp_all

lemma applyEscrowEvent_chain: "within chain_frame (applyEscrowEvent x)"
  unfolding applyEscrowEvent_def insert_new_event_def insert_broker_event_def revive_event_def redeem_def Let_def
  by (intro within_chain post_event_chain applySettlement_chain)

lemma ApplyChain_chain: "within chain_frame (ApplyChain stream blocks events lookback)"
  unfolding ApplyChain_def upsert_chain_block_def SetCheckpoint_def delete_blocks_def
  by (intro within_chain applyEscrowEvent_chain)

lemma BootstrapChain_chain: "within chain_frame (BootstrapChain stream anchor snapshots)"
  unfolding BootstrapChain_def anchor_block_def insert_chain_block_def open_snapshot_def insert_escrow_snapshot_def
    registerEscrowMetrics_def register_bucket_def SetCheckpoint_def Let_def
  by (intro within_chain) simp_all

lemma Rewind_chain: "within chain_frame (Rewind stream chain contract ancestor)"
  unfolding Rewind_def rewind_to_def reverse_settlement_def reverse_event_def unpost_event_def
    orphan_settlement_def orphan_event_def delete_blocks_def SetCheckpoint_def Let_def
  by (intro within_chain updateSettlementMetrics_chain) simp_all

lemma funds_chain:
  assumes "\<And>k. \<not> chain_account (fst k) \<Longrightarrow> b' k = b k"
  shows "funds gs as b' = funds gs as b"
proof -
  have "b' (a, i, cur) = b (a, i, cur)" if "\<not> chain_account a" for a i cur
    using assms that by simp
  then show ?thesis by (simp add: funds_def grant_funds_def allocation_funds_def no_stray_def)
qed

lemma chain_frame_accounts:
  assumes "chain_frame s s'" "accounts_ok s"
  shows "accounts_ok s'"
proof -
  have *: "bal s' k = bal s k" if "\<not> chain_account (fst k)" for k
    using assms(1) that unfolding chain_frame_def by blast
  have "other_tables s' = other_tables s" using assms(1) unfolding chain_frame_def by blast
  then show ?thesis
    using assms funds_chain [of "bal s'" "bal s", OF *] other_tables_fields [of s' s]
    by (simp add: chain_frame_def accounts_ok_def)
qed

section \<open>Postings and rows\<close>

lemma Transfer_gap:
  assumes "Transfer key rsn rt ri d di c ci n s = (Inr u, s')"
  shows "bal s' k = bal s k + pay (eth d di) (eth c ci) n k" "gap s' k = gap s k + pay (eth d di) (eth c ci) n k"
    "nonledger s' = nonledger s" "0 \<le> n"
proof -
  have t: "TransferCurrency key rsn rt ri d di c ci ''eth'' n s = (Inr u, s')" using assms by (simp add: Transfer_def)
  show n: "nonledger s' = nonledger s" "0 \<le> n" using TransferCurrency_basic [OF t] by simp_all
  show b: "bal s' k = bal s k + pay (eth d di) (eth c ci) n k"
    using TransferCurrency_bal [OF t, of k] by (simp add: pay_def eth_def)
  show "gap s' k = gap s k + pay (eth d di) (eth c ci) n k"
    using b nonledger_fields [OF n(1)] chain_effect_cong [of s' s k] by (simp add: gap_def)
qed

lemma nonmetric_gap:
  assumes "nonmetric s' = nonmetric s"
  shows "gap s' k = gap s k" "bal s' k = bal s k"
proof -
  note f = nonmetric_fields [OF assms]
  note g = nonledger_fields [OF f [THEN conjunct2, THEN conjunct2, THEN conjunct2]]
  show "gap s' k = gap s k" by (rule gap_cong) (simp_all add: f g)
  show "bal s' k = bal s k" by (rule bal_cong) (simp add: f)
qed

lemma nonledger_rows: "nonledger s' = nonledger s \<Longrightarrow> chain_rows s' = chain_rows s"
  unfolding chain_rows_def by (drule nonledger_fields, elim conjE, simp only:)

lemma nonmetric_rows: "nonmetric s' = nonmetric s \<Longrightarrow> chain_rows s' = chain_rows s"
  by (intro nonledger_rows) (blast dest: nonmetric_fields)

lemma updateSettlementMetrics_frame:
  assumes "updateSettlementMetrics old new match face paid s = (Inr u, s')"
  shows "nonmetric s' = nonmetric s"
proof -
  have *: "nonmetric t' = nonmetric t" if "forE xs (\<lambda>(name, n). changeMetricAmount name ''eth'' (n * sg)) t = (Inr (), t')"
    for xs sg t t'
    using that by (rule forE_frame) (auto split: prod.splits dest: changeMetricAmount_frame)
  show ?thesis
    using assms by (auto simp: updateSettlementMetrics_def txs Let_def split: if_splits dest!: changeMetricCount_frame *)
qed

lemma Balance_Inr [txs]:
  "Balance a i s = (Inr n, s') \<longleftrightarrow> s' = s \<and> n = bal s (eth a i) \<and>
     (case map_of (account_balances s) (eth a i) of None \<Rightarrow> True | Some v \<Rightarrow> v = int_str n)"
  by (auto simp: Balance_def BalanceCurrency_Inr is_currency_def eth_def)

lemma requireBalance_Inr [txs]:
  "requireBalance a i n s = (Inr u, s') \<Longrightarrow> s' = s \<and> n \<le> bal s (eth a i)"
  by (auto simp: requireBalance_def txs split: if_splits)

lemma requireExactBalance_Inr [txs]:
  "requireExactBalance a i n s = (Inr u, s') \<Longrightarrow> s' = s \<and> bal s (eth a i) = n"
  by (auto simp: requireExactBalance_def txs split: if_splits)

lemma Amount_units: "Amount v = Inr n \<Longrightarrow> units_val v = n \<and> 0 \<le> n \<and> canonical v"
  by (metis Amount_text Amount_Inr units_val_int_str)

subsection \<open>Rematching keeps the rows\<close>

definition unmatch :: "settlement_row \<Rightarrow> settlement_row" where
  "unmatch r = r\<lparr>st_session := None, st_match := []\<rparr>"

lemma unmatch_inert [simp]:
  "settlement_effect (unmatch r) = settlement_effect r" "settlement_identity (unmatch r) = settlement_identity r"
  "st_id (unmatch r) = st_id r"
  by (simp_all add: unmatch_def settlement_effect_def settlement_identity_def fun_eq_iff Let_def)

lemma update_rows_none: "(\<And>r. r \<in> set rows \<Longrightarrow> \<not> P r) \<Longrightarrow> update_rows P f rows = rows"
  by (auto simp: update_rows_def intro: map_idI)

lemma rematch_settlements:
  assumes "rematch pm orch s = (Inr u, s')"
  shows "\<exists>P i st. settlements s' = update_rows P (\<lambda>r. r\<lparr>st_session := i, st_match := st\<rparr>) (settlements s) \<and>
    oneOf st [''matched'', ''unmatched'', ''ambiguous''] \<and> (st = ''matched'' \<longleftrightarrow> i \<noteq> None)"
proof -
  obtain st i where a: "attribution (ticket_sessions pm orch s) = (st, i)" by fastforce
  then have st: "oneOf st [''matched'', ''unmatched'', ''ambiguous''] \<and> (st = ''matched'' \<longleftrightarrow> i \<noteq> None)"
    by (auto simp: attribution_def oneOf_def split: list.splits)
  have fr: "settlements t' = settlements t" if "forE b (move_bucket st) t = (Inr (), t')" for b t t'
    using that by (rule forE_frame) (auto dest!: move_bucket_frame nonmetric_fields dest: nonledger_fields)
  have "settlements s' = update_rows (\<lambda>_. False) (\<lambda>r. r\<lparr>st_session := i, st_match := st\<rparr>) (settlements s) \<or>
      settlements s' = update_rows (rematch_changes pm orch st i) (\<lambda>r. r\<lparr>st_session := i, st_match := st\<rparr>) (settlements s)"
    using assms by (auto simp: rematch_def a txs update_rows_none dest!: fr split: if_splits)
  then show ?thesis using st by blast
qed

lemma rematch_unmatch:
  assumes "rematch pm orch s = (Inr u, s')"
  shows "map unmatch (settlements s') = map unmatch (settlements s)"
proof -
  from rematch_settlements [OF assms] obtain P i st where
    "settlements s' = update_rows P (\<lambda>r. r\<lparr>st_session := i, st_match := st\<rparr>) (settlements s)" by blast
  then show ?thesis by (simp add: map_update_rows unmatch_def)
qed

lemma sum_unmatch:
  assumes "map unmatch xs = map unmatch ys"
  shows "(\<Sum>r\<leftarrow>xs. settlement_effect r k) = (\<Sum>r\<leftarrow>ys. settlement_effect r k)"
proof -
  have *: "(\<Sum>r\<leftarrow>zs. settlement_effect r k) = sum_list (map (\<lambda>r. settlement_effect r k) (map unmatch zs))" for zs
    by (induction zs) simp_all
  show ?thesis using * [of xs] * [of ys] by (simp only: assms)
qed

lemma rematch_keys:
  assumes "map unmatch xs = map unmatch ys"
  shows "map st_id xs = map st_id ys" "map settlement_identity xs = map settlement_identity ys"
proof -
  have *: "map st_id zs = map st_id (map unmatch zs)" "map settlement_identity zs = map settlement_identity (map unmatch zs)" for zs
    by simp_all
  show "map st_id xs = map st_id ys" "map settlement_identity xs = map settlement_identity ys"
    using * [of xs] * [of ys] assms by metis+
qed

lemma nonmatch_events: "nonmatch s' = nonmatch s \<Longrightarrow> ticket_broker_events s' = ticket_broker_events s"
proof -
  have *: "ticket_broker_events t = ticket_broker_events (nonmatch t)" for t by (simp add: nonmatch_def nonmetric_def)
  show "nonmatch s' = nonmatch s \<Longrightarrow> ticket_broker_events s' = ticket_broker_events s"
    using * [of s] * [of s'] by simp
qed

lemma rematch_gap:
  assumes "rematch pm orch s = (Inr u, s')"
  shows "gap s' k = gap s k" "bal s' k = bal s k" "chain_rows s \<Longrightarrow> chain_rows s'"
    "ticket_broker_events s' = ticket_broker_events s"
proof -
  note f = nonmatch_fields [OF rematch_frame [OF assms]]
  show e: "ticket_broker_events s' = ticket_broker_events s"
    using nonmatch_events [OF rematch_frame [OF assms]] .
  note u = rematch_unmatch [OF assms]
  show b: "bal s' k = bal s k" using f by (simp add: bal_def)
  show "gap s' k = gap s k" using f e b sum_unmatch [OF u, of k] by (simp add: gap_def chain_effect_def)
  from rematch_settlements [OF assms] obtain P i st where
    "settlements s' = update_rows P (\<lambda>r. r\<lparr>st_session := i, st_match := st\<rparr>) (settlements s)"
    "oneOf st [''matched'', ''unmatched'', ''ambiguous'']" "st = ''matched'' \<longleftrightarrow> i \<noteq> None" by blast
  then have "\<forall>r \<in> set (settlements s'). settlement_wf r" if "\<forall>r \<in> set (settlements s). settlement_wf r"
    using that by (auto simp: settlement_wf_def dest!: in_update_rows)
  then show "chain_rows s \<Longrightarrow> chain_rows s'"
    using f e rematch_keys [OF u] by (simp add: chain_rows_def)
qed

section \<open>Settlements\<close>

definition escrow_of :: "Settlement \<Rightarrow> string" where
  "escrow_of x = escrowOwner (se_ChainID x) (se_Contract x) (se_Sender x)"

definition settle_effect :: "Settlement \<Rightarrow> balances" where
  "settle_effect x k =
     (let spend = eth TreasurySettledSpend (treasuryOwner (se_ChainID x) (se_Sender x)) in
      pay (eth EscrowDeposit (escrow_of x)) spend (units_val (se_DepositPaid x)) k +
      pay (eth EscrowReserve (escrow_of x)) spend (units_val (se_ReservePaid x)) k)"

text \<open>The amounts of a redemption, once they have been parsed and their split checked.\<close>

definition split_ok :: "Settlement \<Rightarrow> int \<Rightarrow> int \<Rightarrow> int \<Rightarrow> int \<Rightarrow> bool" where
  "split_ok x face paid dp rp \<longleftrightarrow> Amount (se_FaceValue x) = Inr face \<and> Amount (se_PaidAmount x) = Inr paid \<and>
     Amount (se_DepositPaid x) = Inr dp \<and> Amount (se_ReservePaid x) = Inr rp \<and> dp + rp = paid \<and> paid \<le> face"

lemma split_ok_units:
  assumes "split_ok x face paid dp rp"
  shows "units_val (se_DepositPaid x) = dp" "units_val (se_ReservePaid x) = rp" "units_val (se_PaidAmount x) = paid"
    "units_val (se_FaceValue x) = face" "0 \<le> dp" "0 \<le> rp" "0 \<le> paid" "0 \<le> face" "dp + rp = paid" "paid \<le> face"
  using assms by (auto simp: split_ok_def dest: Amount_units)

lemma new_settlement_simps [simp]:
  "st_id (new_settlement i now x) = i" "st_status (new_settlement i now x) = ''settled''"
  "st_match (new_settlement i now x) = ''unmatched''" "st_session (new_settlement i now x) = None"
  "st_generation (new_settlement i now x) = 0" "st_block_number (new_settlement i now x) = se_BlockNumber x"
  "st_log_index (new_settlement i now x) = se_LogIndex x" "st_face (new_settlement i now x) = se_FaceValue x"
  "st_paid (new_settlement i now x) = se_PaidAmount x" "st_deposit_paid (new_settlement i now x) = se_DepositPaid x"
  "st_reserve_paid (new_settlement i now x) = se_ReservePaid x"
  "settlement_identity (new_settlement i now x) = (se_ChainID x, se_Contract x, se_BlockHash x, se_TxHash x, se_LogIndex x)"
  by (simp_all add: new_settlement_def settlement_identity_def)

lemma settlement_effect_new: "settlement_effect (new_settlement i now x) k = settle_effect x k"
  by (simp add: settlement_effect_def settle_effect_def new_settlement_def escrow_of_def Let_def)

lemma settlement_effect_same:
  assumes "settlement_identity r = (se_ChainID x, se_Contract x, se_BlockHash x, se_TxHash x, se_LogIndex x)"
    and "\<not> settlement_differs x r"
  shows "settlement_effect (r\<lparr>st_status := ''settled'', st_generation := g, st_settled_at := t\<rparr>) k = settle_effect x k"
  using assms
  by (simp add: settlement_effect_def settle_effect_def escrow_of_def Let_def settlement_identity_def settlement_differs_def)

text \<open>After either way of recording the redemption its effect is in the rows, not yet in the balances.\<close>

definition recorded :: "Settlement \<Rightarrow> world \<Rightarrow> world \<Rightarrow> bool" where
  "recorded x s s1 \<longleftrightarrow> chain_rows s1 \<and> (\<forall>k. gap s1 k = gap s k - settle_effect x k) \<and> bal s1 = bal s \<and>
     ticket_broker_events s1 = ticket_broker_events s"

lemma bal_eq: "account_balances s' = account_balances s \<Longrightarrow> bal s' = bal s"
  by (rule ext) (simp add: bal_def)

lemma insert_new_settlement_recorded:
  assumes "insert_new_settlement x s = (Inr (i, g), s1)" "chain_rows s" "split_ok x face paid dp rp"
  shows "recorded x s s1"
proof -
  define row where "row = new_settlement i (clock s (Suc (tick s))) x"
  have s1: "settlements s1 = settlements s @ [row]" "escrow_snapshots s1 = escrow_snapshots s"
      "ticket_broker_events s1 = ticket_broker_events s" "account_balances s1 = account_balances s"
    and ok: "i \<notin> st_id ` set (settlements s)" "settlement_identity row \<notin> settlement_identity ` set (settlements s)"
      "settlement_wf row"
    using assms(1) split_ok_units [OF assms(3)]
    by (auto simp: insert_new_settlement_def insert_settlement_def txs row_def settlement_wf_def oneOf_def)
  have b: "bal s1 = bal s" using s1 by (intro bal_eq)
  have "st_id row = i" by (simp add: row_def)
  then have "chain_rows s1" using assms(2) ok by (simp add: chain_rows_def s1)
  moreover have "gap s1 k = gap s k - settle_effect x k" for k
    by (simp add: gap_def chain_effect_def s1 b) (simp add: row_def settlement_effect_new)
  ultimately show ?thesis using b s1 by (simp add: recorded_def)
qed

lemma revive_settlement_recorded:
  assumes "revive_settlement r x s = (Inr (i, g), s1)" "chain_rows s"
    and "find_settlement x s = Some r" "\<not> settlement_differs x r" "st_status r \<noteq> ''settled''"
  shows "recorded x s s1"
proof -
  from find_row_Some [OF assms(3) [unfolded find_settlement_def]] have r: "r \<in> set (settlements s)"
    "settlement_identity r = (se_ChainID x, se_Contract x, se_BlockHash x, se_TxHash x, se_LogIndex x)" by simp_all
  define f where "f = (\<lambda>q :: settlement_row. q\<lparr>st_status := ''settled'', st_generation := g, st_settled_at := se_Timestamp x\<rparr>)"
  have g: "0 \<le> g" and s1: "s1 = s\<lparr>settlements := update_rows (\<lambda>q. st_id q = st_id r) f (settlements s)\<rparr>"
    using assms(1) by (auto simp: revive_settlement_def Let_def txs f_def)
  have f: "st_id (f q) = st_id q" "settlement_identity (f q) = settlement_identity q" for q
    by (simp_all add: f_def settlement_identity_def)
  have b: "bal s1 = bal s" by (rule bal_eq) (simp add: s1)
  have wf: "settlement_wf q \<Longrightarrow> settlement_wf (f q)" for q
    using g by (auto simp: settlement_wf_def f_def oneOf_def)
  have "distinct (map st_id (settlements s))" using assms(2) by (simp add: chain_rows_def)
  then have "chain_effect s1 k = chain_effect s k + settlement_effect (f r) k - settlement_effect r k" for k
    using sum_update_rows [of st_id "settlements s" r "\<lambda>q. settlement_effect q k" f] r(1)
    by (simp add: chain_effect_def s1)
  then have "gap s1 k = gap s k - settle_effect x k" for k
    using settlement_effect_same [OF r(2) assms(4), of g "se_Timestamp x" k] assms(5)
    by (simp add: gap_def b) (simp add: settlement_effect_def f_def Let_def)
  moreover have "chain_rows s1"
    using assms(2) wf by (auto simp: chain_rows_def s1 map_update_rows f dest!: in_update_rows)
  ultimately show ?thesis using b by (simp add: recorded_def) (simp add: s1)
qed

lemma pay_settlement_Inr:
  assumes "pay_settlement x face dp rp i g s = (Inr u, s')"
  obtains k1 k2 s1 s2 where
    "dp = min face (bal s (eth EscrowDeposit (escrow_of x)))" "rp \<le> bal s (eth EscrowReserve (escrow_of x))"
    "Transfer k1 ''winning ticket deposit payment'' ''settlement'' i EscrowDeposit (escrow_of x)
       TreasurySettledSpend (treasuryOwner (se_ChainID x) (se_Sender x)) dp s = (Inr (), s1)"
    "Transfer k2 ''winning ticket reserve payment'' ''settlement'' i EscrowReserve (escrow_of x)
       TreasurySettledSpend (treasuryOwner (se_ChainID x) (se_Sender x)) rp s1 = (Inr (), s2)"
    "rematch (se_PMSessionID x) (se_Recipient x) s2 = (Inr (), s')"
  using assms that unfolding pay_settlement_def escrow_of_def [symmetric] Let_def
  by (auto simp: txs min_def split: if_splits dest!: requireBalance_Inr)

lemma pay_settlement_fields:
  assumes "pay_settlement x face dp rp i g s = (Inr u, s')" "split_ok x face paid dp rp"
  shows "gap s' k = gap s k + settle_effect x k" "bal s' k = bal s k + settle_effect x k"
    "dp = min face (bal s (eth EscrowDeposit (escrow_of x)))" "rp \<le> bal s (eth EscrowReserve (escrow_of x))"
    "chain_rows s \<Longrightarrow> chain_rows s'" "ticket_broker_events s' = ticket_broker_events s"
proof -
  let ?e = "escrow_of x" and ?t = "treasuryOwner (se_ChainID x) (se_Sender x)"
  from pay_settlement_Inr [OF assms(1)] obtain k1 k2 s1 s2 where
    d: "dp = min face (bal s (eth EscrowDeposit ?e))" and r: "rp \<le> bal s (eth EscrowReserve ?e)"
    and t1: "Transfer k1 ''winning ticket deposit payment'' ''settlement'' i EscrowDeposit ?e TreasurySettledSpend ?t dp s = (Inr (), s1)"
    and t2: "Transfer k2 ''winning ticket reserve payment'' ''settlement'' i EscrowReserve ?e TreasurySettledSpend ?t rp s1 = (Inr (), s2)"
    and m: "rematch (se_PMSessionID x) (se_Recipient x) s2 = (Inr (), s')" by metis
  show "dp = min face (bal s (eth EscrowDeposit ?e))" "rp \<le> bal s (eth EscrowReserve ?e)" by (fact d, fact r)
  note T1 = Transfer_gap [OF t1] and T2 = Transfer_gap [OF t2] and M = rematch_gap [OF m]
  show "gap s' k = gap s k + settle_effect x k" "bal s' k = bal s k + settle_effect x k"
    using split_ok_units [OF assms(2)] by (simp_all add: M T1 T2 settle_effect_def Let_def)
  show "chain_rows s \<Longrightarrow> chain_rows s'" using M(3) nonledger_rows T1(3) T2(3) by blast
  show "ticket_broker_events s' = ticket_broker_events s" using M(4) T1(3) T2(3) nonledger_fields by metis
qed

lemma settle_fields:
  assumes "settle x face paid dp rp row s = (Inr u, s')" "chain_rows s" "split_ok x face paid dp rp"
    and "row = find_settlement x s" "\<And>r. row = Some r \<Longrightarrow> \<not> settlement_differs x r \<and> st_status r \<noteq> ''settled''"
  shows "gap s' k = gap s k" "bal s' k = bal s k + settle_effect x k"
    "dp = min face (bal s (eth EscrowDeposit (escrow_of x)))" "rp \<le> bal s (eth EscrowReserve (escrow_of x))"
    "chain_rows s'" "ticket_broker_events s' = ticket_broker_events s"
proof -
  from assms(1) obtain i g s1 s2 old match where
    rec: "(case row of None \<Rightarrow> insert_new_settlement x | Some r \<Rightarrow> revive_settlement r x) s = (Inr (i, g), s1)"
    and met: "updateSettlementMetrics old ''settled'' match face paid s1 = (Inr (), s2)"
    and p: "pay_settlement x face dp rp i g s2 = (Inr (), s')"
    by (auto simp: settle_def txs split: prod.splits)
  have R: "recorded x s s1"
  proof (cases row)
    case None
    then show ?thesis using rec insert_new_settlement_recorded [OF _ assms(2,3)] by simp
  next
    case (Some r)
    then show ?thesis using rec revive_settlement_recorded [OF _ assms(2)] assms(4,5) by simp
  qed
  have m: "nonmetric s2 = nonmetric s1" by (rule updateSettlementMetrics_frame [OF met])
  have b: "bal s2 k = bal s k" for k using R nonmetric_gap(2) [OF m] by (simp add: recorded_def)
  note P = pay_settlement_fields [OF p assms(3)]
  have "gap s2 k = gap s1 k" by (rule nonmetric_gap(1) [OF m])
  moreover have "gap s1 k = gap s k - settle_effect x k" using R unfolding recorded_def by blast
  ultimately show "gap s' k = gap s k" by (simp add: P)
  show "bal s' k = bal s k + settle_effect x k" by (simp add: P b)
  show "dp = min face (bal s (eth EscrowDeposit (escrow_of x)))" "rp \<le> bal s (eth EscrowReserve (escrow_of x))"
    using P(3,4) by (simp_all add: b)
  have "chain_rows s2" using R nonmetric_rows [OF m] by (simp add: recorded_def)
  then show "chain_rows s'" by (rule P(5))
  have "ticket_broker_events s2 = ticket_broker_events s1" using nonmetric_fields [OF m] nonledger_fields by blast
  then show "ticket_broker_events s' = ticket_broker_events s" using R by (simp add: P(6) recorded_def)
qed

lemma applySettlement_Inr:
  assumes "applySettlement x s = (Inr u, s')"
  obtains face paid dp rp where "split_ok x face paid dp rp"
    "(\<exists>r. find_settlement x s = Some r \<and> \<not> settlement_differs x r \<and> st_status r = ''settled'' \<and> s' = s) \<or>
     (\<forall>r. find_settlement x s = Some r \<longrightarrow> \<not> settlement_differs x r \<and> st_status r \<noteq> ''settled'') \<and>
     settle x face paid dp rp (find_settlement x s) s = (Inr u, s')"
proof -
  from assms obtain face paid dp rp where sp: "split_ok x face paid dp rp"
    and r: "(case find_settlement x s of None \<Rightarrow> settle x face paid dp rp None
        | Some r \<Rightarrow> if settlement_differs x r then fail (PlainError ''settlement log identity reused with different data'')
           else if st_status r = ''settled'' then ret () else settle x face paid dp rp (Some r)) s = (Inr u, s')"
    by (auto simp: applySettlement_def split_ok_def txs split: if_splits)
  show thesis
    using r by (intro that [OF sp]) (auto split: option.splits if_splits)
qed

lemma applySettlement_fields:
  assumes "applySettlement x s = (Inr u, s')" "chain_rows s"
  shows "gap s' k = gap s k" "chain_rows s'" "ticket_broker_events s' = ticket_broker_events s"
proof -
  from applySettlement_Inr [OF assms(1)] obtain face paid dp rp where
    sp: "split_ok x face paid dp rp" and c: "s' = s \<or>
     (\<forall>r. find_settlement x s = Some r \<longrightarrow> \<not> settlement_differs x r \<and> st_status r \<noteq> ''settled'') \<and>
     settle x face paid dp rp (find_settlement x s) s = (Inr u, s')" by metis
  then have "gap s' k = gap s k \<and> chain_rows s' \<and> ticket_broker_events s' = ticket_broker_events s"
    using settle_fields [OF _ assms(2) sp refl] assms(2) by metis
  then show "gap s' k = gap s k" "chain_rows s'" "ticket_broker_events s' = ticket_broker_events s" by simp_all
qed

section \<open>Events\<close>

text \<open>\<open>gap_kept\<close>: from well-formed rows the step leads to well-formed rows whose meaning differs from
  the balances as much as before.\<close>

definition gap_kept :: "world \<Rightarrow> world \<Rightarrow> bool" where
  "gap_kept s s' \<longleftrightarrow> (chain_rows s \<longrightarrow> chain_rows s' \<and> (\<forall>k. gap s' k = gap s k))"

interpretation kept: preorder_frame gap_kept
  by unfold_locales (auto simp: gap_kept_def)

lemma gap_kept_chain_ok: "gap_kept s s' \<Longrightarrow> chain_rows s \<Longrightarrow> escrow_ok s \<Longrightarrow> chain_rows s' \<and> escrow_ok s'"
  unfolding gap_kept_def escrow_ok_gap by metis

lemma applySettlement_kept: "within gap_kept (applySettlement x)"
  by (rule withinI) (auto simp: gap_kept_def dest: applySettlement_fields)

lemma nonmetric_kept: "nonmetric s' = nonmetric s \<Longrightarrow> gap_kept s s'"
  using nonmetric_gap [of s' s] nonmetric_rows [of s' s] unfolding gap_kept_def by blast

lemma chain_row_kept:
  "gap_kept s (s\<lparr>chain_blocks := d\<rparr>)" "gap_kept s (s\<lparr>ingestion_checkpoints := e\<rparr>)" "gap_kept s (s\<lparr>tick := n\<rparr>)"
  by (simp_all add: gap_kept_def gap_def chain_effect_def chain_rows_def bal_def)

lemma event_effect_cong:
  assumes "be_chain r = be_chain q" "be_contract r = be_contract q" "be_sender r = be_sender q" "be_type r = be_type q"
    "be_status r = be_status q" "be_amount r = be_amount q" "be_deposit r = be_deposit q" "be_reserve r = be_reserve q"
  shows "event_effect r = event_effect q"
  by (rule ext) (simp only: event_effect_def assms)

abbreviation posted :: "EscrowEvent \<Rightarrow> balances" where
  "posted x \<equiv> event_effect (new_broker_event [] 0 x)"

lemma new_broker_event_simps [simp]:
  "be_id (new_broker_event i now x) = i" "be_status (new_broker_event i now x) = ''canonical''"
  "be_generation (new_broker_event i now x) = 0" "be_type (new_broker_event i now x) = ee_Type x"
  "be_chain (new_broker_event i now x) = ee_ChainID x" "be_contract (new_broker_event i now x) = ee_Contract x"
  "be_sender (new_broker_event i now x) = ee_Sender x" "be_amount (new_broker_event i now x) = ee_Amount x"
  "be_deposit (new_broker_event i now x) = ee_DepositAmount x" "be_reserve (new_broker_event i now x) = ee_ReserveAmount x"
  "be_block_number (new_broker_event i now x) = ee_BlockNumber x" "be_log_index (new_broker_event i now x) = ee_LogIndex x"
  "event_identity (new_broker_event i now x) = (ee_ChainID x, ee_Contract x, ee_BlockHash x, ee_TxHash x, ee_LogIndex x)"
  by (simp_all add: new_broker_event_def event_identity_def)

lemma redeem_fields:
  assumes "redeem x s = (Inr u, s')" "chain_rows s"
  shows "gap s' k = gap s k" "chain_rows s'" "ticket_broker_events s' = ticket_broker_events s"
  using assms applySettlement_fields by (auto simp: redeem_def split: option.splits)

lemma withdraw_fields:
  assumes "withdraw key t e x i s = (Inr u, s')"
  shows "gap s' k = gap s k + pay (eth EscrowDeposit e) (eth TreasuryCash t) (units_val (ee_DepositAmount x)) k +
      pay (eth EscrowReserve e) (eth TreasuryCash t) (units_val (ee_ReserveAmount x)) k"
    "nonledger s' = nonledger s"
    "bal s (eth EscrowDeposit e) = units_val (ee_DepositAmount x)" "bal s (eth EscrowReserve e) = units_val (ee_ReserveAmount x)"
proof -
  from assms obtain d r k1 k2 s1 where
    a: "Amount (ee_DepositAmount x) = Inr d" "Amount (ee_ReserveAmount x) = Inr r"
    and q: "bal s (eth EscrowDeposit e) = d" "bal s (eth EscrowReserve e) = r"
    and t1: "Transfer k1 ''deposit withdrawn'' ''escrow_event'' i EscrowDeposit e TreasuryCash t d s = (Inr (), s1)"
    and t2: "Transfer k2 ''reserve withdrawn'' ''escrow_event'' i EscrowReserve e TreasuryCash t r s1 = (Inr u, s')"
    by (auto simp: withdraw_def txs dest!: requireExactBalance_Inr)
  note T1 = Transfer_gap [OF t1] and T2 = Transfer_gap [OF t2]
  have "units_val (ee_DepositAmount x) = d" "units_val (ee_ReserveAmount x) = r" using a by (auto dest: Amount_units)
  then show "gap s' k = gap s k + pay (eth EscrowDeposit e) (eth TreasuryCash t) (units_val (ee_DepositAmount x)) k +
      pay (eth EscrowReserve e) (eth TreasuryCash t) (units_val (ee_ReserveAmount x)) k"
    "bal s (eth EscrowDeposit e) = units_val (ee_DepositAmount x)" "bal s (eth EscrowReserve e) = units_val (ee_ReserveAmount x)"
    by (simp_all add: T1 T2 q)
  show "nonledger s' = nonledger s" using T1(3) T2(3) by simp
qed

lemma post_event_fields:
  assumes "post_event i g x s = (Inr u, s')" "chain_rows s"
  shows "gap s' k = gap s k + posted x k" "chain_rows s'" "ticket_broker_events s' = ticket_broker_events s"
proof -
  let ?t = "treasuryOwner (ee_ChainID x) (ee_Sender x)" and ?e = "escrowOwner (ee_ChainID x) (ee_Contract x) (ee_Sender x)"
  have led: "nonledger s' = nonledger s \<Longrightarrow> chain_rows s' \<and> ticket_broker_events s' = ticket_broker_events s"
    using assms(2) nonledger_rows nonledger_fields by blast
  have fund: "gap s' k = gap s k + pay (eth TreasuryCash ?t) (eth a ?e) (units_val (ee_Amount x)) k \<and> nonledger s' = nonledger s"
    if "bindE (liftE (Amount (ee_Amount x))) (\<lambda>n. Transfer key rsn ''escrow_event'' i TreasuryCash ?t a ?e n) s = (Inr u, s')"
    for key rsn a
  proof -
    from that obtain n where "Amount (ee_Amount x) = Inr n"
      "Transfer key rsn ''escrow_event'' i TreasuryCash ?t a ?e n s = (Inr u, s')" by (auto simp: txs)
    then show ?thesis using Transfer_gap by (simp add: Amount_units)
  qed
  have "gap s' k = gap s k + posted x k \<and> chain_rows s' \<and> ticket_broker_events s' = ticket_broker_events s"
  proof -
    consider "ee_Type x = DepositFunded" | "ee_Type x \<noteq> DepositFunded" "ee_Type x = ReserveFunded"
      | "ee_Type x \<noteq> DepositFunded" "ee_Type x \<noteq> ReserveFunded" "ee_Type x = Withdrawal"
      | "ee_Type x \<noteq> DepositFunded" "ee_Type x \<noteq> ReserveFunded" "ee_Type x \<noteq> Withdrawal" by blast
    then show ?thesis
    proof cases
      case 1 then show ?thesis using assms(1) fund [of _ _ EscrowDeposit] led
        by (simp add: post_event_def event_effect_def Let_def)
    next
      case 2 then show ?thesis using assms(1) fund [of _ _ EscrowReserve] led
        by (simp add: post_event_def event_effect_def Let_def)
    next
      case 3
      then have "withdraw (''event:'' @ i @ '':'' @ int_str g) ?t ?e x i s = (Inr u, s')"
        using assms(1) by (simp add: post_event_def Let_def)
      then show ?thesis using 3 withdraw_fields(1,2) led by (simp add: event_effect_def Let_def)
    next
      case 4
      then have "posted x k = 0" by (simp add: event_effect_def Let_def)
      moreover have "redeem x s = (Inr u, s') \<or> s' = s"
        using 4 assms(1) by (auto simp: post_event_def Let_def split: if_splits)
      ultimately show ?thesis using redeem_fields(1) [of x s u s' k] redeem_fields(2,3) [of x s u s'] assms(2) by auto
    qed
  qed
  then show "gap s' k = gap s k + posted x k" "chain_rows s'" "ticket_broker_events s' = ticket_broker_events s" by simp_all
qed

definition event_recorded :: "EscrowEvent \<Rightarrow> world \<Rightarrow> world \<Rightarrow> bool" where
  "event_recorded x s s1 \<longleftrightarrow> chain_rows s1 \<and> (\<forall>k. gap s1 k = gap s k - posted x k)"

lemma insert_new_event_recorded:
  assumes "insert_new_event x s = (Inr (i, g), s1)" "chain_rows s"
  shows "event_recorded x s s1"
proof -
  define row where "row = new_broker_event i (clock s (Suc (tick s))) x"
  have s1: "settlements s1 = settlements s" "escrow_snapshots s1 = escrow_snapshots s"
      "ticket_broker_events s1 = ticket_broker_events s @ [row]" "account_balances s1 = account_balances s"
    and ok: "i \<notin> be_id ` set (ticket_broker_events s)"
      "event_identity row \<notin> event_identity ` set (ticket_broker_events s)" "broker_event_wf row"
    using assms(1) by (auto simp: insert_new_event_def insert_broker_event_def txs row_def broker_event_wf_def oneOf_def)
  have b: "bal s1 = bal s" using s1 by (intro bal_eq)
  have "be_id row = i" by (simp add: row_def)
  then have "chain_rows s1" using assms(2) ok by (simp add: chain_rows_def s1)
  moreover have "event_effect row = posted x" by (rule event_effect_cong) (simp_all add: row_def)
  ultimately show ?thesis by (simp add: event_recorded_def gap_def chain_effect_def s1 b)
qed

lemma revive_event_recorded:
  assumes "revive_event r x s = (Inr (i, g), s1)" "chain_rows s"
    and "find_broker_event x s = Some r" "\<not> event_differs x r" "be_status r \<noteq> ''canonical''"
  shows "event_recorded x s s1"
proof -
  from find_row_Some [OF assms(3) [unfolded find_broker_event_def]] have r: "r \<in> set (ticket_broker_events s)"
    "event_identity r = (ee_ChainID x, ee_Contract x, ee_BlockHash x, ee_TxHash x, ee_LogIndex x)" by simp_all
  define f where "f = (\<lambda>q :: broker_event_row. q\<lparr>be_status := ''canonical'', be_generation := g, be_occurred := ee_Timestamp x\<rparr>)"
  have g: "0 \<le> g" and s1: "s1 = s\<lparr>ticket_broker_events := update_rows (\<lambda>q. be_id q = be_id r) f (ticket_broker_events s)\<rparr>"
    using assms(1) by (auto simp: revive_event_def Let_def txs f_def)
  have f: "be_id (f q) = be_id q" "event_identity (f q) = event_identity q" for q
    by (simp_all add: f_def event_identity_def)
  have b: "bal s1 = bal s" by (rule bal_eq) (simp add: s1)
  have wf: "broker_event_wf q \<Longrightarrow> broker_event_wf (f q)" for q
    using g by (simp add: broker_event_wf_def f_def oneOf_def)
  have "event_effect (f r) = posted x"
    using r(2) assms(4) by (intro event_effect_cong) (simp_all add: f_def event_differs_def event_identity_def)
  moreover have "event_effect r k = 0" for k using assms(5) by (simp add: event_effect_def Let_def)
  moreover have "distinct (map be_id (ticket_broker_events s))" using assms(2) by (simp add: chain_rows_def)
  ultimately have "chain_effect s1 k = chain_effect s k + posted x k" for k
    using sum_update_rows [of be_id "ticket_broker_events s" r "\<lambda>q. event_effect q k" f] r(1)
    by (simp add: chain_effect_def s1)
  then have "gap s1 k = gap s k - posted x k" for k by (simp add: gap_def b)
  moreover have "chain_rows s1"
    using assms(2) wf by (auto simp: chain_rows_def s1 map_update_rows f dest!: in_update_rows)
  ultimately show ?thesis by (simp add: event_recorded_def)
qed

text \<open>A successful event is a replay of a canonical one, or is recorded and posted.\<close>

lemma applyEscrowEvent_Inr:
  assumes "applyEscrowEvent x s = (Inr u, s')"
  obtains (replay) r where "find_broker_event x s = Some r" "\<not> event_differs x r" "be_status r = ''canonical''"
      "(if ee_Type x = WinningTicketRedeemed then redeem x else ret ()) s = (Inr u, s')"
  | (fresh) i g s1 where "find_broker_event x s = None" "insert_new_event x s = (Inr (i, g), s1)"
      "post_event i g x s1 = (Inr u, s')"
  | (revived) r i g s1 where "find_broker_event x s = Some r" "\<not> event_differs x r" "be_status r \<noteq> ''canonical''"
      "revive_event r x s = (Inr (i, g), s1)" "post_event i g x s1 = (Inr u, s')"
proof (cases "find_broker_event x s")
  case None
  then show thesis using assms fresh by (auto simp: applyEscrowEvent_def txs)
next
  case (Some r)
  then show thesis
    using assms replay revived by (auto simp: applyEscrowEvent_def txs simp del: if_split split: if_splits)
qed

lemma applyEscrowEvent_kept: "within gap_kept (applyEscrowEvent x)"
proof (rule withinI)
  fix s u s' assume run: "applyEscrowEvent x s = (Inr u, s')"
  show "gap_kept s s'" unfolding gap_kept_def
  proof
    assume ok: "chain_rows s"
    have post: "chain_rows s' \<and> (\<forall>k. gap s' k = gap s k)"
      if "event_recorded x s s1" "post_event i g x s1 = (Inr u, s')" for s1 i g
    proof -
      have r: "chain_rows s1" "\<And>k. gap s1 k = gap s k - posted x k"
        using that(1) unfolding event_recorded_def by blast+
      then show ?thesis using post_event_fields [OF that(2)] by simp
    qed
    from run show "chain_rows s' \<and> (\<forall>k. gap s' k = gap s k)"
    proof (cases rule: applyEscrowEvent_Inr)
      case (replay r) then show ?thesis using redeem_fields [of x s u s'] ok by (auto split: if_splits)
    next
      case (fresh i g s1) then show ?thesis using insert_new_event_recorded ok post by blast
    next
      case (revived r i g s1) then show ?thesis using revive_event_recorded ok post by blast
    qed
  qed
qed

lemmas within_kept = kept.within_intros within_sql_write within_modify within_Write chain_row_kept

lemma ApplyChain_kept: "within gap_kept (ApplyChain stream blocks events lookback)"
  unfolding ApplyChain_def upsert_chain_block_def SetCheckpoint_def delete_blocks_def
  by (intro within_kept applyEscrowEvent_kept)

section \<open>Opening snapshots\<close>

lemma registerEscrowMetrics_frame:
  assumes "registerEscrowMetrics sid owner s = (Inr u, s')"
  shows "nonmetric s' = nonmetric s"
  using assms unfolding registerEscrowMetrics_def
  by (rule forE_frame) (auto simp: register_bucket_def txs dest!: changeMetricAmount_frame changeMetricCount_frame)

lemma open_snapshot_kept: "within gap_kept (open_snapshot stream anchor sn)"
proof (rule withinI)
  fix s u s' assume run: "open_snapshot stream anchor sn s = (Inr u, s')"
  let ?t = "treasuryOwner (sn_ChainID sn) (sn_Sender sn)" and ?e = "escrowOwner (sn_ChainID sn) (sn_Contract sn) (sn_Sender sn)"
  from run obtain d r sid now row k1 k2 s1 s2 s3 where
    row: "row = new_escrow_snapshot sid stream anchor sn d r now"
    and new: "es_id row \<notin> es_id ` set (escrow_snapshots s)"
      "(es_stream row, es_sender row) \<notin> (\<lambda>x. (es_stream x, es_sender x)) ` set (escrow_snapshots s)"
    and s1: "s1 = s\<lparr>tick := Suc (Suc (tick s)), escrow_snapshots := escrow_snapshots s @ [row]\<rparr>"
    and m: "registerEscrowMetrics sid ?e s1 = (Inr (), s2)"
    and t1: "Transfer k1 ''opening deposit'' ''escrow_snapshot'' sid TreasuryCash ?t EscrowDeposit ?e d s2 = (Inr (), s3)"
    and t2: "Transfer k2 ''opening reserve'' ''escrow_snapshot'' sid TreasuryCash ?t EscrowReserve ?e r s3 = (Inr u, s')"
    by (auto simp: open_snapshot_def insert_escrow_snapshot_def txs Let_def)
  note M = registerEscrowMetrics_frame [OF m] and T1 = Transfer_gap [OF t1] and T2 = Transfer_gap [OF t2]
  have eff: "snapshot_effect row k = pay (eth TreasuryCash ?t) (eth EscrowDeposit ?e) d k + pay (eth TreasuryCash ?t) (eth EscrowReserve ?e) r k" for k
    by (simp add: row new_escrow_snapshot_def snapshot_effect_def Let_def)
  have "gap s1 k = gap s k - snapshot_effect row k" for k
    using bal_eq [of s1 s] by (simp add: gap_def s1 chain_effect_def)
  then have "gap s' k = gap s k" for k
    using nonmetric_gap(1) [OF M] by (simp add: T1 T2 eff)
  moreover have "chain_rows s1" if "chain_rows s"
    using that new by (simp add: s1 chain_rows_def)
  then have "chain_rows s'" if "chain_rows s"
    using that nonmetric_rows [OF M] nonledger_rows T1(3) T2(3) by blast
  ultimately show "gap_kept s s'" by (simp add: gap_kept_def)
qed

lemma BootstrapChain_kept: "within gap_kept (BootstrapChain stream anchor snapshots)"
  unfolding BootstrapChain_def anchor_block_def insert_chain_block_def SetCheckpoint_def
  by (intro within_kept open_snapshot_kept)

section \<open>Reorganisations\<close>

lemma set_newest_first [simp]: "set (newest_first b i rows) = set rows"
  by (simp add: newest_first_def)

lemma distinct_newest_first: "distinct (map f rows) \<Longrightarrow> distinct (map f (newest_first b i rows))"
  by (auto simp: newest_first_def distinct_map)

lemma orphan_wf:
  "settlement_wf q \<Longrightarrow> settlement_wf (q\<lparr>st_status := ''orphaned''\<rparr>)"
  "broker_event_wf e \<Longrightarrow> broker_event_wf (e\<lparr>be_status := ''orphaned''\<rparr>)"
  by (auto simp: settlement_wf_def broker_event_wf_def oneOf_def)

lemma reverse_settlement_fields:
  assumes "reverse_settlement chain contract r s = (Inr u, s')" "r \<in> set (settlements s)" "chain_rows s"
    and "st_chain r = chain" "st_contract r = contract" "st_status r = ''settled''"
  shows "gap s' k = gap s k" "chain_rows s'" "ticket_broker_events s' = ticket_broker_events s"
    "settlements s' = update_rows (\<lambda>q. st_id q = st_id r) (\<lambda>q. q\<lparr>st_status := ''orphaned''\<rparr>) (settlements s)"
    "escrow_snapshots s' = escrow_snapshots s"
proof -
  let ?e = "escrowOwner chain contract (st_sender r)" and ?t = "treasuryOwner chain (st_sender r)"
  let ?f = "\<lambda>q :: settlement_row. q\<lparr>st_status := ''orphaned''\<rparr>"
  from assms(1) obtain d v face paid k1 k2 s1 s2 s3 where
    a: "Amount (st_deposit_paid r) = Inr d" "Amount (st_reserve_paid r) = Inr v"
    and t1: "Transfer k1 ''orphaned deposit payment reversal'' ''settlement'' (st_id r) TreasurySettledSpend ?t EscrowDeposit ?e d s = (Inr (), s1)"
    and t2: "Transfer k2 ''orphaned reserve payment reversal'' ''settlement'' (st_id r) TreasurySettledSpend ?t EscrowReserve ?e v s1 = (Inr (), s2)"
    and m: "updateSettlementMetrics ''settled'' ''orphaned'' (st_match r) face paid s2 = (Inr (), s3)"
    and s': "s' = orphan_settlement (st_id r) s3"
    by (auto simp: reverse_settlement_def txs Let_def)
  note T1 = Transfer_gap [OF t1] and T2 = Transfer_gap [OF t2] and M = updateSettlementMetrics_frame [OF m]
  have n: "nonledger s3 = nonledger s"
    using T1(3) T2(3) nonmetric_fields [OF M] by metis
  note f = nonledger_fields [OF n]
  show rows: "settlements s' = update_rows (\<lambda>q. st_id q = st_id r) ?f (settlements s)"
    and ev: "ticket_broker_events s' = ticket_broker_events s" and sn: "escrow_snapshots s' = escrow_snapshots s"
    using f by (simp_all add: s' orphan_settlement_def)
  have "\<forall>q \<in> set (settlements s'). settlement_wf q" if "\<forall>q \<in> set (settlements s). settlement_wf q"
    using that by (auto simp: rows orphan_wf dest!: in_update_rows)
  then show "chain_rows s'"
    using assms(3) by (simp add: chain_rows_def rows ev sn map_update_rows settlement_identity_def)
  have "distinct (map st_id (settlements s3))" using assms(3) f by (simp add: chain_rows_def)
  then have "chain_effect s' k = chain_effect s3 k + settlement_effect (?f r) k - settlement_effect r k"
    using sum_update_rows [of st_id "settlements s3" r "\<lambda>q. settlement_effect q k" ?f] assms(2) f
    by (simp add: chain_effect_def s' orphan_settlement_def)
  moreover have "settlement_effect (?f r) k = 0" by (simp add: settlement_effect_def Let_def)
  moreover have "bal s' k = bal s3 k" by (rule bal_cong) (simp add: s' orphan_settlement_def)
  moreover have "settlement_effect r k = pay (eth EscrowDeposit ?e) (eth TreasurySettledSpend ?t) d k +
      pay (eth EscrowReserve ?e) (eth TreasurySettledSpend ?t) v k"
    using assms(4-6) a by (auto simp: settlement_effect_def Let_def dest!: Amount_units)
  moreover have "gap s3 k = gap s k - settlement_effect r k"
    using calculation(4) nonmetric_gap(1) [OF M, of k] pay_flip by (simp add: T1 T2 pay_def)
  ultimately show "gap s' k = gap s k" by (simp add: gap_def)
qed

lemma reverse_event_fields:
  assumes "reverse_event chain contract r s = (Inr u, s')" "r \<in> set (ticket_broker_events s)" "chain_rows s"
    and "be_chain r = chain" "be_contract r = contract" "be_status r = ''canonical''"
  shows "gap s' k = gap s k" "chain_rows s'" "settlements s' = settlements s"
    "ticket_broker_events s' = update_rows (\<lambda>q. be_id q = be_id r) (\<lambda>q. q\<lparr>be_status := ''orphaned''\<rparr>) (ticket_broker_events s)"
    "escrow_snapshots s' = escrow_snapshots s"
proof -
  let ?e = "escrowOwner chain contract (be_sender r)" and ?t = "treasuryOwner chain (be_sender r)"
  let ?f = "\<lambda>q :: broker_event_row. q\<lparr>be_status := ''orphaned''\<rparr>"
  from assms(1) obtain s3 where p: "unpost_event chain contract r s = (Inr (), s3)" and s': "s' = orphan_event (be_id r) s3"
    by (auto simp: reverse_event_def txs)
  have g: "gap s3 k = gap s k - event_effect r k \<and> nonledger s3 = nonledger s"
  proof -
    consider "be_type r = DepositFunded" | "be_type r \<noteq> DepositFunded" "be_type r = ReserveFunded"
      | "be_type r \<noteq> DepositFunded" "be_type r \<noteq> ReserveFunded" "be_type r = Withdrawal"
      | "be_type r \<noteq> DepositFunded" "be_type r \<noteq> ReserveFunded" "be_type r \<noteq> Withdrawal" by blast
    then show ?thesis
    proof cases
      case 1
      moreover have "DepositFunded \<noteq> ReserveFunded" by (simp add: event_types)
      ultimately obtain key n where "Amount (be_amount r) = Inr n"
        "Transfer key ''orphaned funding reversal'' ''escrow_event'' (be_id r) EscrowDeposit ?e TreasuryCash ?t n s = (Inr (), s3)"
        using p by (auto simp: unpost_event_def txs Let_def)
      then show ?thesis
        using 1 assms(4-6) Transfer_gap(2,3) by (simp add: event_effect_def Let_def Amount_units pay_def)
    next
      case 2
      then obtain key n where "Amount (be_amount r) = Inr n"
        "Transfer key ''orphaned funding reversal'' ''escrow_event'' (be_id r) EscrowReserve ?e TreasuryCash ?t n s = (Inr (), s3)"
        using p by (auto simp: unpost_event_def txs Let_def)
      then show ?thesis
        using 2 assms(4-6) Transfer_gap(2,3) by (simp add: event_effect_def Let_def Amount_units pay_def)
    next
      case 3
      then obtain k1 k2 d v s1 where "Amount (be_deposit r) = Inr d" "Amount (be_reserve r) = Inr v"
        "Transfer k1 ''orphaned deposit withdrawal reversal'' ''escrow_event'' (be_id r) TreasuryCash ?t EscrowDeposit ?e d s = (Inr (), s1)"
        "Transfer k2 ''orphaned reserve withdrawal reversal'' ''escrow_event'' (be_id r) TreasuryCash ?t EscrowReserve ?e v s1 = (Inr (), s3)"
        using p by (auto simp: unpost_event_def txs Let_def)
      then show ?thesis
        using 3 assms(4-6) Transfer_gap(2,3) by (simp add: event_effect_def Let_def Amount_units pay_def)
    next
      case 4
      then have "s3 = s" "event_effect r k = 0" using p by (auto simp: unpost_event_def event_effect_def Let_def)
      then show ?thesis by simp
    qed
  qed
  note f = nonledger_fields [OF g [THEN conjunct2]]
  show rows: "ticket_broker_events s' = update_rows (\<lambda>q. be_id q = be_id r) ?f (ticket_broker_events s)"
    and st: "settlements s' = settlements s" and sn: "escrow_snapshots s' = escrow_snapshots s"
    using f by (simp_all add: s' orphan_event_def)
  have "\<forall>q \<in> set (ticket_broker_events s'). broker_event_wf q" if "\<forall>q \<in> set (ticket_broker_events s). broker_event_wf q"
    using that by (auto simp: rows orphan_wf dest!: in_update_rows)
  then show "chain_rows s'"
    using assms(3) by (simp add: chain_rows_def rows st sn map_update_rows event_identity_def)
  have "distinct (map be_id (ticket_broker_events s3))" using assms(3) f by (simp add: chain_rows_def)
  then have "chain_effect s' k = chain_effect s3 k + event_effect (?f r) k - event_effect r k"
    using sum_update_rows [of be_id "ticket_broker_events s3" r "\<lambda>q. event_effect q k" ?f] assms(2) f
    by (simp add: chain_effect_def s' orphan_event_def)
  moreover have "event_effect (?f r) k = 0" by (simp add: event_effect_def Let_def)
  moreover have "bal s' k = bal s3 k" by (rule bal_cong) (simp add: s' orphan_event_def)
  ultimately show "gap s' k = gap s k" using g by (simp add: gap_def)
qed

text \<open>The loops: after them exactly the listed rows are orphaned.\<close>

definition orphan_if :: "(settlement_row \<Rightarrow> bool) \<Rightarrow> settlement_row list \<Rightarrow> settlement_row list" where
  "orphan_if P rows = update_rows P (\<lambda>q. q\<lparr>st_status := ''orphaned''\<rparr>) rows"

definition orphan_event_if :: "(broker_event_row \<Rightarrow> bool) \<Rightarrow> broker_event_row list \<Rightarrow> broker_event_row list" where
  "orphan_event_if P rows = update_rows P (\<lambda>q. q\<lparr>be_status := ''orphaned''\<rparr>) rows"

lemma update_rows_twice:
  "(\<And>r. f (f r) = f r) \<Longrightarrow> (\<And>r. Q (f r) = Q r) \<Longrightarrow>
   update_rows Q f (update_rows P f rows) = update_rows (\<lambda>r. P r \<or> Q r) f rows"
  by (auto simp: update_rows_def)

lemma reverse_settlements:
  assumes "forE rs (reverse_settlement chain contract) s = (Inr u, s')" "chain_rows s" "distinct (map st_id rs)"
    and "\<And>r. r \<in> set rs \<Longrightarrow> r \<in> set (settlements s) \<and> st_chain r = chain \<and> st_contract r = contract \<and> st_status r = ''settled''"
  shows "(\<forall>k. gap s' k = gap s k) \<and> chain_rows s' \<and> ticket_broker_events s' = ticket_broker_events s \<and>
    escrow_snapshots s' = escrow_snapshots s \<and> settlements s' = orphan_if (\<lambda>q. st_id q \<in> st_id ` set rs) (settlements s)"
  using assms
proof (induction rs arbitrary: s)
  case Nil
  then show ?case by (simp add: orphan_if_def update_rows_none)
next
  case (Cons r rs)
  from Cons.prems(1) obtain s1 where h: "reverse_settlement chain contract r s = (Inr (), s1)"
    and t: "forE rs (reverse_settlement chain contract) s1 = (Inr u, s')" by (auto simp: txs)
  note H = reverse_settlement_fields [OF h _ Cons.prems(2)]
  have r: "r \<in> set (settlements s)" "st_chain r = chain" "st_contract r = contract" "st_status r = ''settled''"
    using Cons.prems(4) by simp_all
  note H = H [OF r]
  have rest: "q \<in> set (settlements s1) \<and> st_chain q = chain \<and> st_contract q = contract \<and> st_status q = ''settled''"
    if q: "q \<in> set rs" for q
  proof -
    have "st_id q \<noteq> st_id r" using Cons.prems(3) q by (metis distinct.simps(2) image_eqI list.set_map list.simps(9))
    then have "q \<in> set (settlements s1)" using Cons.prems(4) [of q] q by (force simp: H(4) set_update_rows)
    then show ?thesis using Cons.prems(4) [of q] q by simp
  qed
  have "distinct (map st_id rs)" using Cons.prems(3) by simp
  note I = Cons.IH [OF t H(2) this rest]
  have "settlements s' = orphan_if (\<lambda>q. st_id q = st_id r \<or> st_id q \<in> st_id ` set rs) (settlements s)"
    using I by (simp add: H(4) orphan_if_def update_rows_twice)
  then show ?case using I H by (simp add: image_iff)
qed

lemma reverse_events:
  assumes "forE rs (reverse_event chain contract) s = (Inr u, s')" "chain_rows s" "distinct (map be_id rs)"
    and "\<And>r. r \<in> set rs \<Longrightarrow> r \<in> set (ticket_broker_events s) \<and> be_chain r = chain \<and> be_contract r = contract \<and> be_status r = ''canonical''"
  shows "(\<forall>k. gap s' k = gap s k) \<and> chain_rows s' \<and> settlements s' = settlements s \<and>
    escrow_snapshots s' = escrow_snapshots s \<and>
    ticket_broker_events s' = orphan_event_if (\<lambda>q. be_id q \<in> be_id ` set rs) (ticket_broker_events s)"
  using assms
proof (induction rs arbitrary: s)
  case Nil
  then show ?case by (simp add: orphan_event_if_def update_rows_none)
next
  case (Cons r rs)
  from Cons.prems(1) obtain s1 where h: "reverse_event chain contract r s = (Inr (), s1)"
    and t: "forE rs (reverse_event chain contract) s1 = (Inr u, s')" by (auto simp: txs)
  have r: "r \<in> set (ticket_broker_events s)" "be_chain r = chain" "be_contract r = contract" "be_status r = ''canonical''"
    using Cons.prems(4) by simp_all
  note H = reverse_event_fields [OF h r(1) Cons.prems(2) r(2-)]
  have rest: "q \<in> set (ticket_broker_events s1) \<and> be_chain q = chain \<and> be_contract q = contract \<and> be_status q = ''canonical''"
    if q: "q \<in> set rs" for q
  proof -
    have "be_id q \<noteq> be_id r" using Cons.prems(3) q by (metis distinct.simps(2) image_eqI list.set_map list.simps(9))
    then have "q \<in> set (ticket_broker_events s1)" using Cons.prems(4) [of q] q by (force simp: H(4) set_update_rows)
    then show ?thesis using Cons.prems(4) [of q] q by simp
  qed
  have "distinct (map be_id rs)" using Cons.prems(3) by simp
  note I = Cons.IH [OF t H(2) this rest]
  have "ticket_broker_events s' = orphan_event_if (\<lambda>q. be_id q = be_id r \<or> be_id q \<in> be_id ` set rs) (ticket_broker_events s)"
    using I by (simp add: H(4) orphan_event_if_def update_rows_twice)
  then show ?case using I H by (simp add: image_iff)
qed

text \<open>The rows a rewind takes back.\<close>

definition taken_settlement :: "string \<Rightarrow> string \<Rightarrow> int \<Rightarrow> settlement_row \<Rightarrow> bool" where
  "taken_settlement chain contract n r \<longleftrightarrow> st_chain r = chain \<and> st_contract r = contract \<and> n < st_block_number r"

definition taken_event :: "string \<Rightarrow> string \<Rightarrow> int \<Rightarrow> broker_event_row \<Rightarrow> bool" where
  "taken_event chain contract n r \<longleftrightarrow> be_chain r = chain \<and> be_contract r = contract \<and> n < be_block_number r"

lemma ids_of_selected:
  assumes "distinct (map f rows)" "q \<in> set rows"
  shows "f q \<in> f ` set (filter P rows) \<longleftrightarrow> P q"
  using assms distinct_id [OF assms(1)] by auto

lemma update_rows_cong:
  "(\<And>q. q \<in> set rows \<Longrightarrow> (if P q then f q else q) = (if Q q then f q else q)) \<Longrightarrow> update_rows P f rows = update_rows Q f rows"
  by (simp add: update_rows_def)

lemma rewind_to_fields:
  assumes "rewind_to stream chain contract anc s = (Inr u, s')" "chain_rows s"
  shows "(\<forall>k. gap s' k = gap s k) \<and> chain_rows s' \<and> escrow_snapshots s' = escrow_snapshots s \<and>
    settlements s' = orphan_if (taken_settlement chain contract (Number anc)) (settlements s) \<and>
    ticket_broker_events s' = orphan_event_if (taken_event chain contract (Number anc)) (ticket_broker_events s) \<and>
    map_of (ingestion_checkpoints s') (''chain'', stream) = Some (i64 (Number anc + 1), Hash anc) \<and>
    (\<forall>b \<in> set (chain_blocks s'). fst (fst b) = stream \<longrightarrow> snd (fst b) \<le> Number anc)"
proof -
  from assms(1) obtain s1 s2 where
    l1: "forE (settlements_after chain contract (Number anc) s) (reverse_settlement chain contract) s = (Inr (), s1)"
    and l2: "forE (events_after chain contract (Number anc) s1) (reverse_event chain contract) s1 = (Inr (), s2)"
    and s': "s' = s2\<lparr>chain_blocks := filter (\<lambda>((st, n), h). \<not> (st = stream \<and> Number anc < n)) (chain_blocks s2),
        ingestion_checkpoints := AList.update (''chain'', stream) (i64 (Number anc + 1), Hash anc) (ingestion_checkpoints s2)\<rparr>"
    by (auto simp: rewind_to_def delete_blocks_def SetCheckpoint_def txs)
  let ?P = "\<lambda>r. st_chain r = chain \<and> st_contract r = contract \<and> st_status r = ''settled'' \<and> Number anc < st_block_number r"
  let ?Q = "\<lambda>r. be_chain r = chain \<and> be_contract r = contract \<and> be_status r = ''canonical'' \<and> Number anc < be_block_number r"
  have d: "distinct (map st_id (settlements s))" using assms(2) by (simp add: chain_rows_def)
  have R: "(\<forall>k. gap s1 k = gap s k) \<and> chain_rows s1 \<and> ticket_broker_events s1 = ticket_broker_events s \<and>
      escrow_snapshots s1 = escrow_snapshots s \<and> settlements s1 = orphan_if (\<lambda>q. st_id q \<in> st_id ` set (filter ?P (settlements s))) (settlements s)"
  proof -
    have "distinct (map st_id (settlements_after chain contract (Number anc) s))"
      by (simp add: settlements_after_def distinct_newest_first distinct_map_filter d)
    moreover have "r \<in> set (settlements s) \<and> st_chain r = chain \<and> st_contract r = contract \<and> st_status r = ''settled''"
      if "r \<in> set (settlements_after chain contract (Number anc) s)" for r
      using that by (simp add: settlements_after_def)
    ultimately show ?thesis
      using reverse_settlements [OF l1 assms(2)] unfolding settlements_after_def set_newest_first by blast
  qed
  have d1: "distinct (map be_id (ticket_broker_events s1))" using R unfolding chain_rows_def by blast
  have E: "(\<forall>k. gap s2 k = gap s1 k) \<and> chain_rows s2 \<and> settlements s2 = settlements s1 \<and> escrow_snapshots s2 = escrow_snapshots s1 \<and>
      ticket_broker_events s2 = orphan_event_if (\<lambda>q. be_id q \<in> be_id ` set (filter ?Q (ticket_broker_events s1))) (ticket_broker_events s1)"
  proof -
    have "distinct (map be_id (events_after chain contract (Number anc) s1))"
      by (simp add: events_after_def distinct_newest_first distinct_map_filter d1)
    moreover have "r \<in> set (ticket_broker_events s1) \<and> be_chain r = chain \<and> be_contract r = contract \<and> be_status r = ''canonical''"
      if "r \<in> set (events_after chain contract (Number anc) s1)" for r
      using that by (simp add: events_after_def)
    moreover have "chain_rows s1" using R by blast
    ultimately show ?thesis
      using reverse_events [OF l2] unfolding events_after_def set_newest_first by blast
  qed
  have "orphan_if (\<lambda>q. st_id q \<in> st_id ` set (filter ?P (settlements s))) (settlements s) =
      orphan_if (taken_settlement chain contract (Number anc)) (settlements s)"
    unfolding orphan_if_def
  proof (rule update_rows_cong)
    fix q assume q: "q \<in> set (settlements s)"
    have "st_status q = ''settled'' \<or> st_status q = ''orphaned''"
      using q assms(2) by (auto simp: chain_rows_def settlement_wf_def oneOf_def)
    then show "(if st_id q \<in> st_id ` set (filter ?P (settlements s)) then q\<lparr>st_status := ''orphaned''\<rparr> else q) =
        (if taken_settlement chain contract (Number anc) q then q\<lparr>st_status := ''orphaned''\<rparr> else q)"
      unfolding ids_of_selected [OF d q] by (auto simp: taken_settlement_def)
  qed
  moreover have "orphan_event_if (\<lambda>q. be_id q \<in> be_id ` set (filter ?Q (ticket_broker_events s1))) (ticket_broker_events s1) =
      orphan_event_if (taken_event chain contract (Number anc)) (ticket_broker_events s1)"
    unfolding orphan_event_if_def
  proof (rule update_rows_cong)
    fix q assume q: "q \<in> set (ticket_broker_events s1)"
    have "be_status q = ''canonical'' \<or> be_status q = ''orphaned''"
      using q R by (auto simp: chain_rows_def broker_event_wf_def oneOf_def)
    then show "(if be_id q \<in> be_id ` set (filter ?Q (ticket_broker_events s1)) then q\<lparr>be_status := ''orphaned''\<rparr> else q) =
        (if taken_event chain contract (Number anc) q then q\<lparr>be_status := ''orphaned''\<rparr> else q)"
      unfolding ids_of_selected [OF d1 q] by (auto simp: taken_event_def)
  qed
  moreover have "\<forall>k. gap s' k = gap s2 k" "chain_rows s' = chain_rows s2"
    by (simp_all add: s' gap_def chain_effect_def bal_def chain_rows_def)
  ultimately show ?thesis
    using R E by (auto simp: s' AList.update_conv')
qed

lemma Rewind_Inr:
  "Rewind stream chain contract anc s = (Inr u, s') \<longleftrightarrow>
    (\<exists>a. opening_anchor stream s = Some a \<and> a \<le> Number anc) \<and> rewind_to stream chain contract anc s = (Inr u, s')"
  by (auto simp: Rewind_def txs split: option.splits if_splits)

lemma Rewind_kept: "within gap_kept (Rewind stream chain contract anc)"
  unfolding gap_kept_def by (rule withinI) (metis Rewind_Inr rewind_to_fields)

end
