(* ===== verification/Reorg.thy ===== *)
theory Reorg
  imports Escrow
begin

text \<open>
  What a reorganisation leaves: \<open>Rewind\<close> orphans exactly the rows above the common ancestor and
  takes back exactly their balances.  The properties of the escrow ledger stand at the end.
\<close>

section \<open>The rows a rewind leaves\<close>

text \<open>\<open>low\<close>: the rows outside the range a rewind to block \<open>n\<close> takes back, without their match.
  Applying events of that range leaves them alone.\<close>

type_synonym chain_view = "settlement_row list \<times> broker_event_row list \<times> escrow_snapshot_row list"

definition low :: "string \<Rightarrow> string \<Rightarrow> int \<Rightarrow> world \<Rightarrow> chain_view" where
  "low chain contract n s =
     (filter (\<lambda>r. \<not> taken_settlement chain contract n r) (map unmatch (settlements s)),
      filter (\<lambda>r. \<not> taken_event chain contract n r) (ticket_broker_events s), escrow_snapshots s)"

definition view_effect :: "chain_view \<Rightarrow> balances" where
  "view_effect v k = (case v of (sts, evs, sns) \<Rightarrow>
     (\<Sum>r\<leftarrow>sns. snapshot_effect r k) + (\<Sum>r\<leftarrow>evs. event_effect r k) + (\<Sum>r\<leftarrow>sts. settlement_effect r k))"

definition low_kept :: "string \<Rightarrow> string \<Rightarrow> int \<Rightarrow> world \<Rightarrow> world \<Rightarrow> bool" where
  "low_kept chain contract n s s' \<longleftrightarrow> (chain_rows s \<longrightarrow> chain_rows s' \<and> low chain contract n s' = low chain contract n s)"

interpretation lowf: preorder_frame "low_kept chain contract n" for chain contract n
  by unfold_locales (auto simp: low_kept_def)

lemma taken_unmatch [simp]: "taken_settlement chain contract n (unmatch r) = taken_settlement chain contract n r"
  by (simp add: taken_settlement_def unmatch_def)

lemma filter_effect:
  fixes f :: "'a \<Rightarrow> int"
  assumes "\<And>r. r \<in> set xs \<Longrightarrow> P r \<Longrightarrow> f r = 0"
  shows "(\<Sum>r\<leftarrow>filter (\<lambda>r. \<not> P r) xs. f r) = (\<Sum>r\<leftarrow>xs. f r)"
  using assms by (induction xs) auto

lemma low_effect:
  assumes "\<And>r. r \<in> set (settlements s) \<Longrightarrow> taken_settlement chain contract n r \<Longrightarrow> st_status r \<noteq> ''settled''"
    and "\<And>r. r \<in> set (ticket_broker_events s) \<Longrightarrow> taken_event chain contract n r \<Longrightarrow> be_status r \<noteq> ''canonical''"
  shows "chain_effect s k = view_effect (low chain contract n s) k"
proof -
  have "(\<Sum>r\<leftarrow>filter (\<lambda>r. \<not> taken_settlement chain contract n r) (map unmatch (settlements s)). settlement_effect r k) =
      (\<Sum>r\<leftarrow>map unmatch (settlements s). settlement_effect r k)"
    using assms(1) by (intro filter_effect) (auto simp: settlement_effect_def Let_def unmatch_def [of _] taken_settlement_def)
  moreover have "(\<Sum>r\<leftarrow>filter (\<lambda>r. \<not> taken_event chain contract n r) (ticket_broker_events s). event_effect r k) =
      (\<Sum>r\<leftarrow>ticket_broker_events s. event_effect r k)"
    using assms(2) by (intro filter_effect) (auto simp: event_effect_def Let_def)
  ultimately show ?thesis
    by (simp add: chain_effect_def view_effect_def low_def comp_def)
qed

lemma low_update_taken:
  assumes "distinct (map h rows)" "r \<in> set rows" "P r" "\<And>q. P (f q) = P q"
  shows "filter (\<lambda>q. \<not> P q) (update_rows (\<lambda>q. h q = h r) f rows) = filter (\<lambda>q. \<not> P q) rows"
  using assms
proof (induction rows)
  case (Cons x rows)
  show ?case
  proof (cases "x = r")
    case True
    then have "update_rows (\<lambda>x. h x = h r) f rows = rows"
      using Cons.prems(1) by (auto simp: update_rows_def image_iff intro!: map_idI)
    then show ?thesis using True Cons.prems by (simp add: update_rows_def)
  next
    case False
    with Cons.prems have "r \<in> set rows" "h x \<noteq> h r" by auto
    with Cons show ?thesis by (simp add: update_rows_def)
  qed
qed simp

lemma low_nonledger: "nonledger s' = nonledger s \<Longrightarrow> low chain contract n s' = low chain contract n s"
  by (drule nonledger_fields) (simp only: low_def)

lemma low_rematch:
  assumes "rematch pm orch s = (Inr u, s')"
  shows "low chain contract n s' = low chain contract n s"
  using rematch_unmatch [OF assms] rematch_gap(4) [OF assms] nonmatch_fields [OF rematch_frame [OF assms]]
  by (simp add: low_def)

definition above :: "string \<Rightarrow> string \<Rightarrow> int \<Rightarrow> Settlement \<Rightarrow> bool" where
  "above chain contract n x \<longleftrightarrow> se_ChainID x = chain \<and> se_Contract x = contract \<and> n < se_BlockNumber x"

definition event_above :: "string \<Rightarrow> string \<Rightarrow> int \<Rightarrow> EscrowEvent \<Rightarrow> bool" where
  "event_above chain contract n x \<longleftrightarrow> ee_ChainID x = chain \<and> ee_Contract x = contract \<and> n < ee_BlockNumber x \<and>
     (case ee_Settlement x of None \<Rightarrow> True | Some st \<Rightarrow> above chain contract n st)"

lemma insert_new_settlement_low:
  "insert_new_settlement x s = (Inr ig, s1) \<Longrightarrow> above chain contract n x \<Longrightarrow> low chain contract n s1 = low chain contract n s"
  by (auto simp: insert_new_settlement_def insert_settlement_def txs low_def taken_settlement_def above_def new_settlement_def unmatch_def)

lemma revive_settlement_low:
  assumes "revive_settlement r x s = (Inr ig, s1)" "above chain contract n x" "chain_rows s"
    and "find_settlement x s = Some r" "\<not> settlement_differs x r"
  shows "low chain contract n s1 = low chain contract n s"
proof -
  from find_row_Some [OF assms(4) [unfolded find_settlement_def]] have r: "r \<in> set (settlements s)"
    "settlement_identity r = (se_ChainID x, se_Contract x, se_BlockHash x, se_TxHash x, se_LogIndex x)" by simp_all
  then have t: "taken_settlement chain contract n (unmatch r)"
    using assms(2,5) by (simp add: taken_settlement_def above_def settlement_identity_def settlement_differs_def unmatch_def)
  define f where "f = (\<lambda>q :: settlement_row. q\<lparr>st_status := ''settled'', st_generation := snd ig, st_settled_at := se_Timestamp x\<rparr>)"
  have s1: "s1 = s\<lparr>settlements := update_rows (\<lambda>q. st_id q = st_id r) f (settlements s)\<rparr>"
    using assms(1) by (auto simp: revive_settlement_def Let_def txs f_def)
  have "map unmatch (update_rows (\<lambda>q. st_id q = st_id r) f (settlements s)) =
      update_rows (\<lambda>q. st_id q = st_id (unmatch r)) f (map unmatch (settlements s))"
    by (simp add: update_rows_def f_def unmatch_def)
  moreover have "distinct (map st_id (map unmatch (settlements s)))"
    using assms(3) by (simp add: chain_rows_def comp_def)
  ultimately show ?thesis
    using low_update_taken [of st_id "map unmatch (settlements s)" "unmatch r" "taken_settlement chain contract n" f] r(1) t
    by (simp add: low_def s1 taken_settlement_def f_def)
qed

lemma Transfer_low:
  "Transfer key rsn rt ri d di c ci m s = (Inr u, s') \<Longrightarrow> low chain contract n s' = low chain contract n s"
  by (intro low_nonledger) (rule Transfer_gap(3))

lemma pay_settlement_low:
  assumes "pay_settlement x face dp rp i g s = (Inr u, s')"
  shows "low chain contract n s' = low chain contract n s"
  using assms by (rule pay_settlement_Inr) (simp add: low_rematch Transfer_low)

lemma applySettlement_low:
  assumes "applySettlement x s = (Inr u, s')" "above chain contract n x" "chain_rows s"
  shows "low chain contract n s' = low chain contract n s"
proof -
  from applySettlement_Inr [OF assms(1)] obtain face paid dp rp where
    "s' = s \<or> (\<forall>r. find_settlement x s = Some r \<longrightarrow> \<not> settlement_differs x r \<and> st_status r \<noteq> ''settled'') \<and>
     settle x face paid dp rp (find_settlement x s) s = (Inr u, s')" by metis
  then show ?thesis
  proof
    assume c: "(\<forall>r. find_settlement x s = Some r \<longrightarrow> \<not> settlement_differs x r \<and> st_status r \<noteq> ''settled'') \<and>
     settle x face paid dp rp (find_settlement x s) s = (Inr u, s')"
    then obtain i g s1 s2 old match where
      rec: "(case find_settlement x s of None \<Rightarrow> insert_new_settlement x | Some r \<Rightarrow> revive_settlement r x) s = (Inr (i, g), s1)"
      and met: "updateSettlementMetrics old ''settled'' match face paid s1 = (Inr (), s2)"
      and p: "pay_settlement x face dp rp i g s2 = (Inr (), s')"
      by (auto simp: settle_def txs split: prod.splits)
    have "low chain contract n s1 = low chain contract n s"
      using rec c insert_new_settlement_low [OF _ assms(2)] revive_settlement_low [OF _ assms(2,3)]
      by (cases "find_settlement x s") auto
    moreover have "low chain contract n s2 = low chain contract n s1"
      using updateSettlementMetrics_frame [OF met] by (intro low_nonledger) (blast dest: nonmetric_fields)
    ultimately show ?thesis using pay_settlement_low [OF p] by simp
  qed simp
qed

lemma redeem_low:
  assumes "redeem x s = (Inr u, s')" "event_above chain contract n x" "chain_rows s"
  shows "low chain contract n s' = low chain contract n s"
  using assms applySettlement_low by (auto simp: redeem_def event_above_def split: option.splits)

lemma post_event_low:
  assumes "post_event i g x s = (Inr u, s')" "event_above chain contract n x" "chain_rows s"
  shows "low chain contract n s' = low chain contract n s"
proof -
  have "redeem x s = (Inr u, s') \<or> nonledger s' = nonledger s"
    using assms(1) unfolding post_event_def Let_def
    by (auto simp: txs split: if_splits dest!: withdraw_fields(2) Transfer_gap(3))
  then show ?thesis using redeem_low [OF _ assms(2,3)] low_nonledger by blast
qed

lemma insert_new_event_low:
  "insert_new_event x s = (Inr ig, s1) \<Longrightarrow> event_above chain contract n x \<Longrightarrow> low chain contract n s1 = low chain contract n s"
  by (auto simp: insert_new_event_def insert_broker_event_def txs low_def taken_event_def event_above_def)

lemma revive_event_low:
  assumes "revive_event r x s = (Inr ig, s1)" "event_above chain contract n x" "chain_rows s"
    and "find_broker_event x s = Some r" "\<not> event_differs x r"
  shows "low chain contract n s1 = low chain contract n s"
proof -
  from find_row_Some [OF assms(4) [unfolded find_broker_event_def]] have r: "r \<in> set (ticket_broker_events s)"
    "event_identity r = (ee_ChainID x, ee_Contract x, ee_BlockHash x, ee_TxHash x, ee_LogIndex x)" by simp_all
  then have t: "taken_event chain contract n r"
    using assms(2,5) by (simp add: taken_event_def event_above_def event_identity_def event_differs_def)
  show ?thesis
    using assms(1,3) low_update_taken [of be_id "ticket_broker_events s" r "taken_event chain contract n"
      "\<lambda>q. q\<lparr>be_status := ''canonical'', be_generation := snd ig, be_occurred := ee_Timestamp x\<rparr>"] r(1) t
    by (auto simp: revive_event_def Let_def txs low_def taken_event_def chain_rows_def)
qed

lemma applyEscrowEvent_low:
  assumes "event_above chain contract n x"
  shows "within (low_kept chain contract n) (applyEscrowEvent x)"
proof (rule withinI)
  fix s u s' assume run: "applyEscrowEvent x s = (Inr u, s')"
  have k: "chain_rows s \<Longrightarrow> chain_rows s'"
    using withinD [OF applyEscrowEvent_kept run] by (simp add: gap_kept_def)
  have "low chain contract n s' = low chain contract n s" if ok: "chain_rows s"
    using run
  proof (cases rule: applyEscrowEvent_Inr)
    case (replay r) then show ?thesis using redeem_low [OF _ assms ok] by (auto split: if_splits)
  next
    case (fresh i g s1)
    then have "chain_rows s1" using insert_new_event_recorded ok by (auto simp: event_recorded_def)
    then show ?thesis using fresh insert_new_event_low [OF _ assms] post_event_low [OF _ assms] by metis
  next
    case (revived r i g s1)
    then have "chain_rows s1" using revive_event_recorded ok by (auto simp: event_recorded_def)
    then show ?thesis using revived revive_event_low [OF _ assms ok] post_event_low [OF _ assms] by metis
  qed
  with k show "low_kept chain contract n s s'" by (simp add: low_kept_def)
qed

lemma low_row_kept:
  "low_kept chain contract n s (s\<lparr>chain_blocks := d\<rparr>)" "low_kept chain contract n s (s\<lparr>ingestion_checkpoints := e\<rparr>)"
  by (simp_all add: low_kept_def low_def chain_rows_def)

lemma ApplyChain_low:
  assumes "\<And>x. x \<in> set events \<Longrightarrow> event_above chain contract n x"
  shows "within (low_kept chain contract n) (ApplyChain stream blocks events lookback)"
  unfolding ApplyChain_def upsert_chain_block_def SetCheckpoint_def delete_blocks_def
  by (intro lowf.within_intros within_sql_write within_modify within_Write low_row_kept applyEscrowEvent_low assms)

lemma orphaned_rows:
  "r \<in> set (orphan_if P rows) \<Longrightarrow> (\<And>q. P (q\<lparr>st_status := ''orphaned''\<rparr>) = P q) \<Longrightarrow> P r \<Longrightarrow> st_status r = ''orphaned''"
  "e \<in> set (orphan_event_if Q evs) \<Longrightarrow> (\<And>q. Q (q\<lparr>be_status := ''orphaned''\<rparr>) = Q q) \<Longrightarrow> Q e \<Longrightarrow> be_status e = ''orphaned''"
  by (auto simp: orphan_if_def orphan_event_if_def dest!: in_update_rows split: if_splits)

lemma rewind_low:
  assumes "rewind_to stream chain contract anc s = (Inr u, s')" "chain_rows s"
  shows "low chain contract (Number anc) s' = low chain contract (Number anc) s"
    and "chain_effect s' k = view_effect (low chain contract (Number anc) s) k"
proof -
  note F = rewind_to_fields [OF assms]
  have *: "filter (\<lambda>q. \<not> P q) (map g (update_rows P f rows)) = filter (\<lambda>q. \<not> P q) (map g rows)"
    if "\<And>q. P (g q) = P q" "\<And>q. P (f q) = P q" for P :: "'b \<Rightarrow> bool" and f g rows
    using that by (induction rows) (auto simp: update_rows_def)
  show l: "low chain contract (Number anc) s' = low chain contract (Number anc) s"
    using F * [of "taken_settlement chain contract (Number anc)" unmatch "\<lambda>q. q\<lparr>st_status := ''orphaned''\<rparr>" "settlements s"]
      * [of "taken_event chain contract (Number anc)" "\<lambda>q. q" "\<lambda>q. q\<lparr>be_status := ''orphaned''\<rparr>" "ticket_broker_events s"]
    by (simp add: low_def orphan_if_def orphan_event_if_def) (simp add: taken_settlement_def taken_event_def)
  have "chain_effect s' k = view_effect (low chain contract (Number anc) s') k"
  proof (rule low_effect)
    fix r assume "r \<in> set (settlements s')" "taken_settlement chain contract (Number anc) r"
    then have "st_status r = ''orphaned''"
      using F orphaned_rows(1) [of r "taken_settlement chain contract (Number anc)" "settlements s"]
      by (simp add: taken_settlement_def)
    then show "st_status r \<noteq> ''settled''" by simp
  next
    fix r assume "r \<in> set (ticket_broker_events s')" "taken_event chain contract (Number anc) r"
    then have "be_status r = ''orphaned''"
      using F orphaned_rows(2) [of r "taken_event chain contract (Number anc)" "ticket_broker_events s"]
      by (simp add: taken_event_def)
    then show "be_status r \<noteq> ''canonical''" by simp
  qed
  then show "chain_effect s' k = view_effect (low chain contract (Number anc) s) k" by (simp add: l)
qed

section \<open>Replays\<close>

text \<open>The stored row a later delivery of the redemption will find.\<close>

definition settled_as :: "Settlement \<Rightarrow> world \<Rightarrow> bool" where
  "settled_as x s \<longleftrightarrow> (\<exists>r. find_settlement x s = Some r \<and> \<not> settlement_differs x r \<and> st_status r = ''settled'')"

lemma settled_as_cong: "settlements s' = settlements s \<Longrightarrow> settled_as x s' = settled_as x s"
  by (simp add: settled_as_def find_settlement_def)

lemma settled_as_rematch:
  assumes "rematch pm orch s = (Inr u, s')" "settled_as x s"
  shows "settled_as x s'"
proof -
  from rematch_settlements [OF assms(1)] obtain P i st where
    "settlements s' = update_rows P (\<lambda>r. r\<lparr>st_session := i, st_match := st\<rparr>) (settlements s)" by blast
  then have "find_settlement x s' = map_option (\<lambda>r. if P r then r\<lparr>st_session := i, st_match := st\<rparr> else r) (find_settlement x s)"
    by (simp add: find_settlement_def find_row_update settlement_identity_def)
  moreover obtain r where r: "find_settlement x s = Some r" "\<not> settlement_differs x r" "st_status r = ''settled''"
    using assms(2) by (auto simp: settled_as_def)
  ultimately have "find_settlement x s' = Some (if P r then r\<lparr>st_session := i, st_match := st\<rparr> else r)" by simp
  moreover have "\<not> settlement_differs x (if P r then r\<lparr>st_session := i, st_match := st\<rparr> else r)"
    "st_status (if P r then r\<lparr>st_session := i, st_match := st\<rparr> else r) = ''settled''"
    using r by (simp_all add: settlement_differs_def)
  ultimately show ?thesis unfolding settled_as_def by blast
qed

lemma recorded_settled:
  "insert_new_settlement x s = (Inr ig, s1) \<Longrightarrow> find_settlement x s = None \<Longrightarrow> settled_as x s1"
  "revive_settlement r x s = (Inr ig, s1) \<Longrightarrow> find_settlement x s = Some r \<Longrightarrow> \<not> settlement_differs x r \<Longrightarrow> settled_as x s1"
  by (auto simp: insert_new_settlement_def insert_settlement_def revive_settlement_def Let_def txs settled_as_def
      find_settlement_def find_row_append find_row_update settlement_identity_def settlement_differs_def new_settlement_def)

lemma pay_settlement_settled:
  assumes "pay_settlement x face dp rp i g s = (Inr u, s')" "settled_as x s"
  shows "settled_as x s'"
  using assms(1)
proof (cases rule: pay_settlement_Inr)
  case (1 k1 k2 s1 s2)
  have "settlements s2 = settlements s"
    using nonledger_fields [OF Transfer_gap(3) [OF 1(3)]] nonledger_fields [OF Transfer_gap(3) [OF 1(4)]] by simp
  then show ?thesis using settled_as_rematch [OF 1(5)] settled_as_cong assms(2) by blast
qed

lemma applySettlement_settled:
  assumes "applySettlement x s = (Inr u, s')"
  shows "settled_as x s'"
proof -
  from applySettlement_Inr [OF assms] obtain face paid dp rp where
    "settled_as x s \<and> s' = s \<or> (\<forall>r. find_settlement x s = Some r \<longrightarrow> \<not> settlement_differs x r \<and> st_status r \<noteq> ''settled'') \<and>
     settle x face paid dp rp (find_settlement x s) s = (Inr u, s')" unfolding settled_as_def by metis
  then show ?thesis
  proof
    assume c: "(\<forall>r. find_settlement x s = Some r \<longrightarrow> \<not> settlement_differs x r \<and> st_status r \<noteq> ''settled'') \<and>
     settle x face paid dp rp (find_settlement x s) s = (Inr u, s')"
    then obtain i g s1 s2 old match where
      rec: "(case find_settlement x s of None \<Rightarrow> insert_new_settlement x | Some r \<Rightarrow> revive_settlement r x) s = (Inr (i, g), s1)"
      and met: "updateSettlementMetrics old ''settled'' match face paid s1 = (Inr (), s2)"
      and p: "pay_settlement x face dp rp i g s2 = (Inr (), s')"
      by (auto simp: settle_def txs split: prod.splits)
    have "settled_as x s1" using rec c recorded_settled by (cases "find_settlement x s") auto
    moreover have "settlements s2 = settlements s1"
      using nonmetric_fields [OF updateSettlementMetrics_frame [OF met]] nonledger_fields by blast
    ultimately show ?thesis using pay_settlement_settled [OF p] settled_as_cong by blast
  qed simp
qed

lemma applySettlement_replay:
  assumes "applySettlement x s = (Inr u, s')" "settled_as x t"
  shows "applySettlement x t = (Inr (), t)"
proof -
  from applySettlement_Inr [OF assms(1)] obtain face paid dp rp where "split_ok x face paid dp rp" by metis
  then show ?thesis using assms(2) by (auto simp: applySettlement_def split_ok_def settled_as_def bindE_liftE)
qed

definition canonical_as :: "EscrowEvent \<Rightarrow> world \<Rightarrow> bool" where
  "canonical_as x s \<longleftrightarrow> (\<exists>r. find_broker_event x s = Some r \<and> \<not> event_differs x r \<and> be_status r = ''canonical'')"

lemma canonical_as_cong: "ticket_broker_events s' = ticket_broker_events s \<Longrightarrow> canonical_as x s' = canonical_as x s"
  by (simp add: canonical_as_def find_broker_event_def)

lemma recorded_canonical:
  "insert_new_event x s = (Inr ig, s1) \<Longrightarrow> find_broker_event x s = None \<Longrightarrow> canonical_as x s1"
  "revive_event r x s = (Inr ig, s1) \<Longrightarrow> find_broker_event x s = Some r \<Longrightarrow> \<not> event_differs x r \<Longrightarrow> canonical_as x s1"
  by (auto simp: insert_new_event_def insert_broker_event_def revive_event_def Let_def txs canonical_as_def
      find_broker_event_def find_row_append find_row_update event_identity_def event_differs_def new_broker_event_def)

lemma redeem_replay:
  assumes "redeem x s = (Inr u, s')"
  shows "redeem x s' = (Inr (), s')"
proof -
  from assms obtain st where st: "ee_Settlement x = Some st" and r: "applySettlement st s = (Inr u, s')"
    by (auto simp: redeem_def split: option.splits)
  show ?thesis
    using applySettlement_replay [OF r applySettlement_settled [OF r]] by (simp add: redeem_def st)
qed

lemma post_event_redeem: "post_event i g x s = (Inr u, s') \<Longrightarrow> ee_Type x = WinningTicketRedeemed \<Longrightarrow> redeem x s = (Inr u, s')"
  by (simp add: post_event_def Let_def event_types)

section \<open>A sample chain\<close>

text \<open>A stream with one sender, opened at block 10 with a deposit of 100 and a reserve of 50.\<close>

definition sample_sender :: string where
  "sample_sender = ''0x1111111111111111111111111111111111111111''"

definition sample_contract :: string where
  "sample_contract = ''0x2222222222222222222222222222222222222222''"

definition sample_hash :: "char \<Rightarrow> string" where
  "sample_hash c = ''0x'' @ replicate 64 c"

definition sample_owner :: string where
  "sample_owner = ''1:0x2222222222222222222222222222222222222222:0x1111111111111111111111111111111111111111''"

definition sample_treasury :: string where
  "sample_treasury = ''1:0x1111111111111111111111111111111111111111''"

definition sample_escrow :: world where
  "sample_escrow = sample\<lparr>tick := 10,
      ledger_transactions := [
        \<lparr>lt_id = ''t1'', lt_key = ''snapshot:s1:deposit'', lt_reason = ''opening deposit'',
         lt_ref_type = ''escrow_snapshot'', lt_ref_id = ''s1'', lt_created = 5\<rparr>,
        \<lparr>lt_id = ''t2'', lt_key = ''snapshot:s1:reserve'', lt_reason = ''opening reserve'',
         lt_ref_type = ''escrow_snapshot'', lt_ref_id = ''s1'', lt_created = 5\<rparr>],
      ledger_entries := [
        entry_row ''e1'' ''t1'' TreasuryCash sample_treasury Debit 100 ''eth'' 5,
        entry_row ''e2'' ''t1'' EscrowDeposit sample_owner Credit 100 ''eth'' 5,
        entry_row ''e3'' ''t2'' TreasuryCash sample_treasury Debit 50 ''eth'' 5,
        entry_row ''e4'' ''t2'' EscrowReserve sample_owner Credit 50 ''eth'' 5],
      account_balances := [((TreasuryCash, sample_treasury, ''eth''), ''-150''),
        ((EscrowDeposit, sample_owner, ''eth''), ''100''), ((EscrowReserve, sample_owner, ''eth''), ''50'')],
      escrow_snapshots := [\<lparr>es_id = ''s1'', es_stream = ''st'', es_chain = ''1'', es_contract = sample_contract,
        es_sender = sample_sender, es_block_number = 10, es_block_hash = sample_hash (CHR ''a''),
        es_deposit = ''100'', es_reserve = ''50'', es_created = 5\<rparr>],
      ingestion_checkpoints := [((''chain'', ''st''), 11, sample_hash (CHR ''a''))],
      chain_blocks := [((''st'', 10), sample_hash (CHR ''a''))],
      metric_balances := [((EscrowDeposit, ''s1'', ''eth''), sample_owner, ''100''),
        ((EscrowReserve, ''s1'', ''eth''), sample_owner, ''50'')],
      metric_amounts := AList.update (''escrow_deposit'', ''eth'') ''100'' (AList.update (''escrow_reserve'', ''eth'') ''50'' (metric_amounts sample))\<rparr>"

definition sample_redemption :: Settlement where
  "sample_redemption = \<lparr>se_ChainID = ''1'', se_Contract = sample_contract, se_TxHash = sample_hash (CHR ''c''),
     se_BlockHash = sample_hash (CHR ''b''), se_Sender = sample_sender, se_Recipient = sample_contract,
     se_FaceValue = ''120'', se_PaidAmount = ''120'', se_DepositPaid = ''100'', se_ReservePaid = ''20'',
     se_WinProb = ''1'', se_Nonce = ''1'', se_Rand = ''1'', se_PMSessionID = sample_hash (CHR ''0''), se_AuxData = ''0x'',
     se_LogIndex = 0, se_BlockNumber = 11, se_Timestamp = 1700000000000\<rparr>"

definition sample_event :: EscrowEvent where
  "sample_event = \<lparr>ee_Type = ''winning_ticket_redeemed'', ee_ChainID = ''1'', ee_Contract = sample_contract, ee_TxHash = sample_hash (CHR ''c''),
     ee_BlockHash = sample_hash (CHR ''b''), ee_Sender = sample_sender, ee_Recipient = sample_contract,
     ee_Amount = ''120'', ee_DepositAmount = ''0'', ee_ReserveAmount = ''0'', ee_LogIndex = 0, ee_BlockNumber = 11,
     ee_Timestamp = 1700000000000, ee_Settlement = Some sample_redemption\<rparr>"

definition sample_blocks :: "Block list" where
  "sample_blocks = [\<lparr>Number = 11, Hash = sample_hash (CHR ''b'')\<rparr>]"

definition sample_anchor :: Block where
  "sample_anchor = \<lparr>Number = 10, Hash = sample_hash (CHR ''a'')\<rparr>"

definition sample_applied :: world where
  "sample_applied = snd (ApplyChain ''st'' sample_blocks [sample_event] 5 sample_escrow)"

lemma sample_applied_run: "ApplyChain ''st'' sample_blocks [sample_event] 5 sample_escrow = (Inr (), sample_applied)"
proof -
  have "fst (ApplyChain ''st'' sample_blocks [sample_event] 5 sample_escrow) = Inr ()" by code_simp
  then show ?thesis by (simp add: prod_eq_iff sample_applied_def)
qed

lemma sample_rewound_run: "fst (Rewind ''st'' ''1'' sample_contract sample_anchor sample_applied) = Inr ()"
  by code_simp

lemma sample_escrow_rows: "chain_rows sample_escrow"
  by (simp add: chain_rows_def sample_escrow_def sample_def migrated_def)

lemma sample_escrow_units:
  "units_val ''-150'' = - 150" "units_val ''100'' = 100" "units_val ''50'' = 50" "int_str 100 = ''100''" "int_str 50 = ''50''"
  "int_str (- 150) = ''-150''"
  by code_simp+

lemma sample_escrow_bal: "bal sample_escrow k = (if k = eth TreasuryCash sample_treasury then - 150
    else if k = eth EscrowDeposit sample_owner then 100 else if k = eth EscrowReserve sample_owner then 50 else 0)"
  by (simp add: bal_def tget_def sample_escrow_def eth_def sample_escrow_units)

lemma sample_owners:
  "escrowOwner ''1'' sample_contract sample_sender = sample_owner" "treasuryOwner ''1'' sample_sender = sample_treasury"
  by (simp_all add: escrowOwner_def treasuryOwner_def sample_contract_def sample_sender_def sample_owner_def sample_treasury_def)

lemma sample_escrow_ok: "escrow_ok sample_escrow"
proof -
  have "chain_effect sample_escrow k = pay (eth TreasuryCash sample_treasury) (eth EscrowDeposit sample_owner) 100 k +
      pay (eth TreasuryCash sample_treasury) (eth EscrowReserve sample_owner) 50 k" for k
    by (simp add: chain_effect_def sample_escrow_def sample_def migrated_def snapshot_effect_def Let_def
        sample_owners sample_escrow_units)
  moreover have "TreasuryCash \<noteq> EscrowDeposit \<and> TreasuryCash \<noteq> EscrowReserve \<and> EscrowDeposit \<noteq> EscrowReserve" by simp
  ultimately show ?thesis
    by (simp add: escrow_ok_def sample_escrow_bal pay_def) (simp add: eth_def)
qed

lemma sample_escrow_accounts: "accounts_ok sample_escrow"
proof -
  have "entry_sum (ledger_entries sample_escrow) (a, i, c) = bal sample_escrow (a, i, c)" for a i c
  proof -
    have "entry_sum (ledger_entries sample_escrow) (a, i, c) = (if (a, i, c) = eth TreasuryCash sample_treasury then - 150
        else if (a, i, c) = eth EscrowDeposit sample_owner then 100 else if (a, i, c) = eth EscrowReserve sample_owner then 50 else 0)"
      by (auto simp: sample_escrow_def eth_def)
    then show ?thesis by (simp only: sample_escrow_bal)
  qed
  then have "ledger_ok sample_escrow"
    by (auto simp: ledger_ok_def net_def sample_escrow_def sample_escrow_units intro: exI [of _ "- 150"] exI [of _ "100 :: int"] exI [of _ "50 :: int"])
  moreover have "funds (grants sample_escrow) (allocations sample_escrow) (bal sample_escrow)"
    by (simp add: funds_def no_stray_def sample_escrow_bal eth_def) (simp add: sample_escrow_def sample_def migrated_def)
  ultimately show ?thesis by (simp add: accounts_ok_def)
qed

section \<open>Properties\<close>

text \<open>
  C14: the chain operations implement the specification \<open>chain_effect\<close>: opening a stream, applying a
  batch of blocks and rewinding each preserve the ledger and funds invariants, the row checks, and
  the equation that every treasury and escrow balance is the sum of what the snapshots, the
  canonical events and the settled redemptions stand for.
\<close>

theorem chain_balances:
  assumes "BootstrapChain stream anchor snapshots s = (Inr u, s') \<or> ApplyChain stream blocks events lookback s = (Inr u, s') \<or>
      Rewind stream chain contract anchor s = (Inr u, s')"
    and "accounts_ok s" "chain_rows s" "escrow_ok s"
  shows "accounts_ok s' \<and> chain_rows s' \<and> escrow_ok s'"
proof -
  have "gap_kept s s' \<and> chain_frame s s'"
    using assms(1)
  proof (elim disjE)
    assume r: "BootstrapChain stream anchor snapshots s = (Inr u, s')"
    show ?thesis using withinD [OF BootstrapChain_kept r] withinD [OF BootstrapChain_chain r] ..
  next
    assume r: "ApplyChain stream blocks events lookback s = (Inr u, s')"
    show ?thesis using withinD [OF ApplyChain_kept r] withinD [OF ApplyChain_chain r] ..
  next
    assume r: "Rewind stream chain contract anchor s = (Inr u, s')"
    show ?thesis using withinD [OF Rewind_kept r] withinD [OF Rewind_chain r] ..
  qed
  then show ?thesis using assms gap_kept_chain_ok chain_frame_accounts by blast
qed

lemma chain_balances_witness: "accounts_ok sample_applied \<and> chain_rows sample_applied \<and> escrow_ok sample_applied"
  using chain_balances [OF disjI2 [OF disjI1 [OF sample_applied_run]] sample_escrow_accounts sample_escrow_rows sample_escrow_ok] .

text \<open>
  C15: a redemption that is not settled yet pays from the sender's deposit first, exactly the smaller of
  the face value and the deposit balance, and only the rest from the reserve, which must cover it;
  both go to the sender's settled spend, the total is the paid amount and never exceeds the face
  value, and neither escrow balance is overdrawn.
\<close>

theorem applySettlement_waterfall:
  assumes "applySettlement x s = (Inr u, s')" "chain_rows s"
    and "\<And>r. find_settlement x s = Some r \<Longrightarrow> st_status r \<noteq> ''settled''"
  shows "\<exists>deposit reserve. Amount (se_DepositPaid x) = Inr deposit \<and> Amount (se_ReservePaid x) = Inr reserve \<and>
    Amount (se_PaidAmount x) = Inr (deposit + reserve) \<and> deposit + reserve \<le> units_val (se_FaceValue x) \<and>
    deposit = min (units_val (se_FaceValue x)) (bal s (eth EscrowDeposit (escrow_of x))) \<and>
    reserve \<le> bal s (eth EscrowReserve (escrow_of x)) \<and>
    bal s' (eth EscrowDeposit (escrow_of x)) = bal s (eth EscrowDeposit (escrow_of x)) - deposit \<and>
    bal s' (eth EscrowReserve (escrow_of x)) = bal s (eth EscrowReserve (escrow_of x)) - reserve \<and>
    bal s' (eth TreasurySettledSpend (treasuryOwner (se_ChainID x) (se_Sender x))) =
      bal s (eth TreasurySettledSpend (treasuryOwner (se_ChainID x) (se_Sender x))) + (deposit + reserve) \<and>
    0 \<le> bal s' (eth EscrowDeposit (escrow_of x)) \<and> 0 \<le> bal s' (eth EscrowReserve (escrow_of x))"
proof -
  from applySettlement_Inr [OF assms(1)] assms(3) obtain face paid dp rp where sp: "split_ok x face paid dp rp"
    and r: "\<forall>r. find_settlement x s = Some r \<longrightarrow> \<not> settlement_differs x r \<and> st_status r \<noteq> ''settled''"
      "settle x face paid dp rp (find_settlement x s) s = (Inr u, s')" by metis
  note f = settle_fields [OF r(2) assms(2) sp refl] and su = split_ok_units [OF sp]
  have b: "bal s' k = bal s k + settle_effect x k" for k using f(2) r(1) by blast
  have m: "dp = min face (bal s (eth EscrowDeposit (escrow_of x)))" "rp \<le> bal s (eth EscrowReserve (escrow_of x))"
    using f(3,4) r(1) by blast+
  have "settle_effect x (eth EscrowDeposit (escrow_of x)) = - dp" "settle_effect x (eth EscrowReserve (escrow_of x)) = - rp"
    "settle_effect x (eth TreasurySettledSpend (treasuryOwner (se_ChainID x) (se_Sender x))) = dp + rp"
    by (simp_all add: settle_effect_def Let_def pay_def eth_def su)
  then show ?thesis using sp su m by (auto simp: b split_ok_def)
qed

lemma applySettlement_waterfall_witness:
  "\<exists>s'. applySettlement sample_redemption sample_escrow = (Inr (), s') \<and>
    bal s' (eth EscrowDeposit sample_owner) = 0 \<and> bal s' (eth EscrowReserve sample_owner) = 30 \<and>
    bal s' (eth TreasurySettledSpend sample_treasury) = 120"
proof -
  let ?r = "applySettlement sample_redemption sample_escrow"
  have "fst ?r = Inr ()" by code_simp
  then have run: "?r = (Inr (), snd ?r)" by (simp add: prod_eq_iff)
  have none: "find_settlement sample_redemption sample_escrow = None"
    by (simp add: find_settlement_def find_row_def sample_escrow_def sample_def migrated_def)
  have x: "se_ChainID sample_redemption = ''1''" "se_Sender sample_redemption = sample_sender"
    "se_DepositPaid sample_redemption = ''100''" "se_ReservePaid sample_redemption = ''20''"
    and o: "escrow_of sample_redemption = sample_owner"
    by (simp_all add: sample_redemption_def escrow_of_def sample_owners)
  have a: "Amount ''100'' = Inr 100" "Amount ''20'' = Inr 20" by code_simp+
  from applySettlement_waterfall [OF run sample_escrow_rows] none show ?thesis
    using run by (auto simp: x o a sample_owners sample_escrow_bal) (auto simp: eth_def)
qed

text \<open>
  C16: a rewind to a common ancestor orphans exactly the stream's rows above it, leaves every treasury
  and escrow balance equal to what the remaining rows stand for, changes no grant or allocation
  balance and no usage record, forgets the blocks above the ancestor and continues right after it.
\<close>

theorem Rewind_exact:
  assumes "Rewind stream chain contract anc s = (Inr u, s')" "chain_rows s" "escrow_ok s"
  shows "settlements s' = orphan_if (taken_settlement chain contract (Number anc)) (settlements s) \<and>
    ticket_broker_events s' = orphan_event_if (taken_event chain contract (Number anc)) (ticket_broker_events s) \<and>
    (\<forall>k. chain_account (fst k) \<longrightarrow> bal s' k = view_effect (low chain contract (Number anc) s) k) \<and>
    (\<forall>k. \<not> chain_account (fst k) \<longrightarrow> bal s' k = bal s k) \<and>
    usage_events s' = usage_events s \<and> grants s' = grants s \<and> allocations s' = allocations s \<and>
    (\<forall>b \<in> set (chain_blocks s'). fst (fst b) = stream \<longrightarrow> snd (fst b) \<le> Number anc) \<and>
    map_of (ingestion_checkpoints s') (''chain'', stream) = Some (i64 (Number anc + 1), Hash anc)"
proof -
  have r: "rewind_to stream chain contract anc s = (Inr u, s')" using assms(1) by (simp add: Rewind_Inr)
  note F = rewind_to_fields [OF r assms(2)]
  have c: "chain_frame s s'" by (rule withinD [OF Rewind_chain assms(1)])
  have "escrow_ok s'" using withinD [OF Rewind_kept assms(1)] gap_kept_chain_ok assms(2,3) by blast
  then have "bal s' k = view_effect (low chain contract (Number anc) s) k" if "chain_account (fst k)" for k
    using that rewind_low(2) [OF r assms(2)] unfolding escrow_ok_def by metis
  moreover have "other_tables s' = other_tables s" "\<forall>k. \<not> chain_account (fst k) \<longrightarrow> bal s' k = bal s k"
    using c unfolding chain_frame_def by blast+
  ultimately show ?thesis using F other_tables_fields [of s' s] by blast
qed

lemma Rewind_exact_witness:
  "\<exists>s'. Rewind ''st'' ''1'' sample_contract sample_anchor sample_applied = (Inr (), s') \<and>
    map_of (ingestion_checkpoints s') (''chain'', ''st'') = Some (11, sample_hash (CHR ''a''))"
proof -
  let ?r = "Rewind ''st'' ''1'' sample_contract sample_anchor sample_applied"
  have "fst ?r = Inr ()" by (rule sample_rewound_run)
  then have run: "?r = (Inr (), snd ?r)" by (simp add: prod_eq_iff)
  have ok: "chain_rows sample_applied \<and> escrow_ok sample_applied"
    using withinD [OF ApplyChain_kept sample_applied_run] gap_kept_chain_ok sample_escrow_rows sample_escrow_ok by blast
  have "i64 11 = 11" by (simp add: i64_def)
  then show ?thesis using Rewind_exact [OF run] ok run by (auto simp: sample_anchor_def)
qed

text \<open>
  C17: a reorganisation undoes a batch exactly: when a batch of events above an ancestor is applied and
  the stream is then rewound to it, every balance of the whole ledger is what it was before.
\<close>

theorem Rewind_undoes_ApplyChain:
  assumes "ApplyChain stream blocks events lookback s = (Inr u, s1)" "Rewind stream' chain contract anc s1 = (Inr u', s2)"
    and "chain_rows s" "escrow_ok s" "\<And>x. x \<in> set events \<Longrightarrow> event_above chain contract (Number anc) x"
    and "\<And>r. r \<in> set (settlements s) \<Longrightarrow> taken_settlement chain contract (Number anc) r \<Longrightarrow> st_status r \<noteq> ''settled''"
    and "\<And>r. r \<in> set (ticket_broker_events s) \<Longrightarrow> taken_event chain contract (Number anc) r \<Longrightarrow> be_status r \<noteq> ''canonical''"
  shows "bal s2 = bal s"
proof
  fix k
  have ok1: "chain_rows s1 \<and> escrow_ok s1"
    using withinD [OF ApplyChain_kept assms(1)] gap_kept_chain_ok assms(3,4) by blast
  have ok2: "escrow_ok s2" using withinD [OF Rewind_kept assms(2)] gap_kept_chain_ok ok1 by blast
  have low1: "low chain contract (Number anc) s1 = low chain contract (Number anc) s"
    using withinD [OF ApplyChain_low [OF assms(5)] assms(1)] assms(3) by (simp add: low_kept_def)
  have r: "rewind_to stream' chain contract anc s1 = (Inr u', s2)" using assms(2) by (simp add: Rewind_Inr)
  show "bal s2 k = bal s k"
  proof (cases "chain_account (fst k)")
    case True
    have "bal s2 k = view_effect (low chain contract (Number anc) s) k"
      using True ok2 rewind_low(2) [OF r] ok1 low1 unfolding escrow_ok_def by metis
    moreover have "chain_effect s k = view_effect (low chain contract (Number anc) s) k"
      using assms(6,7) by (intro low_effect)
    ultimately show ?thesis using True assms(4) unfolding escrow_ok_def by metis
  next
    case False
    then show ?thesis
      using withinD [OF ApplyChain_chain assms(1)] withinD [OF Rewind_chain assms(2)] unfolding chain_frame_def by metis
  qed
qed

lemma Rewind_undoes_ApplyChain_witness:
  "bal (snd (Rewind ''st'' ''1'' sample_contract sample_anchor sample_applied)) = bal sample_escrow"
proof -
  let ?r = "Rewind ''st'' ''1'' sample_contract sample_anchor sample_applied"
  have "fst ?r = Inr ()" by (rule sample_rewound_run)
  then have run: "?r = (Inr (), snd ?r)" by (simp add: prod_eq_iff)
  have "event_above ''1'' sample_contract (Number sample_anchor) x" if "x \<in> set [sample_event]" for x
    using that by (simp add: event_above_def above_def sample_event_def sample_redemption_def sample_anchor_def)
  moreover have "settlements sample_escrow = []" "ticket_broker_events sample_escrow = []"
    by (simp_all add: sample_escrow_def sample_def migrated_def)
  ultimately show ?thesis
    using Rewind_undoes_ApplyChain [OF sample_applied_run run sample_escrow_rows sample_escrow_ok] by simp
qed

text \<open>
  C18: delivering an event again is harmless: once an event has been applied, applying it again
  succeeds and changes nothing at all.
\<close>

theorem applyEscrowEvent_idempotent:
  assumes "applyEscrowEvent x s = (Inr u, s')" "chain_rows s"
  shows "applyEscrowEvent x s' = (Inr (), s')"
proof -
  have "canonical_as x s' \<and> (ee_Type x = WinningTicketRedeemed \<longrightarrow> redeem x s' = (Inr (), s'))"
    using assms(1)
  proof (cases rule: applyEscrowEvent_Inr)
    case (replay r)
    then have "ticket_broker_events s' = ticket_broker_events s"
      using redeem_fields(3) [OF _ assms(2)] by (auto split: if_splits)
    moreover have "canonical_as x s" using replay by (simp add: canonical_as_def)
    ultimately have "canonical_as x s'" using canonical_as_cong by blast
    then show ?thesis using replay(4) redeem_replay [of x s u s'] by (simp split: if_splits)
  next
    case (fresh i g s1)
    then have "chain_rows s1" using insert_new_event_recorded assms(2) by (auto simp: event_recorded_def)
    then have "ticket_broker_events s' = ticket_broker_events s1" using fresh post_event_fields(3) by blast
    moreover have "canonical_as x s1" using fresh recorded_canonical(1) by blast
    ultimately show ?thesis
      using fresh(3) post_event_redeem redeem_replay canonical_as_cong by blast
  next
    case (revived r i g s1)
    then have "chain_rows s1" using revive_event_recorded assms(2) by (auto simp: event_recorded_def)
    then have "ticket_broker_events s' = ticket_broker_events s1" using revived post_event_fields(3) by blast
    moreover have "canonical_as x s1" using revived recorded_canonical(2) by blast
    ultimately show ?thesis
      using revived(5) post_event_redeem redeem_replay canonical_as_cong by blast
  qed
  then show ?thesis by (auto simp: applyEscrowEvent_def canonical_as_def)
qed

lemma applyEscrowEvent_idempotent_witness:
  "\<exists>s'. applyEscrowEvent sample_event sample_escrow = (Inr (), s') \<and> applyEscrowEvent sample_event s' = (Inr (), s')"
proof -
  let ?r = "applyEscrowEvent sample_event sample_escrow"
  have "fst ?r = Inr ()" by code_simp
  then have "?r = (Inr (), snd ?r)" by (simp add: prod_eq_iff)
  then show ?thesis using applyEscrowEvent_idempotent [OF _ sample_escrow_rows] by metis
qed

text \<open>
  A rewind below a stream's opening snapshot is refused with the sentinel error and writes nothing;
  an applied withdrawal was reported with exactly the balances it empties, and any other is refused.
\<close>

lemma escrow_refusals:
  "(case opening_anchor stream s of None \<Rightarrow> True | Some a \<Rightarrow> a \<le> Number anc \<or>
      Rewind stream chain contract anc s = (Inl ErrEscrowSnapshotReorg, s)) \<and>
   (case withdraw key treasury escrow x i s of (Inl e, s') \<Rightarrow> True | (Inr v, s') \<Rightarrow>
      bal s (eth EscrowDeposit escrow) = units_val (ee_DepositAmount x) \<and>
      bal s (eth EscrowReserve escrow) = units_val (ee_ReserveAmount x) \<and>
      bal s' (eth EscrowDeposit escrow) = 0 \<and> bal s' (eth EscrowReserve escrow) = 0)"
proof -
  have "a \<le> Number anc \<or> Rewind stream chain contract anc s = (Inl ErrEscrowSnapshotReorg, s)"
    if "opening_anchor stream s = Some a" for a
    using that by (simp add: Rewind_def Write_def rollback_def)
  moreover have "bal s' (eth EscrowDeposit escrow) = 0 \<and> bal s' (eth EscrowReserve escrow) = 0"
    if w: "withdraw key treasury escrow x i s = (Inr v, s')" for v s'
  proof -
    have "chain_effect s' k = chain_effect s k" for k
      using nonledger_fields [OF withdraw_fields(2) [OF w]] by (simp add: chain_effect_def)
    then have "bal s' k = bal s k + pay (eth EscrowDeposit escrow) (eth TreasuryCash treasury) (units_val (ee_DepositAmount x)) k +
      pay (eth EscrowReserve escrow) (eth TreasuryCash treasury) (units_val (ee_ReserveAmount x)) k" for k
      using withdraw_fields(1) [OF w, of k] by (simp add: gap_def)
    then show ?thesis using withdraw_fields(3,4) [OF w] by (simp add: pay_def eth_def)
  qed
  ultimately show ?thesis
    using withdraw_fields(3,4) [of key treasury escrow x i s]
    by (cases "opening_anchor stream s"; cases "withdraw key treasury escrow x i s"; cases "fst (withdraw key treasury escrow x i s)")
      (auto simp: not_less)
qed

end
