(* ===== verification/Chain.thy ===== *)
theory Chain
  imports Reorg
begin

text \<open>
  \<open>internal/chain/listener.go\<close>: the listener that reads confirmed blocks of the TicketBroker contract
  and feeds them to \<open>Settlements\<close>.  What the source takes from go-ethereum is the record \<open>geth\<close> (ABI
  packing, hashing, address conversion) and the JSON-RPC node is the record \<open>rpc\<close>, whose answers
  may differ from call to call; both are arguments of the definitions that use them.
\<close>

section \<open>The outside\<close>

record eth_header =
  h_Number :: "int option"
  h_Hash :: string
  h_ParentHash :: string
  h_Time :: nat

record Log =
  l_Address :: string
  l_Topics :: "string list"
  l_Data :: string
  l_BlockNumber :: nat
  l_TxHash :: string
  l_BlockHash :: string
  l_Index :: nat
  l_Removed :: bool

record redemption_data =
  rd_FaceValue :: "int option"
  rd_WinProb :: "int option"
  rd_SenderNonce :: "int option"
  rd_RecipientRand :: "int option"
  rd_AuxData :: string

text \<open>go-ethereum: hashes and addresses are byte strings, ABI decoding may fail or yield \<open>nil\<close>.\<close>

record geth =
  event_id :: "string \<Rightarrow> string"
  keccak256 :: "string \<Rightarrow> string"
  hash_Hex :: "string \<Rightarrow> string"
  address_Hex :: "string \<Rightarrow> string"
  HexToAddress :: "string \<Rightarrow> string"
  BytesToAddress :: "string \<Rightarrow> string"
  BytesToHash :: "string \<Rightarrow> string"
  unpack_amount :: "string \<Rightarrow> string \<Rightarrow> int option result"
  unpack_claim :: "string \<Rightarrow> (string \<times> int option) result"
  unpack_withdrawal :: "string \<Rightarrow> (int option \<times> int option) result"
  unpack_redemption :: "string \<Rightarrow> redemption_data result"
  pack_getSenderInfo :: "string \<Rightarrow> string result"
  unpack_getSenderInfo :: "string \<Rightarrow> (int option \<times> int option) result"
  pack_getContract :: "string \<Rightarrow> string result"
  unpack_getContract :: "string \<Rightarrow> string option list result"

record query =
  q_FromBlock :: int
  q_ToBlock :: int
  q_Address :: string
  q_Topics :: "string list list"

record rpc =
  ChainID :: "nat \<Rightarrow> int option result"
  HeaderByNumber :: "nat \<Rightarrow> int option \<Rightarrow> eth_header option result"
  FilterLogs :: "nat \<Rightarrow> query \<Rightarrow> Log list result"
  CallContract :: "nat \<Rightarrow> string \<Rightarrow> string \<Rightarrow> int option \<Rightarrow> string result"

section \<open>Errors\<close>

text \<open>\<open>errors.As\<close> looks through \<open>fatalError\<close> for a \<open>stageError\<close>.\<close>

fun stage_of :: "error \<Rightarrow> string option" where
  "stage_of (StageError stage e) = Some stage"
| "stage_of (FatalError e) = stage_of e"
| "stage_of _ = None"

definition failureStage :: "error \<Rightarrow> string" where
  "failureStage e = (case stage_of e of None \<Rightarrow> ''poll'' | Some stage \<Rightarrow> stage)"

definition atStage :: "string \<Rightarrow> error \<Rightarrow> error" where
  "atStage stage e = (case stage_of e of None \<Rightarrow> StageError stage e | Some _ \<Rightarrow> e)"

fun is_fatal :: "error \<Rightarrow> bool" where
  "is_fatal (FatalError e) = True"
| "is_fatal (StageError stage e) = is_fatal e"
| "is_fatal _ = False"

definition stageE :: "string \<Rightarrow> (world, 'a) tx \<Rightarrow> (world, 'a) tx" where
  "stageE stage m s = (case m s of (Inl e, s') \<Rightarrow> (Inl (atStage stage e), s') | (Inr x, s') \<Rightarrow> (Inr x, s'))"

lemma stageE_Inr [txs]: "stageE stage m s = (Inr x, s') \<longleftrightarrow> m s = (Inr x, s')"
  by (auto simp: stageE_def split: prod.splits sum.splits)

section \<open>Configuration\<close>

record Config =
  URL :: string
  cfg_ChainID :: string
  cfg_Contract :: string
  Senders :: "string list"
  Start :: "int option"
  Confirmations :: int
  BatchSize :: int
  Lookback :: int
  Poll :: int

definition chain_id_error :: "string \<Rightarrow> bool" where
  "chain_id_error v = (case Amount v of Inl e \<Rightarrow> True | Inr n \<Rightarrow> n \<le> 0)"

fun check_senders :: "string list \<Rightarrow> unit result" where
  "check_senders [] = Inr ()"
| "check_senders (x # xs) = (case Address x of Inl e \<Rightarrow> Inl e | Inr a \<Rightarrow> check_senders xs)"

definition check_contract :: "string \<Rightarrow> unit result" where
  "check_contract v = (if v = [] then Inr () else case Address v of
     Inl e \<Rightarrow> Inl (wrap_error ''contract address'' e) | Inr a \<Rightarrow> Inr ())"

definition bad_start :: "int option \<Rightarrow> bool" where
  "bad_start v = (case v of None \<Rightarrow> False | Some n \<Rightarrow> n < 0 \<or> n = MaxInt64)"

definition Validate :: "Config \<Rightarrow> unit result" where
  "Validate c =
     (if cfg_ChainID c \<noteq> [] \<and> chain_id_error (cfg_ChainID c)
      then Inl (PlainError ''chain ID must be a positive integer'')
      else case check_contract (cfg_Contract c) of Inl e \<Rightarrow> Inl e | Inr _ \<Rightarrow>
        if Senders c = [] then Inl (PlainError ''at least one signer address required'')
        else case check_senders (Senders c) of Inl e \<Rightarrow> Inl e | Inr _ \<Rightarrow>
          if bad_start (Start c) then Inl (PlainError ''invalid start block'')
          else if Confirmations c < 0 \<or> BatchSize c \<le> 0 \<or> Lookback c < 1 \<or> Poll c \<le> 0
          then Inl (PlainError ''invalid chain polling bounds'')
          else Inr ())"

definition Stream :: "Config \<Rightarrow> string" where
  "Stream c = cfg_ChainID c @ '':'' @ ToLower (cfg_Contract c) @ '':'' @
     join '','' (compact (sort (map ToLower (Senders c))))"

definition zero_address :: string where
  "zero_address = replicate 20 (CHR 0x00)"

definition arbitrumOneChainID :: string where
  "arbitrumOneChainID = ''42161''"

definition arbitrumOneController :: string where
  "arbitrumOneController = ''0xD8E8328501E9645d16Cf49539efC04f734606ee4''"

definition resolveTicketBroker :: "geth \<Rightarrow> rpc \<Rightarrow> string \<Rightarrow> (world, string) tx" where
  "resolveTicketBroker g r controller =
     bindE (liftE (pack_getContract g (keccak256 g ''TicketBroker''))) (\<lambda>data.
     bindE (wrapE ''resolve TicketBroker from Livepeer Controller'' (rpc_call (\<lambda>t. CallContract r t controller data None))) (\<lambda>result.
     bindE (wrapE ''decode TicketBroker from Livepeer Controller'' (liftE (unpack_getContract g result))) (\<lambda>values.
       case values of
         [v] \<Rightarrow> (case v of
             None \<Rightarrow> fail (PlainError ''the Livepeer Controller returned an empty TicketBroker address'')
           | Some contract \<Rightarrow>
               if contract = zero_address
               then fail (PlainError ''the Livepeer Controller returned an empty TicketBroker address'')
               else ret contract)
       | _ \<Rightarrow> fail (PlainError ''the Livepeer Controller returned an invalid TicketBroker result''))))"

definition resolve_contract :: "geth \<Rightarrow> rpc \<Rightarrow> Config \<Rightarrow> string \<Rightarrow> (world, Config) tx" where
  "resolve_contract g r c resolved =
     (if cfg_Contract c \<noteq> [] then ret c
      else if resolved \<noteq> arbitrumOneChainID
      then fail (PlainError (''--ticket-broker required for chain ID '' @ resolved))
      else bindE (resolveTicketBroker g r (HexToAddress g arbitrumOneController)) (\<lambda>contract.
        ret (c\<lparr>cfg_Contract := ToLower (address_Hex g contract)\<rparr>)))"

text \<open>\<open>resolveConfig\<close> fills in the listener's configuration; here it returns the completed one.\<close>

definition resolveConfig :: "geth \<Rightarrow> rpc \<Rightarrow> Config \<Rightarrow> (world, Config) tx" where
  "resolveConfig g r c =
     bindE (rpc_call (ChainID r)) (\<lambda>i. case i of
       None \<Rightarrow> fail (PlainError ''RPC returned an invalid chain ID'')
     | Some n \<Rightarrow>
         if n \<le> 0 then fail (PlainError ''RPC returned an invalid chain ID'')
         else if cfg_ChainID c \<noteq> [] \<and> cfg_ChainID c \<noteq> int_str n
         then fail (PlainError (''RPC chain ID mismatch: configured '' @ cfg_ChainID c @ '', RPC returned '' @ int_str n))
         else bindE (resolve_contract g r (c\<lparr>cfg_ChainID := int_str n\<rparr>) (int_str n)) (\<lambda>c'.
           if cfg_ChainID c' = [] \<or> cfg_Contract c' = []
           then fail (PlainError ''chain configuration did not resolve'')
           else thenE (liftE (Validate c')) (ret c')))"

section \<open>Headers and opening snapshots\<close>

definition header :: "rpc \<Rightarrow> int \<Rightarrow> (world, eth_header) tx" where
  "header r n =
     bindE (stageE ''rpc'' (rpc_call (\<lambda>t. HeaderByNumber r t (Some n)))) (\<lambda>h. case h of
       None \<Rightarrow> fail (StageError ''canonicality'' (PlainError ''RPC returned wrong block header''))
     | Some h \<Rightarrow>
         if h_Number h \<noteq> Some n
         then fail (StageError ''canonicality'' (PlainError ''RPC returned wrong block header''))
         else ret h)"

definition latestHeader :: "rpc \<Rightarrow> (world, int \<times> eth_header) tx" where
  "latestHeader r =
     bindE (stageE ''rpc'' (rpc_call (\<lambda>t. HeaderByNumber r t None))) (\<lambda>h.
       case (case h of None \<Rightarrow> None | Some h \<Rightarrow> map_option (\<lambda>n. (n, h)) (h_Number h)) of
         None \<Rightarrow> fail (StageError ''canonicality'' (PlainError ''invalid head''))
       | Some (n, h) \<Rightarrow>
           if \<not> is_i64 n \<or> n < 0 \<or> n = MaxInt64
           then fail (StageError ''canonicality'' (PlainError ''invalid head''))
           else ret (n, h))"

definition block_hash :: "geth \<Rightarrow> eth_header \<Rightarrow> string" where
  "block_hash g h = ToLower (hash_Hex g (h_Hash h))"

text \<open>The balances a sender had at the anchor block; a contract that was not deployed yet has none.\<close>

definition sender_info :: "geth \<Rightarrow> rpc \<Rightarrow> string \<Rightarrow> int \<Rightarrow> string \<Rightarrow> (world, int \<times> int) tx" where
  "sender_info g r contract n sender =
     bindE (liftE (pack_getSenderInfo g sender)) (\<lambda>data.
     bindE (stageE ''rpc'' (wrapE (''historical getSenderInfo at block '' @ int_str n)
         (rpc_call (\<lambda>t. CallContract r t contract data (Some n))))) (\<lambda>result.
       if result = [] then ret (0, 0)
       else bindE (wrapE ''decode historical getSenderInfo'' (liftE (unpack_getSenderInfo g result))) (\<lambda>v. case v of
           (Some deposit, Some reserve) \<Rightarrow> ret (deposit, reserve)
         | _ \<Rightarrow> fail (PlainError ''historical getSenderInfo returned nil balances''))))"

definition opening_snapshot :: "geth \<Rightarrow> rpc \<Rightarrow> Config \<Rightarrow> int \<Rightarrow> string \<Rightarrow> (world, EscrowSnapshot) tx" where
  "opening_snapshot g r c n sender =
     (let contract = HexToAddress g (cfg_Contract c) in
      bindE (if 0 \<le> n then sender_info g r contract n sender else ret (0, 0)) (\<lambda>(deposit, reserve).
        ret \<lparr>sn_ChainID = cfg_ChainID c, sn_Contract = ToLower (address_Hex g contract),
             sn_Sender = ToLower (address_Hex g sender), sn_Deposit = int_str deposit,
             sn_Reserve = int_str reserve\<rparr>))"

text \<open>The \<open>seen\<close> map of the loops over the senders: the first occurrence of every address.\<close>

fun first_seen :: "'a list \<Rightarrow> 'a list \<Rightarrow> 'a list" where
  "first_seen known [] = []"
| "first_seen known (x # xs) = (if x \<in> set known then first_seen known xs else x # first_seen (x # known) xs)"

definition openingSnapshots :: "geth \<Rightarrow> rpc \<Rightarrow> Config \<Rightarrow> int \<Rightarrow> (world, Block \<times> EscrowSnapshot list) tx" where
  "openingSnapshots g r c next =
     (let n = i64 (next - 1) in
      bindE (if 0 \<le> n then bindE (header r n) (\<lambda>h. ret (block_hash g h)) else ret []) (\<lambda>hash.
      bindE (mapE (first_seen [] (map (HexToAddress g) (Senders c))) (opening_snapshot g r c n)) (\<lambda>snapshots.
        if 0 \<le> n then
          bindE (header r n) (\<lambda>h.
            if block_hash g h \<noteq> hash
            then fail (StageError ''canonicality'' (PlainError ''chain changed during opening snapshot''))
            else ret (\<lparr>Number = n, Hash = hash\<rparr>, snapshots))
        else ret (\<lparr>Number = n, Hash = hash\<rparr>, snapshots))))"

section \<open>Logs\<close>

definition log_order :: "Log \<Rightarrow> nat \<times> nat" where
  "log_order l = (l_BlockNumber l, l_Index l)"

definition same_identity :: "Log \<Rightarrow> Log \<Rightarrow> bool" where
  "same_identity p l \<longleftrightarrow> l_BlockHash p = l_BlockHash l \<and> l_TxHash p = l_TxHash l \<and> l_Index p = l_Index l"

definition log_conflict :: "Log \<Rightarrow> Log \<Rightarrow> bool" where
  "log_conflict p l \<longleftrightarrow> l_Address p \<noteq> l_Address l \<or> l_BlockNumber p \<noteq> l_BlockNumber l \<or>
     l_Removed p \<noteq> l_Removed l \<or> l_Topics p \<noteq> l_Topics l \<or> l_Data p \<noteq> l_Data l"

text \<open>The loop that drops repeated logs; \<open>prev\<close> is the last log kept.\<close>

fun unique_logs :: "Log option \<Rightarrow> Log list \<Rightarrow> Log list result" where
  "unique_logs prev [] = Inr []"
| "unique_logs prev (l # ls) =
     (case (case prev of None \<Rightarrow> None | Some p \<Rightarrow> if same_identity p l then Some p else None) of
        Some p \<Rightarrow>
          if log_conflict p l then Inl (PlainError ''RPC returned conflicting logs with the same identity'')
          else unique_logs prev ls
      | None \<Rightarrow> (case unique_logs (Some l) ls of Inl e \<Rightarrow> Inl e | Inr out \<Rightarrow> Inr (l # out)))"

definition orderedUniqueLogs :: "Log list \<Rightarrow> Log list result" where
  "orderedUniqueLogs logs = unique_logs None (sort_key log_order logs)"

definition eventBase :: "geth \<Rightarrow> Log \<Rightarrow> string \<Rightarrow> string \<Rightarrow> int \<Rightarrow> EscrowEvent" where
  "eventBase g l chain kind timestamp =
     \<lparr>ee_Type = kind, ee_ChainID = chain, ee_Contract = ToLower (address_Hex g (l_Address l)),
      ee_TxHash = ToLower (hash_Hex g (l_TxHash l)), ee_BlockHash = ToLower (hash_Hex g (l_BlockHash l)),
      ee_Sender = ToLower (address_Hex g (BytesToAddress g (l_Topics l ! 1))), ee_Recipient = [],
      ee_Amount = ''0'', ee_DepositAmount = ''0'', ee_ReserveAmount = ''0'', ee_LogIndex = i64 (int (l_Index l)),
      ee_BlockNumber = i64 (int (l_BlockNumber l)), ee_Timestamp = timestamp, ee_Settlement = None\<rparr>"

text \<open>\<open>big.Int.Bytes\<close>, \<open>common.LeftPadBytes\<close> and \<open>hex.EncodeToString\<close>.\<close>

function be_bytes :: "nat \<Rightarrow> string" where
  "be_bytes n = (if n = 0 then [] else be_bytes (n div 256) @ [char_of (n mod 256)])"
  by auto
termination by (relation "measure id") auto

declare be_bytes.simps [simp del]

definition left_pad :: "string \<Rightarrow> nat \<Rightarrow> string" where
  "left_pad b n = replicate (n - length b) (CHR 0x00) @ b"

text \<open>The branches of \<open>Decode\<close>, one per event.\<close>

definition decode_funding :: "geth \<Rightarrow> Log \<Rightarrow> string \<Rightarrow> int \<Rightarrow> EscrowEvent result" where
  "decode_funding g l chain timestamp =
     (if length (l_Topics l) \<noteq> 2 then Inl (PlainError ''invalid funding event topics'')
      else let reserve = (l_Topics l ! 0 = event_id g ''ReserveFunded'') in
        case unpack_amount g (if reserve then ''ReserveFunded'' else ''DepositFunded'') (l_Data l) of
          Inl e \<Rightarrow> Inl e
        | Inr None \<Rightarrow> Inl (PlainError ''nil funding amount'')
        | Inr (Some n) \<Rightarrow> Inr ((eventBase g l chain (if reserve then ReserveFunded else DepositFunded) timestamp)
            \<lparr>ee_Amount := int_str n\<rparr>))"

definition decode_claim :: "geth \<Rightarrow> Log \<Rightarrow> string \<Rightarrow> int \<Rightarrow> EscrowEvent result" where
  "decode_claim g l chain timestamp =
     (if length (l_Topics l) \<noteq> 2 then Inl (PlainError ''invalid ReserveClaimed topics'')
      else case unpack_claim g (l_Data l) of
          Inl e \<Rightarrow> Inl e
        | Inr (claimant, None) \<Rightarrow> Inl (PlainError ''nil reserve claim amount'')
        | Inr (claimant, Some n) \<Rightarrow> Inr ((eventBase g l chain ReserveClaimed timestamp)
            \<lparr>ee_Recipient := ToLower (address_Hex g claimant), ee_Amount := int_str n\<rparr>))"

definition decode_withdrawal :: "geth \<Rightarrow> Log \<Rightarrow> string \<Rightarrow> int \<Rightarrow> EscrowEvent result" where
  "decode_withdrawal g l chain timestamp =
     (if length (l_Topics l) \<noteq> 2 then Inl (PlainError ''invalid Withdrawal topics'')
      else case unpack_withdrawal g (l_Data l) of
          Inl e \<Rightarrow> Inl e
        | Inr (Some deposit, Some reserve) \<Rightarrow> Inr ((eventBase g l chain Withdrawal timestamp)
            \<lparr>ee_DepositAmount := int_str deposit, ee_ReserveAmount := int_str reserve\<rparr>)
        | Inr _ \<Rightarrow> Inl (PlainError ''nil withdrawal amount''))"

definition topic_address :: "geth \<Rightarrow> Log \<Rightarrow> nat \<Rightarrow> string" where
  "topic_address g l i = ToLower (address_Hex g (BytesToAddress g (l_Topics l ! i)))"

definition decode_transfer :: "geth \<Rightarrow> Log \<Rightarrow> string \<Rightarrow> int \<Rightarrow> EscrowEvent result" where
  "decode_transfer g l chain timestamp =
     (if length (l_Topics l) \<noteq> 3 then Inl (PlainError ''invalid WinningTicketTransfer topics'')
      else case unpack_amount g ''WinningTicketTransfer'' (l_Data l) of
          Inl e \<Rightarrow> Inl e
        | Inr None \<Rightarrow> Inl (PlainError ''nil ticket transfer amount'')
        | Inr (Some n) \<Rightarrow> Inr ((eventBase g l chain WinningTicketTransfer timestamp)
            \<lparr>ee_Recipient := topic_address g l 2, ee_Amount := int_str n\<rparr>))"

definition redeemed_settlement :: "geth \<Rightarrow> EscrowEvent \<Rightarrow> int \<Rightarrow> int \<Rightarrow> int \<Rightarrow> int \<Rightarrow> string \<Rightarrow> Settlement" where
  "redeemed_settlement g e faceValue winProb nonce rnd aux =
     \<lparr>se_ChainID = ee_ChainID e, se_Contract = ee_Contract e, se_TxHash = ee_TxHash e,
      se_BlockHash = ee_BlockHash e, se_Sender = ee_Sender e, se_Recipient = ee_Recipient e,
      se_FaceValue = int_str faceValue, se_PaidAmount = [], se_DepositPaid = [], se_ReservePaid = [],
      se_WinProb = int_str winProb, se_Nonce = int_str nonce, se_Rand = int_str rnd,
      se_PMSessionID = hash_Hex g (keccak256 g (left_pad (be_bytes (nat \<bar>rnd\<bar>)) 32)),
      se_AuxData = ''0x'' @ hex_encode aux, se_LogIndex = ee_LogIndex e, se_BlockNumber = ee_BlockNumber e,
      se_Timestamp = ee_Timestamp e\<rparr>"

definition decode_redemption :: "geth \<Rightarrow> Log \<Rightarrow> string \<Rightarrow> int \<Rightarrow> EscrowEvent result" where
  "decode_redemption g l chain timestamp =
     (if length (l_Topics l) \<noteq> 3 then Inl (PlainError ''invalid WinningTicketRedeemed topics'')
      else case unpack_redemption g (l_Data l) of
          Inl e \<Rightarrow> Inl e
        | Inr d \<Rightarrow> (case (rd_FaceValue d, rd_WinProb d, rd_SenderNonce d, rd_RecipientRand d) of
            (Some faceValue, Some winProb, Some nonce, Some rnd) \<Rightarrow>
              let e = (eventBase g l chain WinningTicketRedeemed timestamp)
                \<lparr>ee_Recipient := topic_address g l 2, ee_Amount := int_str faceValue\<rparr> in
              Inr (e\<lparr>ee_Settlement := Some (redeemed_settlement g e faceValue winProb nonce rnd (rd_AuxData d))\<rparr>)
          | _ \<Rightarrow> Inl (PlainError ''nil redemption value'')))"

definition Decode :: "geth \<Rightarrow> Log \<Rightarrow> string \<Rightarrow> int \<Rightarrow> EscrowEvent result" where
  "Decode g l chain timestamp =
     (if length (l_Topics l) < 2 then Inl (PlainError ''invalid event topics'')
      else let topic = l_Topics l ! 0 in
        if topic = event_id g ''DepositFunded'' \<or> topic = event_id g ''ReserveFunded'' then decode_funding g l chain timestamp
        else if topic = event_id g ''ReserveClaimed'' then decode_claim g l chain timestamp
        else if topic = event_id g ''Withdrawal'' then decode_withdrawal g l chain timestamp
        else if topic = event_id g ''WinningTicketTransfer'' then decode_transfer g l chain timestamp
        else if topic = event_id g ''WinningTicketRedeemed'' then decode_redemption g l chain timestamp
        else Inl (PlainError ''unknown event signature''))"

section \<open>Redemptions and their payments\<close>

definition samePayment :: "EscrowEvent \<Rightarrow> EscrowEvent \<Rightarrow> bool" where
  "samePayment l r \<longleftrightarrow> ee_TxHash l = ee_TxHash r \<and> ee_Sender l = ee_Sender r \<and> ee_Recipient l = ee_Recipient r"

text \<open>The amount of an optional preceding event: zero when there is none.\<close>

definition payment_amount :: "EscrowEvent option \<Rightarrow> int option" where
  "payment_amount v = (case v of None \<Rightarrow> Some 0 | Some e \<Rightarrow> SetString (ee_Amount e))"

definition mismatched :: "EscrowEvent option \<Rightarrow> EscrowEvent option \<Rightarrow> EscrowEvent \<Rightarrow> bool" where
  "mismatched claim transfer e = (case transfer of None \<Rightarrow> False | Some t \<Rightarrow>
     \<not> samePayment t e \<or> (case claim of None \<Rightarrow> False | Some c \<Rightarrow> \<not> samePayment c e))"

definition with_payment :: "EscrowEvent \<Rightarrow> Settlement \<Rightarrow> int \<Rightarrow> int \<Rightarrow> EscrowEvent" where
  "with_payment e st paid reservePaid =
     (let depositPaid = paid - reservePaid in
      e\<lparr>ee_DepositAmount := int_str depositPaid, ee_ReserveAmount := int_str reservePaid,
        ee_Settlement := Some (st\<lparr>se_PaidAmount := int_str paid, se_DepositPaid := int_str depositPaid,
          se_ReservePaid := int_str reservePaid\<rparr>)\<rparr>)"

definition correlate_redemption :: "EscrowEvent option \<Rightarrow> EscrowEvent option \<Rightarrow> EscrowEvent \<Rightarrow> EscrowEvent result" where
  "correlate_redemption claim transfer e = (case ee_Settlement e of
       None \<Rightarrow> Inl (PlainError ''redemption is missing decoded settlement'')
     | Some st \<Rightarrow>
         if claim \<noteq> None \<and> transfer = None then Inl (PlainError ''ReserveClaimed is missing WinningTicketTransfer'')
         else if mismatched claim transfer e then Inl (PlainError ''redemption does not match preceding payment events'')
         else case payment_amount transfer of None \<Rightarrow> Inl (PlainError ''invalid ticket transfer amount'')
         | Some paid \<Rightarrow> (case payment_amount claim of None \<Rightarrow> Inl (PlainError ''invalid reserve claim amount'')
           | Some reservePaid \<Rightarrow> (case SetString (se_FaceValue st) of
                 None \<Rightarrow> Inl (PlainError ''invalid winning ticket payment amounts'')
               | Some faceValue \<Rightarrow>
                   if paid < reservePaid \<or> faceValue < paid
                   then Inl (PlainError ''invalid winning ticket payment amounts'')
                   else Inr (with_payment e st paid reservePaid))))"

text \<open>The loop, with the pending claim and transfer.\<close>

fun correlate :: "EscrowEvent option \<Rightarrow> EscrowEvent option \<Rightarrow> EscrowEvent list \<Rightarrow> EscrowEvent list result" where
  "correlate claim transfer [] =
     (if claim \<noteq> None \<or> transfer \<noteq> None then Inl (PlainError ''incomplete redemption event sequence'') else Inr [])"
| "correlate claim transfer (e # es) =
     (if ee_Type e = ReserveClaimed then
        if claim \<noteq> None \<or> transfer \<noteq> None then Inl (PlainError ''out-of-order ReserveClaimed event'')
        else map_sum id ((#) e) (correlate (Some e) transfer es)
      else if ee_Type e = WinningTicketTransfer then
        if transfer \<noteq> None \<or> (case claim of None \<Rightarrow> False | Some c \<Rightarrow> \<not> samePayment c e)
        then Inl (PlainError ''WinningTicketTransfer does not match reserve claim'')
        else map_sum id ((#) e) (correlate claim (Some e) es)
      else if ee_Type e = WinningTicketRedeemed then
        case correlate_redemption claim transfer e of
          Inl err \<Rightarrow> Inl err
        | Inr e' \<Rightarrow> map_sum id ((#) e') (correlate None None es)
      else if claim \<noteq> None \<or> transfer \<noteq> None then Inl (PlainError ''payment events are not contiguous'')
      else map_sum id ((#) e) (correlate None None es))"

definition correlateRedemptions :: "EscrowEvent list \<Rightarrow> EscrowEvent list result" where
  "correlateRedemptions events = correlate None None events"

section \<open>Steps\<close>

definition batch_end :: "Config \<Rightarrow> int \<Rightarrow> int \<Rightarrow> int" where
  "batch_end c next confirmed = i64 (next + min (i64 (BatchSize c - 1)) (i64 (confirmed - next)))"

definition fetch_headers :: "rpc \<Rightarrow> int \<Rightarrow> nat \<Rightarrow> (world, eth_header list) tx" where
  "fetch_headers r next n = mapE [0..<n] (\<lambda>i. header r (next + int i))"

text \<open>Every fetched header must continue the one before it, the first the checkpoint's block.\<close>

fun link_blocks :: "geth \<Rightarrow> string \<Rightarrow> int \<Rightarrow> eth_header list \<Rightarrow> Block list result" where
  "link_blocks g prev n [] = Inr []"
| "link_blocks g prev n (h # hs) =
     (if prev \<noteq> [] \<and> ToLower (hash_Hex g (h_ParentHash h)) \<noteq> prev
      then Inl (StageError ''canonicality'' (PlainError ''chain changed during header fetch''))
      else map_sum id ((#) \<lparr>Number = n, Hash = block_hash g h\<rparr>) (link_blocks g (block_hash g h) (n + 1) hs))"

definition event_names :: "string list" where
  "event_names = [''DepositFunded'', ''ReserveFunded'', ''ReserveClaimed'', ''Withdrawal'',
     ''WinningTicketTransfer'', ''WinningTicketRedeemed'']"

definition sender_addresses :: "geth \<Rightarrow> Config \<Rightarrow> string list" where
  "sender_addresses g c = first_seen [] (map (HexToAddress g) (Senders c))"

definition log_query :: "geth \<Rightarrow> Config \<Rightarrow> int \<Rightarrow> int \<Rightarrow> query" where
  "log_query g c first_block last_block =
     \<lparr>q_FromBlock = first_block, q_ToBlock = last_block, q_Address = HexToAddress g (cfg_Contract c),
      q_Topics = [map (event_id g) event_names, map (BytesToHash g) (sender_addresses g c)]\<rparr>"

definition header_at :: "int \<Rightarrow> eth_header list \<Rightarrow> int \<Rightarrow> eth_header option" where
  "header_at next hs n = (if next \<le> n \<and> n < next + int (length hs) then Some (hs ! nat (n - next)) else None)"

text \<open>The domain check of one log against the request and the fetched headers.\<close>

definition in_domain :: "geth \<Rightarrow> Config \<Rightarrow> eth_header \<Rightarrow> Log \<Rightarrow> bool" where
  "in_domain g c h l \<longleftrightarrow> h_Hash h = l_BlockHash l \<and> l_Address l = HexToAddress g (cfg_Contract c) \<and>
     2 \<le> length (l_Topics l) \<and> l_Topics l ! 0 \<in> set (map (event_id g) event_names) \<and>
     BytesToAddress g (l_Topics l ! 1) \<in> set (map (HexToAddress g) (Senders c))"

definition decode_log :: "geth \<Rightarrow> Config \<Rightarrow> int \<Rightarrow> eth_header list \<Rightarrow> Log \<Rightarrow> EscrowEvent result" where
  "decode_log g c next hs l =
     (if l_Removed l \<or> MaxInt64 < int (l_BlockNumber l) \<or> MaxInt64 < int (l_Index l)
      then Inl (PlainError ''invalid or removed RPC log'')
      else case header_at next hs (int (l_BlockNumber l)) of
          None \<Rightarrow> Inl (StageError ''canonicality'' (PlainError ''RPC log does not match requested domain or canonical block''))
        | Some h \<Rightarrow>
            if \<not> in_domain g c h l
            then Inl (StageError ''canonicality'' (PlainError ''RPC log does not match requested domain or canonical block''))
            else if MaxInt64 div 1000 < int (h_Time h) then Inl (PlainError ''block timestamp overflows milliseconds'')
            else Decode g l (cfg_ChainID c) (i64 (int (h_Time h) * 1000)))"

fun decode_logs :: "geth \<Rightarrow> Config \<Rightarrow> int \<Rightarrow> eth_header list \<Rightarrow> Log list \<Rightarrow> EscrowEvent list result" where
  "decode_logs g c next hs [] = Inr []"
| "decode_logs g c next hs (l # ls) = (case decode_log g c next hs l of
     Inl e \<Rightarrow> Inl e | Inr x \<Rightarrow> map_sum id ((#) x) (decode_logs g c next hs ls))"

definition decode_batch :: "geth \<Rightarrow> Config \<Rightarrow> int \<Rightarrow> eth_header list \<Rightarrow> Log list \<Rightarrow> EscrowEvent list result" where
  "decode_batch g c next hs logs = (case orderedUniqueLogs logs of
     Inl e \<Rightarrow> Inl e
   | Inr unique \<Rightarrow> (case decode_logs g c next hs unique of
       Inl e \<Rightarrow> Inl e | Inr events \<Rightarrow> correlateRedemptions events))"

definition apply_batch :: "geth \<Rightarrow> rpc \<Rightarrow> Config \<Rightarrow> int \<Rightarrow> string \<Rightarrow> int \<Rightarrow> (world, bool) tx" where
  "apply_batch g r c next hash last_block =
     bindE (fetch_headers r next (nat (last_block - next + 1))) (\<lambda>hs.
     bindE (liftE (link_blocks g hash next hs)) (\<lambda>blocks.
     bindE (stageE ''rpc'' (rpc_call (\<lambda>t. FilterLogs r t (log_query g c next last_block)))) (\<lambda>logs.
     bindE (stageE ''decode'' (liftE (decode_batch g c next hs logs))) (\<lambda>events.
     bindE (header r last_block) (\<lambda>h.
       if h_Hash h \<noteq> h_Hash (last hs)
       then fail (StageError ''canonicality'' (PlainError ''chain changed during log fetch''))
       else thenE (ApplyChain (Stream c) blocks events (Lookback c)) (ret True))))))"

definition step_batch :: "geth \<Rightarrow> rpc \<Rightarrow> Config \<Rightarrow> int \<Rightarrow> int \<Rightarrow> string \<Rightarrow> (world, bool) tx" where
  "step_batch g r c head next hash =
     (let confirmed = i64 (head - Confirmations c) in
      if confirmed < next then ret False
      else let last_block = batch_end c next confirmed in
        if last_block = MaxInt64 then fail (FatalError (PlainError ''block number overflow''))
        else apply_batch g r c next hash last_block)"

definition rewind_error :: "error \<Rightarrow> error" where
  "rewind_error e = (if e = ErrEscrowSnapshotReorg then FatalError (StageError ''snapshot_boundary'' e) else e)"

definition mapErr :: "(error \<Rightarrow> error) \<Rightarrow> (world, 'a) tx \<Rightarrow> (world, 'a) tx" where
  "mapErr f m s = (case m s of (Inl e, s') \<Rightarrow> (Inl (f e), s') | (Inr x, s') \<Rightarrow> (Inr x, s'))"

lemma mapErr_Inr [txs]: "mapErr f m s = (Inr x, s') \<longleftrightarrow> m s = (Inr x, s')"
  by (auto simp: mapErr_def split: prod.splits sum.splits)

definition too_deep :: error where
  "too_deep = FatalError (StageError ''reorg_depth'' (PlainError ''reorg exceeds retained common-ancestor history''))"

text \<open>The search for the newest retained block that is still canonical, within the lookback.\<close>

fun find_ancestor :: "geth \<Rightarrow> rpc \<Rightarrow> Config \<Rightarrow> int \<Rightarrow> Block list \<Rightarrow> (world, bool) tx" where
  "find_ancestor g r c next [] = fail too_deep"
| "find_ancestor g r c next (b # bs) =
     (if Lookback c < i64 (next - 1 - Number b) then fail too_deep
      else bindE (header r (Number b)) (\<lambda>h.
        if block_hash g h = Hash b
        then thenE (mapErr rewind_error (Rewind (Stream c) (cfg_ChainID c) (ToLower (cfg_Contract c)) b)) (ret True)
        else find_ancestor g r c next bs))"

text \<open>Whether the checkpoint's block is no longer canonical; then the stream has been rewound.\<close>

definition reorganised :: "geth \<Rightarrow> rpc \<Rightarrow> Config \<Rightarrow> int \<Rightarrow> string \<Rightarrow> (world, bool) tx" where
  "reorganised g r c next hash =
     (if 0 < next then
        bindE (header r (next - 1)) (\<lambda>h.
          if block_hash g h \<noteq> hash
          then bindE (gets (Blocks (Stream c))) (find_ancestor g r c next)
          else ret False)
      else ret False)"

definition bootstrap :: "geth \<Rightarrow> rpc \<Rightarrow> Config \<Rightarrow> int \<Rightarrow> (world, int \<times> string) tx" where
  "bootstrap g r c head =
     (let next = (case Start c of None \<Rightarrow> head | Some n \<Rightarrow> n) in
      bindE (stageE ''decode'' (openingSnapshots g r c next)) (\<lambda>(anchor, snapshots).
        thenE (BootstrapChain (Stream c) anchor snapshots) (ret (next, Hash anchor))))"

text \<open>\<open>Step\<close>: one poll; the result says whether there was progress.  The flag that accompanies an
  error is not modelled: the only caller ignores it.\<close>

definition Step :: "geth \<Rightarrow> rpc \<Rightarrow> Config \<Rightarrow> (world, bool) tx" where
  "Step g r c = stageE ''database''
     (bindE (Checkpoint ''chain'' (Stream c)) (\<lambda>(next, hash, found).
      bindE (latestHeader r) (\<lambda>(head, h).
      bindE (if found then ret (next, hash) else bootstrap g r c head) (\<lambda>(next, hash).
      bindE (reorganised g r c next hash) (\<lambda>rewound.
        if rewound then ret True else step_batch g r c head next hash)))))"

section \<open>The listener\<close>

definition domain_ok :: "Config \<Rightarrow> world \<Rightarrow> bool" where
  "domain_ok c s \<longleftrightarrow> (\<forall>k \<in> set (map fst (ingestion_checkpoints s)). fst k = ''chain'' \<longrightarrow> snd k = Stream c)"

text \<open>The polling loop until its context is cancelled after \<open>polls\<close> steps: a fatal error ends it,
  any other leaves the checkpoint and polls again.\<close>

fun run_loop :: "geth \<Rightarrow> rpc \<Rightarrow> Config \<Rightarrow> nat \<Rightarrow> (world, unit) tx" where
  "run_loop g r c 0 s = (Inr (), s)"
| "run_loop g r c (Suc polls) s = (case Step g r c s of
     (Inl e, s') \<Rightarrow> if is_fatal e then (Inl e, s') else run_loop g r c polls s'
   | (Inr progress, s') \<Rightarrow> run_loop g r c polls s')"

definition Run :: "geth \<Rightarrow> rpc \<Rightarrow> Config \<Rightarrow> nat \<Rightarrow> (world, unit) tx" where
  "Run g r c polls =
     thenE (liftE (Validate c))
       (bindE (resolveConfig g r c) (\<lambda>c'. bindE (gets (domain_ok c')) (\<lambda>same.
          if same then run_loop g r c' polls
          else fail (PlainError ''chain domain changed; use a separate accounting database''))))"

end
