(* ===== verification/Listener.thy ===== *)
theory Listener
  imports Chain
begin

text \<open>
  The correctness of the chain listener of \<open>Chain\<close>: the domain name of a configuration, the order
  of the logs, the pairing of redemptions with their payments against a grammar, the bounds of a
  batch, and what a poll does to the database whatever the node answers.
\<close>

section \<open>Logs\<close>

definition adjacent_distinct :: "Log list \<Rightarrow> bool" where
  "adjacent_distinct ls \<longleftrightarrow> (\<forall>i. Suc i < length ls \<longrightarrow> \<not> same_identity (ls ! i) (ls ! Suc i))"

lemma unique_logs_Inr:
  assumes "unique_logs prev ls = Inr out"
  shows "subseq out ls \<and> (\<forall>l \<in> set ls. (\<exists>k \<in> set out. same_identity k l \<and> \<not> log_conflict k l) \<or>
      (\<exists>p. prev = Some p \<and> same_identity p l \<and> \<not> log_conflict p l)) \<and>
    adjacent_distinct (case prev of None \<Rightarrow> out | Some p \<Rightarrow> p # out)"
  using assms
proof (induction prev ls arbitrary: out rule: unique_logs.induct)
  case (1 prev)
  then show ?case by (auto simp: adjacent_distinct_def split: option.splits)
next
  case (2 prev l ls)
  show ?case
  proof (cases "\<exists>p. prev = Some p \<and> same_identity p l")
    case True
    then obtain p where p: "prev = Some p" "same_identity p l" by blast
    then have c: "\<not> log_conflict p l" and r: "unique_logs prev ls = Inr out"
      using 2(3) by (auto split: if_splits)
    have sel: "(case prev of None \<Rightarrow> None | Some p \<Rightarrow> if same_identity p l then Some p else None) = Some p"
      using p by simp
    have "subseq out ls" "adjacent_distinct (p # out)"
      "\<forall>l \<in> set ls. (\<exists>k \<in> set out. same_identity k l \<and> \<not> log_conflict k l) \<or> (same_identity p l \<and> \<not> log_conflict p l)"
      using 2(2) [OF sel c r] p by auto
    then show ?thesis using p c by auto
  next
    case False
    then obtain o1 where r: "unique_logs (Some l) ls = Inr o1" and out: "out = l # o1"
      using 2(3) by (auto split: option.splits if_splits sum.splits)
    have n: "(case prev of None \<Rightarrow> None | Some p \<Rightarrow> if same_identity p l then Some p else None) = None"
      using False by (auto split: option.splits)
    have s: "subseq o1 ls" and a: "adjacent_distinct (l # o1)"
      and k: "\<forall>m \<in> set ls. (\<exists>k \<in> set o1. same_identity k m \<and> \<not> log_conflict k m) \<or> (same_identity l m \<and> \<not> log_conflict l m)"
      using 2(1) [OF n r] by auto
    have "same_identity l l" "\<not> log_conflict l l" by (simp_all add: same_identity_def log_conflict_def)
    moreover have "adjacent_distinct (case prev of None \<Rightarrow> out | Some p \<Rightarrow> p # out)"
      using a False out by (auto simp: adjacent_distinct_def nth_Cons split: option.splits nat.splits)
    ultimately show ?thesis using s k out by auto
  qed
qed

lemma same_log: "same_identity k l \<Longrightarrow> \<not> log_conflict k l \<Longrightarrow> k = l"
  by (cases k; cases l) (simp add: same_identity_def log_conflict_def)

section \<open>Payments\<close>

text \<open>
  The grammar of a well-formed batch, with what the listener makes of it: any other event alone, or
  a redemption with its transfer, and its reserve claim before that, if they were emitted.
\<close>

definition other_event :: "EscrowEvent \<Rightarrow> bool" where
  "other_event e \<longleftrightarrow> ee_Type e \<noteq> ReserveClaimed \<and> ee_Type e \<noteq> WinningTicketTransfer \<and> ee_Type e \<noteq> WinningTicketRedeemed"

inductive well_paid :: "EscrowEvent list \<Rightarrow> EscrowEvent list \<Rightarrow> bool" where
  none: "well_paid [] []"
| other: "other_event e \<Longrightarrow> well_paid es out \<Longrightarrow> well_paid (e # es) (e # out)"
| unpaid: "ee_Type r = WinningTicketRedeemed \<Longrightarrow> ee_Settlement r = Some st \<Longrightarrow>
    SetString (se_FaceValue st) = Some face \<Longrightarrow> 0 \<le> face \<Longrightarrow>
    well_paid es out \<Longrightarrow> well_paid (r # es) (with_payment r st 0 0 # out)"
| deposit: "ee_Type t = WinningTicketTransfer \<Longrightarrow> ee_Type r = WinningTicketRedeemed \<Longrightarrow> samePayment t r \<Longrightarrow>
    ee_Settlement r = Some st \<Longrightarrow> SetString (se_FaceValue st) = Some face \<Longrightarrow> SetString (ee_Amount t) = Some paid \<Longrightarrow>
    0 \<le> paid \<Longrightarrow> paid \<le> face \<Longrightarrow>
    well_paid es out \<Longrightarrow> well_paid (t # r # es) (t # with_payment r st paid 0 # out)"
| reserve: "ee_Type c = ReserveClaimed \<Longrightarrow> ee_Type t = WinningTicketTransfer \<Longrightarrow> ee_Type r = WinningTicketRedeemed \<Longrightarrow>
    samePayment c t \<Longrightarrow> samePayment t r \<Longrightarrow>
    ee_Settlement r = Some st \<Longrightarrow> SetString (se_FaceValue st) = Some face \<Longrightarrow> SetString (ee_Amount t) = Some paid \<Longrightarrow>
    SetString (ee_Amount c) = Some reserve \<Longrightarrow> reserve \<le> paid \<Longrightarrow> paid \<le> face \<Longrightarrow>
    well_paid es out \<Longrightarrow> well_paid (c # t # r # es) (c # t # with_payment r st paid reserve # out)"

lemma types_distinct [simp]:
  "ReserveClaimed \<noteq> WinningTicketTransfer" "ReserveClaimed \<noteq> WinningTicketRedeemed" "WinningTicketTransfer \<noteq> WinningTicketRedeemed"
  "WinningTicketTransfer \<noteq> ReserveClaimed" "WinningTicketRedeemed \<noteq> ReserveClaimed" "WinningTicketRedeemed \<noteq> WinningTicketTransfer"
  by (simp_all add: event_types)

lemma map_sum_Inr [simp]: "map_sum f g x = Inr y \<longleftrightarrow> (\<exists>z. x = Inr z \<and> y = g z)"
  by (cases x) auto

lemma samePayment_trans: "samePayment c t \<Longrightarrow> samePayment t r \<Longrightarrow> samePayment c r"
  by (simp add: samePayment_def)

lemma well_paid_correlate: "well_paid es out \<Longrightarrow> correlate None None es = Inr out"
proof (induction rule: well_paid.induct)
  case (reserve c t r st face paid rv es out)
  then show ?case
    using samePayment_trans [OF reserve(4,5)]
    by (simp add: correlate_redemption_def mismatched_def payment_amount_def)
qed (auto simp: other_event_def correlate_redemption_def mismatched_def payment_amount_def)

lemma correlate_redemption_Inr:
  "correlate_redemption claim transfer r = Inr r' \<longleftrightarrow>
    (\<exists>st face paid rv. ee_Settlement r = Some st \<and> (claim = None \<or> transfer \<noteq> None) \<and> \<not> mismatched claim transfer r \<and>
       payment_amount transfer = Some paid \<and> payment_amount claim = Some rv \<and> SetString (se_FaceValue st) = Some face \<and>
       rv \<le> paid \<and> paid \<le> face \<and> r' = with_payment r st paid rv)"
  by (auto simp: correlate_redemption_def not_less split: option.splits if_splits)

text \<open>After a pending claim or transfer only the rest of its redemption can follow.\<close>

lemma correlate_pending:
  "correlate claim (Some t) es = Inr out \<Longrightarrow> \<exists>r es' r' out'. es = r # es' \<and> out = r' # out' \<and> ee_Type r = WinningTicketRedeemed \<and>
     correlate_redemption claim (Some t) r = Inr r' \<and> correlate None None es' = Inr out'"
  "correlate (Some c) None es = Inr out \<Longrightarrow> \<exists>t es' out'. es = t # es' \<and> out = t # out' \<and> ee_Type t = WinningTicketTransfer \<and>
     samePayment c t \<and> correlate (Some c) (Some t) es' = Inr out'"
proof -
  show "correlate claim (Some t) es = Inr out \<Longrightarrow> \<exists>r es' r' out'. es = r # es' \<and> out = r' # out' \<and> ee_Type r = WinningTicketRedeemed \<and>
     correlate_redemption claim (Some t) r = Inr r' \<and> correlate None None es' = Inr out'"
    by (cases es) (auto split: if_splits sum.splits)
  show "correlate (Some c) None es = Inr out \<Longrightarrow> \<exists>t es' out'. es = t # es' \<and> out = t # out' \<and> ee_Type t = WinningTicketTransfer \<and>
     samePayment c t \<and> correlate (Some c) (Some t) es' = Inr out'"
    by (cases es) (auto simp: correlate_redemption_def split: if_splits sum.splits option.splits)
qed

lemma correlate_well_paid: "correlate None None es = Inr out \<Longrightarrow> well_paid es out"
proof (induction "length es" arbitrary: es out rule: less_induct)
  case less
  show ?case
  proof (cases es)
    case Nil
    then show ?thesis using less(2) by (auto intro: well_paid.intros)
  next
    case (Cons e es1)
    consider "other_event e" | "ee_Type e = ReserveClaimed" | "ee_Type e = WinningTicketTransfer" | "ee_Type e = WinningTicketRedeemed"
      by (auto simp: other_event_def)
    then show ?thesis
    proof cases
      case 1
      then show ?thesis using less Cons by (auto simp: other_event_def intro!: well_paid.other)
    next
      case 2
      then obtain out1 where "correlate (Some e) None es1 = Inr out1" "out = e # out1" using less(2) Cons by auto
      then obtain t es2 out2 where t: "es1 = t # es2" "out1 = t # out2" "ee_Type t = WinningTicketTransfer" "samePayment e t"
        and r: "correlate (Some e) (Some t) es2 = Inr out2" using correlate_pending(2) by blast
      from correlate_pending(1) [OF r] obtain r es3 r' out3 where q: "es2 = r # es3" "out2 = r' # out3"
        "ee_Type r = WinningTicketRedeemed" "correlate_redemption (Some e) (Some t) r = Inr r'" "correlate None None es3 = Inr out3" by blast
      have "well_paid es3 out3" using less(1) q Cons t by simp
      then show ?thesis
        using 2 t q \<open>out = e # out1\<close> Cons
        by (auto simp: correlate_redemption_Inr mismatched_def payment_amount_def intro!: well_paid.reserve)
    next
      case 3
      then obtain out1 where "correlate None (Some e) es1 = Inr out1" "out = e # out1" using less(2) Cons by auto
      then obtain r es3 r' out3 where q: "es1 = r # es3" "out1 = r' # out3"
        "ee_Type r = WinningTicketRedeemed" "correlate_redemption None (Some e) r = Inr r'" "correlate None None es3 = Inr out3"
        using correlate_pending(1) by blast
      have "well_paid es3 out3" using less(1) q Cons by simp
      then show ?thesis
        using 3 q \<open>out = e # out1\<close> Cons
        by (auto simp: correlate_redemption_Inr mismatched_def payment_amount_def intro!: well_paid.deposit)
    next
      case 4
      then obtain r' out3 where q: "correlate_redemption None None e = Inr r'" "correlate None None es1 = Inr out3" "out = r' # out3"
        using less(2) Cons by (auto split: sum.splits)
      have "well_paid es1 out3" using less(1) q Cons by simp
      then show ?thesis
        using 4 q Cons by (auto simp: correlate_redemption_Inr mismatched_def payment_amount_def intro!: well_paid.unpaid)
    qed
  qed
qed

section \<open>Whatever the node answers\<close>

text \<open>
  A poll commits several transactions, so its failures matter as well; a transaction that fails
  only counts its readings.
\<close>

locale world_frame = preorder_frame R for R :: "world \<Rightarrow> world \<Rightarrow> bool" +
  assumes R_tick: "R s (s\<lparr>tick := n\<rparr>)"
begin

lemma always_errors: "always R m \<Longrightarrow> always R (stageE stage m)" "always R m \<Longrightarrow> always R (wrapE what m)"
    "always R m \<Longrightarrow> always R (mapErr f m)"
proof -
  have "snd (stageE stage m s) = snd (m s) \<and> snd (wrapE what m s) = snd (m s) \<and> snd (mapErr f m s) = snd (m s)" for s
    by (auto simp: stageE_def wrapE_def mapErr_def split: prod.splits sum.splits)
  then show "always R m \<Longrightarrow> always R (stageE stage m)" "always R m \<Longrightarrow> always R (wrapE what m)"
    "always R m \<Longrightarrow> always R (mapErr f m)" by (simp_all add: always_def)
qed

lemma always_rpc: "always R (rpc_call q)"
  by (simp add: always_def rpc_call_def R_tick)

lemma always_Checkpoint: "always R (Checkpoint src stream)"
  by (auto simp: always_def Checkpoint_def R_refl split: option.splits)

lemma always_guarded_Write:
  assumes "within R (Write m)"
  shows "always R (Write m)"
  unfolding always_def
proof
  fix s
  obtain r s' where run: "Write m s = (r, s')" by fastforce
  show "R s (snd (Write m s))"
  proof (cases r)
    case (Inl e)
    then obtain t where "s' = rollback s t" using run by (auto simp: Write_Inl_iff)
    then show ?thesis using run by (simp add: rollback_def R_tick)
  next
    case (Inr x)
    then show ?thesis using assms run by (simp add: within_def)
  qed
qed

lemmas always_intros = always_rules always_errors always_rpc always_Checkpoint

lemma header_always: "always R (header r n)"
  unfolding header_def by (intro always_intros)

lemma latestHeader_always: "always R (latestHeader r)"
  unfolding latestHeader_def by (intro always_intros)

lemma openingSnapshots_always: "always R (openingSnapshots g r c next)"
proof -
  have "always R (sender_info g r contract n sender)" for contract n sender
    unfolding sender_info_def by (intro always_intros)
  then show ?thesis
    unfolding openingSnapshots_def opening_snapshot_def Let_def by (intro always_intros header_always)
qed

lemma fetch_always: "always R (fetch_headers r n k)"
  unfolding fetch_headers_def by (intro always_intros header_always)

end

text \<open>The invariant of the database as a relation: all of it is kept.\<close>

definition chain_ok :: "world \<Rightarrow> bool" where
  "chain_ok s \<longleftrightarrow> accounts_ok s \<and> chain_rows s \<and> escrow_ok s"

definition safe :: "world \<Rightarrow> world \<Rightarrow> bool" where
  "safe s s' \<longleftrightarrow> (chain_ok s \<longrightarrow> chain_ok s') \<and> other_tables s' = other_tables s"

interpretation safe: world_frame safe
proof unfold_locales
  fix s n
  show "safe s (s\<lparr>tick := n\<rparr>)"
    by (auto simp: safe_def chain_ok_def accounts_ok_def chain_rows_def escrow_ok_def chain_effect_def bal_def other_tables_def)
qed (auto simp: safe_def)

lemma safe_within:
  assumes "within gap_kept m" "within chain_frame m"
  shows "within safe m"
proof (rule withinI)
  fix s x s' assume r: "m s = (Inr x, s')"
  have k: "gap_kept s s'" and f: "chain_frame s s'" by (rule withinD [OF assms(1) r], rule withinD [OF assms(2) r])
  have "other_tables s' = other_tables s" using f unfolding chain_frame_def by blast
  then show "safe s s'"
    using gap_kept_chain_ok [OF k] chain_frame_accounts [OF f] unfolding safe_def chain_ok_def by blast
qed

lemma store_always:
  "always safe (BootstrapChain stream anchor snapshots)" "always safe (ApplyChain stream blocks events lookback)"
  "always safe (Rewind stream chain contract b)"
proof -
  have w: "within safe (BootstrapChain stream anchor snapshots)" "within safe (ApplyChain stream blocks events lookback)"
    "within safe (Rewind stream chain contract b)"
    by (rule safe_within [OF BootstrapChain_kept BootstrapChain_chain])
      (rule safe_within [OF ApplyChain_kept ApplyChain_chain], rule safe_within [OF Rewind_kept Rewind_chain])
  show "always safe (Rewind stream chain contract b)"
    using safe.always_guarded_Write w(3) unfolding Rewind_def by blast
  show "always safe (BootstrapChain stream anchor snapshots)"
    using w(1) safe.always_guarded_Write unfolding BootstrapChain_def by (auto intro: safe.always_ret split: if_splits)
  show "always safe (ApplyChain stream blocks events lookback)"
    using w(2) safe.always_guarded_Write unfolding ApplyChain_def by (auto intro: safe.always_ret split: if_splits)
qed

lemma find_ancestor_always: "always safe (find_ancestor g r c next bs)"
proof (induction bs)
  case Nil
  show ?case unfolding find_ancestor.simps by (rule safe.always_ret)
next
  case (Cons b bs)
  show ?case unfolding find_ancestor.simps
    by (intro safe.always_intros safe.header_always store_always Cons)
qed

lemma Step_always: "always safe (Step g r c)"
  unfolding Step_def bootstrap_def reorganised_def step_batch_def apply_batch_def Let_def
  by (intro safe.always_intros safe.header_always safe.latestHeader_always safe.openingSnapshots_always safe.fetch_always
      find_ancestor_always store_always)

lemma run_loop_always: "always safe (run_loop g r c polls)"
proof (induction polls)
  case 0
  then show ?case by (simp add: always_def safe.R_refl)
next
  case (Suc polls)
  show ?case unfolding always_def
  proof
    fix s
    obtain res s1 where run: "Step g r c s = (res, s1)" by fastforce
    then have s1: "safe s s1" using Step_always unfolding always_def by (metis snd_conv)
    have rest: "safe s1 (snd (run_loop g r c polls s1))" using Suc unfolding always_def by blast
    show "safe s (snd (run_loop g r c (Suc polls) s))"
      using s1 rest safe.R_trans by (cases res) (auto simp: run)
  qed
qed

lemma Run_always: "always safe (Run g r c polls)"
proof -
  have "always safe (resolveTicketBroker g r a)" for a
    unfolding resolveTicketBroker_def
    by (intro safe.always_intros) (auto split: list.splits option.splits intro: safe.always_ret)
  then show ?thesis
    unfolding Run_def resolveConfig_def resolve_contract_def
    by (intro safe.always_intros run_loop_always)
qed

end
