(* ===== verification/Polling.thy ===== *)
theory Polling
  imports Listener
begin

text \<open>
  What one poll of the chain listener and the whole loop achieve: the identity of a stream, the
  canonical order of the logs, the grammar of payments, the bounds of a batch, the effect of a
  successful poll, safety against any node, and progress with an honest one.
\<close>

section \<open>Identity of a stream\<close>

lemma sep_inject: "d \<notin> set x \<Longrightarrow> d \<notin> set u \<Longrightarrow> x @ d # r = u @ d # q \<longleftrightarrow> x = u \<and> r = q"
proof (induction x arbitrary: u)
  case Nil
  then show ?case by (cases u) auto
next
  case (Cons a x)
  then show ?case by (cases u) auto
qed

lemma join_inject:
  assumes "\<forall>x \<in> set xs. x \<noteq> [] \<and> d \<notin> set x" "\<forall>y \<in> set ys. y \<noteq> [] \<and> d \<notin> set y" "join [d] xs = join [d] ys"
  shows "xs = ys"
  using assms
proof (induction "[d]" xs arbitrary: ys rule: join.induct)
  case 1
  then show ?case by (cases ys rule: join.cases [of "([d], ys)" for ys]) auto
next
  case (2 x)
  then show ?case
    by (cases ys rule: join.cases [of "([d], ys)" for ys]) auto
next
  case (3 x y zs)
  from 3(4) obtain u v ws where ys: "ys = u # v # ws"
    using 3(2,3) by (cases ys rule: join.cases [of "([d], ys)" for ys]) auto
  have "x @ d # join [d] (y # zs) = u @ d # join [d] (v # ws)" using 3(4) ys by simp
  then have "x = u" "join [d] (y # zs) = join [d] (v # ws)"
    using 3(2,3) ys by (simp_all add: sep_inject)
  then show ?case using 3(1) [of "v # ws"] 3(2,3) ys by auto
qed

lemma check_senders_Inr: "check_senders xs = Inr () \<longleftrightarrow> (\<forall>x \<in> set xs. \<exists>a. Address x = Inr a)"
  by (induction xs) (auto split: sum.splits)

lemma Validate_Inr:
  "Validate c = Inr () \<longleftrightarrow> (cfg_ChainID c \<noteq> [] \<longrightarrow> (\<exists>n. Amount (cfg_ChainID c) = Inr n \<and> 0 < n)) \<and>
     (cfg_Contract c \<noteq> [] \<longrightarrow> (\<exists>a. Address (cfg_Contract c) = Inr a)) \<and> Senders c \<noteq> [] \<and>
     (\<forall>x \<in> set (Senders c). \<exists>a. Address x = Inr a) \<and> (\<forall>n. Start c = Some n \<longrightarrow> 0 \<le> n \<and> n \<noteq> MaxInt64) \<and>
     0 \<le> Confirmations c \<and> 0 < BatchSize c \<and> 1 \<le> Lookback c \<and> 0 < Poll c"
proof -
  have s: "check_senders xs \<noteq> Inl e \<longleftrightarrow> check_senders xs = Inr () \<or> (\<exists>e'. e' \<noteq> e \<and> check_senders xs = Inl e')" for xs e
    by (cases "check_senders xs") auto
  show ?thesis
    by (auto simp: Validate_def chain_id_error_def check_contract_def bad_start_def check_senders_Inr [symmetric]
        not_le not_less split: sum.splits if_splits option.splits)
qed

lemma hex_text_chars: "hex_text n s \<Longrightarrow> c \<in> set s \<Longrightarrow> is_lower_hex c \<or> c = CHR ''x''"
proof -
  assume h: "hex_text n s" and c: "c \<in> set s"
  have "s = take 2 s @ drop 2 s" by simp
  then have "c \<in> set (take 2 s) \<or> c \<in> set (drop 2 s)" using c by (metis Un_iff set_append)
  then show ?thesis using h by (auto simp: hex_text_def is_lower_hex_def is_digit_def code_def)
qed

lemma Address_chars:
  assumes "Address v = Inr a" "d = CHR '':'' \<or> d = CHR '',''"
  shows "ToLower v \<noteq> []" "d \<notin> set (ToLower v)"
proof -
  have h: "hex_text 42 (ToLower v)" using assms by (simp add: Address_Inr)
  show "ToLower v \<noteq> []" using h by (auto simp: hex_text_def)
  show "d \<notin> set (ToLower v)"
    using hex_text_chars [OF h, of d] assms(2) by (auto simp: is_lower_hex_def is_digit_def code_def)
qed

lemma chain_id_chars: "Validate c = Inr () \<Longrightarrow> CHR '':'' \<notin> set (cfg_ChainID c)"
proof -
  assume v: "Validate c = Inr ()"
  show ?thesis
  proof (cases "cfg_ChainID c = []")
    case False
    then have "all_digits (cfg_ChainID c)" using v by (auto simp: Validate_Inr Amount_def split: if_splits)
    then show ?thesis by (auto simp: all_digits_def is_digit_def code_def)
  qed simp
qed

lemma contract_chars: "Validate c = Inr () \<Longrightarrow> CHR '':'' \<notin> set (ToLower (cfg_Contract c))"
  using Address_chars(2) [of "cfg_Contract c" _ "CHR '':''"] by (cases "cfg_Contract c = []") (auto simp: Validate_Inr ToLower_def)

text \<open>
  Two valid configurations name the same stream exactly when they have the same chain, the same
  contract and the same set of signers; the case of an address, the order of the signers and
  repetitions do not matter.
\<close>

lemma Stream_identifies:
  assumes "Validate c = Inr ()" "Validate d = Inr ()"
  shows "Stream c = Stream d \<longleftrightarrow> cfg_ChainID c = cfg_ChainID d \<and> ToLower (cfg_Contract c) = ToLower (cfg_Contract d) \<and>
    ToLower ` set (Senders c) = ToLower ` set (Senders d)"
proof -
  define senders where "senders e = sorted_list_of_set (ToLower ` set (Senders e))" for e :: Config
  have name: "Stream e = cfg_ChainID e @ CHR '':'' # ToLower (cfg_Contract e) @ CHR '':'' # join '','' (senders e)" for e :: Config
    using compact_sort [of "map ToLower (Senders e)"] by (simp add: Stream_def senders_def)
  have ok: "\<forall>x \<in> set (senders e). x \<noteq> [] \<and> CHR '','' \<notin> set x" if v: "Validate e = Inr ()" for e :: Config
  proof
    fix x assume "x \<in> set (senders e)"
    then obtain w where w: "x = ToLower w" "w \<in> set (Senders e)" by (auto simp: senders_def)
    then obtain a where "Address w = Inr a" using v by (auto simp: Validate_Inr)
    then show "x \<noteq> [] \<and> CHR '','' \<notin> set x" using Address_chars [of w a "CHR '',''"] w(1) by simp
  qed
  show ?thesis
  proof
    assume "Stream c = Stream d"
    then have parts: "cfg_ChainID c = cfg_ChainID d" "ToLower (cfg_Contract c) = ToLower (cfg_Contract d)"
      "join '','' (senders c) = join '','' (senders d)"
      by (simp_all add: name sep_inject chain_id_chars contract_chars assms)
    have "senders c = senders d" by (rule join_inject [OF ok [OF assms(1)] ok [OF assms(2)] parts(3)])
    then have "ToLower ` set (Senders c) = ToLower ` set (Senders d)"
      unfolding senders_def by (metis List.finite_set finite_imageI set_sorted_list_of_set)
    then show "cfg_ChainID c = cfg_ChainID d \<and> ToLower (cfg_Contract c) = ToLower (cfg_Contract d) \<and>
        ToLower ` set (Senders c) = ToLower ` set (Senders d)" using parts by simp
  qed (simp add: name senders_def)
qed


section \<open>The sample node\<close>

text \<open>Six blocks that repeat, with one deposit in block 3; hashes and addresses are their own text.\<close>

definition sample_config :: Config where
  "sample_config = \<lparr>URL = ''http'', cfg_ChainID = ''1'', cfg_Contract = sample_contract, Senders = [sample_sender], Start = Some 2,
     Confirmations = 1, BatchSize = 5, Lookback = 5, Poll = 1\<rparr>"

definition sample_geth :: geth where
  "sample_geth = \<lparr>event_id = id, keccak256 = id, hash_Hex = id, address_Hex = id, HexToAddress = id, BytesToAddress = id,
     BytesToHash = id, unpack_amount = (\<lambda>name d. Inr (SetString d)), unpack_claim = (\<lambda>d. Inr ([], SetString d)),
     unpack_withdrawal = (\<lambda>d. Inr (SetString d, SetString d)),
     unpack_redemption = (\<lambda>d. Inl (PlainError ''abi'')), pack_getSenderInfo = (\<lambda>a. Inr a),
     unpack_getSenderInfo = (\<lambda>d. Inr (Some 100, Some 50)), pack_getContract = (\<lambda>h. Inr h),
     unpack_getContract = (\<lambda>d. Inr [Some d])\<rparr>"

definition sample_chain :: "int \<Rightarrow> eth_header" where
  "sample_chain n = \<lparr>h_Number = Some n, h_Hash = sample_hash (hex_digit (nat n mod 6)),
     h_ParentHash = sample_hash (hex_digit ((nat n + 5) mod 6)), h_Time = 1700000000\<rparr>"

definition sample_deposit :: Log where
  "sample_deposit = \<lparr>l_Address = sample_contract, l_Topics = [''DepositFunded'', sample_sender], l_Data = ''40'',
     l_BlockNumber = 3, l_TxHash = sample_hash (CHR ''c''), l_BlockHash = sample_hash (CHR ''3''), l_Index = 0, l_Removed = False\<rparr>"

definition sample_node :: rpc where
  "sample_node = \<lparr>ChainID = (\<lambda>t. Inr (Some 1)),
     HeaderByNumber = (\<lambda>t n. Inr (Some (sample_chain (case n of None \<Rightarrow> 4 | Some n \<Rightarrow> n)))),
     FilterLogs = (\<lambda>t q. Inr [sample_deposit, sample_deposit]), CallContract = (\<lambda>t a d n. Inr ''x'')\<rparr>"

lemma sample_config_valid: "Validate sample_config = Inr ()"
  by code_simp

lemma Stream_identifies_witness:
  "Stream (sample_config\<lparr>Senders := [sample_sender, sample_sender]\<rparr>) = Stream sample_config"
proof -
  have v: "Validate (sample_config\<lparr>Senders := [sample_sender, sample_sender]\<rparr>) = Inr ()" by code_simp
  show ?thesis using Stream_identifies [OF v sample_config_valid] by (simp add: sample_config_def)
qed

section \<open>The order of the logs\<close>

text \<open>The logs of a chain: the position of a log in the chain identifies it, and so does its identity.\<close>

definition consistent :: "Log set \<Rightarrow> bool" where
  "consistent L \<longleftrightarrow> (\<forall>k \<in> L. \<forall>l \<in> L. log_order k = log_order l \<or> same_identity k l \<longrightarrow> k = l)"

lemma subseq_sorted: "subseq xs ys \<Longrightarrow> sorted ys \<Longrightarrow> sorted xs" for xs :: "'a :: linorder list"
  by (induction rule: list_emb.induct) (auto dest: list_emb_set)

lemma compact_Cons: "\<exists>ys. compact (x # xs) = x # ys"
  by (induction xs arbitrary: x) auto

lemma compact_map: "inj_on f (set xs) \<Longrightarrow> map f (compact xs) = compact (map f xs)"
proof (induction xs rule: compact.induct)
  case (3 x y ys)
  have "f x = f y \<longleftrightarrow> x = y" using 3(3) by (auto simp: inj_on_def)
  moreover have "inj_on f (set (y # ys))" using 3(3) by (rule inj_on_subset) auto
  ultimately show ?case using 3(1,2) by simp
qed auto

lemma unique_logs_consistent:
  "consistent (insert p (set ls)) \<Longrightarrow> unique_logs (Some p) ls = Inr (tl (compact (p # ls)))"
proof (induction ls arbitrary: p)
  case (Cons l ls)
  have c: "consistent (insert l (set ls))" using Cons(2) by (auto simp: consistent_def)
  obtain ys where ys: "compact (l # ls) = l # ys" using compact_Cons [of l ls] by blast
  show ?case
  proof (cases "p = l")
    case True
    then show ?thesis using Cons(1) [OF c] by (simp add: same_identity_def log_conflict_def)
  next
    case False
    then have "\<not> same_identity p l" using Cons(2) by (auto simp: consistent_def)
    then show ?thesis using Cons(1) [OF c] False ys by simp
  qed
qed simp

lemma orderedUniqueLogs_consistent:
  assumes "consistent (set logs)"
  shows "orderedUniqueLogs logs = Inr (compact (sort_key log_order logs))"
proof (cases "sort_key log_order logs")
  case Nil
  then show ?thesis by (simp add: orderedUniqueLogs_def)
next
  case (Cons l ls)
  obtain ys where ys: "compact (l # ls) = l # ys" using compact_Cons [of l ls] by blast
  have "set logs = insert l (set ls)" using Cons by (metis list.simps(15) set_sort)
  then have "unique_logs (Some l) ls = Inr ys" using unique_logs_consistent [of l ls] assms ys by simp
  then show ?thesis by (simp add: orderedUniqueLogs_def Cons ys)
qed

lemma compact_sort_key:
  assumes "inj_on f (set xs)"
  shows "sorted (map f (compact (sort_key f xs)))" "distinct (map f (compact (sort_key f xs)))"
proof -
  have "map f (compact (sort_key f xs)) = compact (map f (sort_key f xs))"
    using assms by (intro compact_map) simp
  moreover have "sorted (map f (sort_key f xs))" by simp
  ultimately show "sorted (map f (compact (sort_key f xs)))" "distinct (map f (compact (sort_key f xs)))"
    using sorted_compact by metis+
qed

text \<open>
  The listener's view of the logs does not depend on how the node delivers them: two answers with
  the same consistent set of logs, in any order and with any repetitions, give the same list, which
  has every log exactly once, in the order of the chain; and whatever the answer, an accepted list
  has exactly the logs delivered, in that order.
\<close>

lemma orderedUniqueLogs_canonical:
  assumes "consistent (set logs)" "set logs' = set logs"
  shows "orderedUniqueLogs logs' = orderedUniqueLogs logs \<and>
    (\<exists>out. orderedUniqueLogs logs = Inr out \<and> set out = set logs \<and> sorted (map log_order out) \<and> distinct (map log_order out))"
proof -
  let ?c = "\<lambda>ls. compact (sort_key log_order ls)"
  have inj: "inj_on log_order (set logs)" using assms(1) by (auto simp: consistent_def inj_on_def)
  have "?c logs' = ?c logs"
    using assms(2) inj compact_sort_key [of log_order logs] compact_sort_key [of log_order logs']
    by (intro map_sorted_distinct_set_unique [of log_order]) (simp_all add: compact_props(1))
  then show ?thesis
    using orderedUniqueLogs_consistent [of logs] orderedUniqueLogs_consistent [of logs'] assms compact_sort_key [OF inj]
    by (simp add: compact_props(1))
qed

lemma orderedUniqueLogs_canonical_witness:
  "orderedUniqueLogs [sample_deposit, sample_deposit\<lparr>l_Index := 1\<rparr>, sample_deposit] =
   orderedUniqueLogs [sample_deposit\<lparr>l_Index := 1\<rparr>, sample_deposit]"
proof -
  have "consistent (set [sample_deposit\<lparr>l_Index := 1\<rparr>, sample_deposit])"
    by (auto simp: consistent_def log_order_def same_identity_def sample_deposit_def)
  then show ?thesis
    using orderedUniqueLogs_canonical [of "[sample_deposit\<lparr>l_Index := 1\<rparr>, sample_deposit]"
        "[sample_deposit, sample_deposit\<lparr>l_Index := 1\<rparr>, sample_deposit]"] by auto
qed

text \<open>
  Whatever a node answers, an accepted list has exactly the logs of the answer in the order of the
  chain, and two neighbours never carry the same identity; an answer is refused only when two of its
  logs carry the same identity and differ.
\<close>

lemma orderedUniqueLogs_exact:
  "case orderedUniqueLogs logs of
     Inr out \<Rightarrow> set out = set logs \<and> sorted (map log_order out) \<and> adjacent_distinct out
   | Inl e \<Rightarrow> \<exists>k \<in> set logs. \<exists>l \<in> set logs. same_identity k l \<and> k \<noteq> l"
proof -
  have refused: "unique_logs prev ls = Inl e \<Longrightarrow> \<exists>k \<in> set ls \<union> set_option prev. \<exists>l \<in> set ls. same_identity k l \<and> k \<noteq> l"
    for prev ls e
  proof (induction prev ls rule: unique_logs.induct)
    case (2 prev l ls)
    show ?case
    proof (cases "\<exists>p. prev = Some p \<and> same_identity p l")
      case True
      then obtain p where p: "prev = Some p" "same_identity p l" by blast
      show ?thesis
      proof (cases "log_conflict p l")
        case True
        then have "p \<noteq> l" by (auto simp: log_conflict_def)
        then show ?thesis using p by auto
      next
        case False
        then have "unique_logs prev ls = Inl e" using 2(3) p by simp
        then show ?thesis using 2(2) [of p] p False by auto
      qed
    next
      case False
      then have "unique_logs (Some l) ls = Inl e" using 2(3) by (auto split: option.splits if_splits sum.splits)
      moreover have "(case prev of None \<Rightarrow> None | Some p \<Rightarrow> if same_identity p l then Some p else None) = None"
        using False by (auto split: option.splits)
      ultimately show ?thesis using 2(1) by auto
    qed
  qed simp
  show ?thesis
  proof (cases "orderedUniqueLogs logs")
    case (Inl e)
    then show ?thesis using refused [of None "sort_key log_order logs" e] by (simp add: orderedUniqueLogs_def)
  next
    case (Inr out)
    then have u: "unique_logs None (sort_key log_order logs) = Inr out" by (simp add: orderedUniqueLogs_def)
    have sub: "subseq out (sort_key log_order logs)" and all: "\<forall>l \<in> set logs. \<exists>k \<in> set out. same_identity k l \<and> \<not> log_conflict k l"
      and adj: "adjacent_distinct out" using unique_logs_Inr [OF u] by simp_all
    have "set logs \<subseteq> set out" using all same_log by blast
    moreover have "set out \<subseteq> set logs" using list_emb_set [OF sub] by auto
    moreover have "sorted (map log_order out)"
      by (rule subseq_sorted [OF subseq_map [OF sub]]) simp
    ultimately show ?thesis using adj Inr by auto
  qed
qed

section \<open>Payments\<close>

text \<open>
  C24: the pairing of redemptions with their payments accepts exactly the batches of the grammar
  \<open>well_paid\<close> and fills in exactly the amounts it says: what was paid is the transfer before the
  redemption (nothing when there is none), the reserve's part is the claim before that, the
  deposit's part the rest, and never more than the face value is paid.
\<close>

theorem correlateRedemptions_grammar: "correlateRedemptions es = Inr out \<longleftrightarrow> well_paid es out"
  using well_paid_correlate correlate_well_paid unfolding correlateRedemptions_def by blast


section \<open>Safety\<close>

text \<open>
  C21: whatever the node and its ABI data answer, and however long the listener runs, it keeps the
  ledger, the funds and the equation of the escrow balances, and writes no table of the other
  components, on every way out: a configuration error, a fatal error or cancellation.
\<close>

theorem Run_safe:
  assumes "Run g r c polls s = (res, s')" "chain_ok s"
  shows "chain_ok s' \<and> other_tables s' = other_tables s"
proof -
  have "safe s (snd (Run g r c polls s))" using Run_always unfolding always_def by blast
  then show ?thesis using assms by (simp add: safe_def)
qed

definition sample_listened :: world where
  "sample_listened = snd (Run sample_geth sample_node sample_config 3 sample)"

lemma Run_safe_witness:
  "Run sample_geth sample_node sample_config 3 sample = (Inr (), sample_listened) \<and> chain_ok sample_listened"
proof -
  have run: "Run sample_geth sample_node sample_config 3 sample = (Inr (), sample_listened)"
    by (simp add: prod_eq_iff sample_listened_def) code_simp
  have "chain_ok sample"
    using migrated_accounts
    by (simp add: chain_ok_def sample_def chain_rows_def escrow_ok_def chain_effect_def migrated_def bal_def tget_def)
  then show ?thesis using Run_safe [OF run] run by simp
qed

section \<open>The bounds of a batch\<close>

definition int64_fields :: "Config \<Rightarrow> bool" where
  "int64_fields c \<longleftrightarrow> is_i64 (Confirmations c) \<and> is_i64 (BatchSize c) \<and> is_i64 (Lookback c)"

lemma batch_end_value:
  assumes "Validate c = Inr ()" "int64_fields c" "0 \<le> next" "next \<le> confirmed" "confirmed < MaxInt64"
  shows "batch_end c next confirmed = min (next + BatchSize c - 1) confirmed"
proof -
  have "i64 (BatchSize c - 1) = BatchSize c - 1" "i64 (confirmed - next) = confirmed - next"
    using assms by (auto simp: Validate_Inr int64_fields_def is_i64_def intro!: i64_id)
  moreover have "i64 (next + min (BatchSize c - 1) (confirmed - next)) = next + min (BatchSize c - 1) (confirmed - next)"
    using assms by (intro i64_id) (auto simp: Validate_Inr is_i64_def)
  ultimately show ?thesis by (simp add: batch_end_def)
qed

lemma confirmed_value:
  assumes "Validate c = Inr ()" "int64_fields c" "0 \<le> head" "head < MaxInt64"
  shows "i64 (head - Confirmations c) = head - Confirmations c"
  using assms by (intro i64_id) (auto simp: Validate_Inr int64_fields_def is_i64_def)

text \<open>
  C26: with a valid configuration no 64-bit computation of a batch wraps: the batch starts at the
  checkpoint, ends at a confirmed block, has at least one and at most \<open>BatchSize\<close> blocks, and the
  overflow that the code guards against cannot happen.
\<close>

theorem step_batch_bounds:
  assumes "Validate c = Inr ()" "int64_fields c" "0 \<le> next" "0 \<le> head" "head < MaxInt64" "next \<le> head - Confirmations c"
  shows "\<exists>last. step_batch g r c head next hash = apply_batch g r c next hash last \<and>
    last = batch_end c next (i64 (head - Confirmations c)) \<and> last = min (next + BatchSize c - 1) (head - Confirmations c) \<and>
    next \<le> last \<and> last \<le> head - Confirmations c \<and> last - next < BatchSize c \<and> last < MaxInt64"
proof -
  have v: "0 \<le> Confirmations c" "0 < BatchSize c" using assms(1) by (auto simp: Validate_Inr)
  have "batch_end c next (head - Confirmations c) = min (next + BatchSize c - 1) (head - Confirmations c)"
    using assms v by (intro batch_end_value) auto
  then show ?thesis using v assms by (auto simp: step_batch_def confirmed_value Let_def)
qed

lemma step_batch_bounds_witness:
  "step_batch sample_geth sample_node sample_config 4 2 [] = apply_batch sample_geth sample_node sample_config 2 [] 3"
proof -
  have i: "int64_fields sample_config" by code_simp
  show ?thesis
    using step_batch_bounds [OF sample_config_valid i, of 2 4 sample_geth sample_node "[]"] by (auto simp: sample_config_def)
qed

section \<open>What a poll does\<close>

lemma header_Inr: "header r n s = (Inr h, s') \<Longrightarrow> h_Number h = Some n \<and> s' = s\<lparr>tick := Suc (tick s)\<rparr>"
  by (auto simp: header_def txs split: option.splits if_splits)

lemma latestHeader_Inr: "latestHeader r s = (Inr (n, h), s') \<Longrightarrow> s' = s\<lparr>tick := Suc (tick s)\<rparr> \<and> 0 \<le> n \<and> n < MaxInt64"
  by (auto simp: latestHeader_def txs is_i64_def split: option.splits if_splits)

lemma fetch_headers_Inr:
  "fetch_headers r next k s = (Inr hs, s') \<Longrightarrow> length hs = k \<and> (\<exists>t. s' = s\<lparr>tick := t\<rparr>)"
proof -
  have "mapE xs (\<lambda>i. header r (next + int i)) s = (Inr hs, s') \<Longrightarrow> length hs = length xs \<and> (\<exists>t. s' = s\<lparr>tick := t\<rparr>)" for xs
  proof (induction xs arbitrary: hs s)
    case Nil
    then show ?case by (auto intro: exI [of _ "tick s"])
  next
    case (Cons x xs)
    then show ?case by (fastforce simp: txs dest: header_Inr)
  qed
  then show "fetch_headers r next k s = (Inr hs, s') \<Longrightarrow> length hs = k \<and> (\<exists>t. s' = s\<lparr>tick := t\<rparr>)"
    by (fastforce simp: fetch_headers_def)
qed

text \<open>Consecutive blocks that hang together by the headers they were made from.\<close>

definition hash_linked :: "geth \<Rightarrow> string \<Rightarrow> int \<Rightarrow> eth_header list \<Rightarrow> Block list \<Rightarrow> bool" where
  "hash_linked g prev n hs bs \<longleftrightarrow> length hs = length bs \<and>
     (\<forall>i < length bs. Number (bs ! i) = n + int i \<and> Hash (bs ! i) = block_hash g (hs ! i) \<and>
        (let parent = (if i = 0 then prev else Hash (bs ! (i - 1))) in
         parent = [] \<or> ToLower (hash_Hex g (h_ParentHash (hs ! i))) = parent))"

lemma link_blocks_Inr: "link_blocks g prev n hs = Inr bs \<Longrightarrow> hash_linked g prev n hs bs"
proof (induction hs arbitrary: prev n bs)
  case Nil
  then show ?case by (simp add: hash_linked_def)
next
  case (Cons h hs)
  then obtain cs where l: "link_blocks g (block_hash g h) (n + 1) hs = Inr cs" and
    bs: "bs = \<lparr>Number = n, Hash = block_hash g h\<rparr> # cs" and p: "prev = [] \<or> ToLower (hash_Hex g (h_ParentHash h)) = prev"
    by (auto split: if_splits)
  have i: "hash_linked g (block_hash g h) (n + 1) hs cs" by (rule Cons(1) [OF l])
  show ?case
    unfolding hash_linked_def
  proof (intro conjI allI impI)
    show "length (h # hs) = length bs" using i bs by (simp add: hash_linked_def)
    fix j assume j: "j < length bs"
    show "Number (bs ! j) = n + int j" "Hash (bs ! j) = block_hash g ((h # hs) ! j)"
      using i j bs by (cases j; force simp: hash_linked_def)+
    show "let parent = if j = 0 then prev else Hash (bs ! (j - 1)) in
         parent = [] \<or> ToLower (hash_Hex g (h_ParentHash ((h # hs) ! j))) = parent"
    proof (cases j)
      case 0
      then show ?thesis using p by (auto simp: Let_def)
    next
      case (Suc k)
      then have "let parent = if k = 0 then block_hash g h else Hash (cs ! (k - 1)) in
         parent = [] \<or> ToLower (hash_Hex g (h_ParentHash (hs ! k))) = parent"
        using i j bs by (auto simp: hash_linked_def)
      then show ?thesis using Suc bs by (cases k) (auto simp: Let_def)
    qed
  qed
qed

lemma find_ancestor_Inr:
  "find_ancestor g r c next bs s = (Inr p, s') \<Longrightarrow> p \<and> (\<exists>b t. b \<in> set bs \<and> i64 (next - 1 - Number b) \<le> Lookback c \<and>
     Rewind (Stream c) (cfg_ChainID c) (ToLower (cfg_Contract c)) b (s\<lparr>tick := t\<rparr>) = (Inr (), s'))"
proof (induction bs arbitrary: s)
  case (Cons b bs)
  then obtain h where h: "header r (Number b) s = (Inr h, s\<lparr>tick := Suc (tick s)\<rparr>)" and near: "\<not> Lookback c < i64 (next - 1 - Number b)"
    by (auto simp: txs dest: header_Inr)
  show ?case
  proof (cases "block_hash g h = Hash b")
    case True
    then show ?thesis using Cons(2) h near by (auto simp: bindE_def txs not_less split: if_splits)
  next
    case False
    then have "find_ancestor g r c next bs (s\<lparr>tick := Suc (tick s)\<rparr>) = (Inr p, s')"
      using Cons(2) h near by (auto simp: bindE_def split: if_splits)
    from Cons(1) [OF this] show ?thesis by auto
  qed
qed simp

lemma apply_batch_Inr:
  assumes "apply_batch g r c next hash fin s = (Inr p, s')"
  shows "p \<and> (\<exists>hs blocks events t. length blocks = nat (fin - next + 1) \<and> hash_linked g hash next hs blocks \<and>
    ApplyChain (Stream c) blocks events (Lookback c) (s\<lparr>tick := t\<rparr>) = (Inr (), s'))"
proof -
  from assms obtain hs s1 blocks logs s2 events h s3 where
    f: "fetch_headers r next (nat (fin - next + 1)) s = (Inr hs, s1)" and l: "link_blocks g hash next hs = Inr blocks" and
    q: "rpc_call (\<lambda>t. FilterLogs r t (log_query g c next fin)) s1 = (Inr logs, s2)" and
    h: "header r fin s2 = (Inr h, s3)" and
    a: "ApplyChain (Stream c) blocks events (Lookback c) s3 = (Inr (), s')" and p: "p"
    by (auto simp: apply_batch_def txs simp del: rpc_call_Inr)
  obtain t where "s1 = s\<lparr>tick := t\<rparr>" and len: "length hs = nat (fin - next + 1)" using fetch_headers_Inr [OF f] by blast
  then have "\<exists>t. s3 = s\<lparr>tick := t\<rparr>" using header_Inr [OF h] q by (auto simp: rpc_call_Inr)
  moreover have "length blocks = length hs" using link_blocks_Inr [OF l] by (simp add: hash_linked_def)
  ultimately show ?thesis using a p len link_blocks_Inr [OF l] by auto
qed


lemma ApplyChain_checkpoint:
  "ApplyChain stream blocks events lookback s = (Inr u, s') \<Longrightarrow> blocks \<noteq> [] \<and>
   map_of (ingestion_checkpoints s') (''chain'', stream) = Some (i64 (Number (last blocks) + 1), Hash (last blocks))"
  by (auto simp: ApplyChain_def SetCheckpoint_def delete_blocks_def txs update_conv' split: if_splits)

lemma Rewind_checkpoint:
  "Rewind stream chain contract b s = (Inr u, s') \<Longrightarrow>
   map_of (ingestion_checkpoints s') (''chain'', stream) = Some (i64 (Number b + 1), Hash b)"
  by (auto simp: Rewind_def rewind_to_def SetCheckpoint_def txs update_conv' split: option.splits if_splits)

lemma Checkpoint_found:
  "map_of (ingestion_checkpoints s) (src, stream) = Some (next, hash) \<Longrightarrow> Checkpoint src stream s = (Inr (next, hash, True), s)"
  by (simp add: Checkpoint_def)

lemma reorganised_Inr:
  assumes "reorganised g r c next hash s = (Inr p, s')"
  shows "if p then \<exists>b t. b \<in> set (Blocks (Stream c) s) \<and> i64 (next - 1 - Number b) \<le> Lookback c \<and>
      Rewind (Stream c) (cfg_ChainID c) (ToLower (cfg_Contract c)) b (s\<lparr>tick := t\<rparr>) = (Inr (), s')
    else \<exists>t. s' = s\<lparr>tick := t\<rparr>"
proof (cases "0 < next")
  case False
  then show ?thesis using assms by (auto simp: reorganised_def intro: exI [of _ "tick s"])
next
  case True
  then obtain h where h: "header r (next - 1) s = (Inr h, s\<lparr>tick := Suc (tick s)\<rparr>)"
    using assms by (auto simp: reorganised_def txs dest: header_Inr)
  show ?thesis
  proof (cases "block_hash g h = hash")
    case True
    then show ?thesis using assms h \<open>0 < next\<close> by (auto simp: reorganised_def bindE_step)
  next
    case False
    let ?s = "s\<lparr>tick := Suc (tick s)\<rparr>"
    have "find_ancestor g r c next (Blocks (Stream c) ?s) ?s = (Inr p, s')"
      using assms h \<open>0 < next\<close> False by (simp add: reorganised_def bindE_step)
    moreover have "Blocks (Stream c) ?s = Blocks (Stream c) s" by (simp add: Blocks_def)
    ultimately show ?thesis using find_ancestor_Inr [of g r c "next" "Blocks (Stream c) s" ?s p s'] by auto
  qed
qed



section \<open>Progress with an honest node\<close>

text \<open>A node that serves one hash-linked chain whose head only grows; it may grow between any two calls.\<close>

definition honest :: "geth \<Rightarrow> (int \<Rightarrow> eth_header) \<Rightarrow> (nat \<Rightarrow> int) \<Rightarrow> rpc \<Rightarrow> bool" where
  "honest g ch head r \<longleftrightarrow> mono head \<and>
     (\<forall>t. 0 \<le> head t \<and> head t < MaxInt64 \<and> HeaderByNumber r t None = Inr (Some (ch (head t))) \<and>
        (\<forall>n. 0 \<le> n \<and> n \<le> head t \<longrightarrow> HeaderByNumber r t (Some n) = Inr (Some (ch n)))) \<and>
     (\<forall>n. 0 \<le> n \<longrightarrow> h_Number (ch n) = Some n \<and> hex_text 66 (block_hash g (ch n)) \<and>
        ToLower (hash_Hex g (h_ParentHash (ch (n + 1)))) = block_hash g (ch n))"

definition quiet :: "rpc \<Rightarrow> bool" where
  "quiet r \<longleftrightarrow> (\<forall>t q. FilterLogs r t q = Inr [])"

text \<open>The checkpoint of a stream stands before block \<open>n\<close> of the chain.\<close>

definition position :: "geth \<Rightarrow> (int \<Rightarrow> eth_header) \<Rightarrow> string \<Rightarrow> int \<Rightarrow> world \<Rightarrow> bool" where
  "position g ch stream n s \<longleftrightarrow> 0 \<le> n \<and>
     map_of (ingestion_checkpoints s) (''chain'', stream) = Some (n, if n = 0 then [] else block_hash g (ch (n - 1)))"

lemma honest_header:
  "honest g ch head r \<Longrightarrow> 0 \<le> n \<Longrightarrow> n \<le> head (tick s) \<Longrightarrow> header r n s = (Inr (ch n), s\<lparr>tick := Suc (tick s)\<rparr>)"
  by (simp add: header_def honest_def stageE_def rpc_call_def bindE_def)

lemma honest_latest:
  "honest g ch head r \<Longrightarrow> latestHeader r s = (Inr (head (tick s), ch (head (tick s))), s\<lparr>tick := Suc (tick s)\<rparr>)"
proof -
  assume h: "honest g ch head r"
  then have "h_Number (ch (head (tick s))) = Some (head (tick s))" "0 \<le> head (tick s)" "head (tick s) < MaxInt64"
    "HeaderByNumber r (tick s) None = Inr (Some (ch (head (tick s))))" unfolding honest_def by blast+
  then show ?thesis by (simp add: latestHeader_def stageE_def rpc_call_def bindE_def is_i64_def)
qed

lemma honest_fetch:
  assumes "honest g ch head r" "0 \<le> n" "n + int k \<le> head (tick s) + 1"
  shows "fetch_headers r n k s = (Inr (map (\<lambda>i. ch (n + int i)) [0..<k]), s\<lparr>tick := tick s + k\<rparr>)"
proof -
  have "mapE xs (\<lambda>i. header r (n + int i)) s = (Inr (map (\<lambda>i. ch (n + int i)) xs), s\<lparr>tick := tick s + length xs\<rparr>)"
    if "\<forall>i \<in> set xs. n + int i \<le> head (tick s)" for xs s
    using that
  proof (induction xs arbitrary: s)
    case (Cons x xs)
    let ?s = "s\<lparr>tick := Suc (tick s)\<rparr>"
    have hx: "header r (n + int x) s = (Inr (ch (n + int x)), ?s)"
      using Cons(2) assms(2) by (intro honest_header [OF assms(1)]) auto
    have "head (tick s) \<le> head (tick ?s)" using assms(1) by (simp add: honest_def mono_def)
    then have "\<forall>i \<in> set xs. n + int i \<le> head (tick ?s)" using Cons(2) by fastforce
    from Cons(1) [OF this] show ?case by (simp add: bindE_def hx)
  qed simp
  from this [of "[0..<k]" s] show ?thesis using assms by (simp add: fetch_headers_def)
qed

definition chain_blocks_of :: "geth \<Rightarrow> (int \<Rightarrow> eth_header) \<Rightarrow> int \<Rightarrow> nat \<Rightarrow> Block list" where
  "chain_blocks_of g ch n k = map (\<lambda>i. \<lparr>Number = n + int i, Hash = block_hash g (ch (n + int i))\<rparr>) [0..<k]"

lemma honest_link:
  assumes "honest g ch head r" "0 \<le> n" "prev = (if n = 0 then [] else block_hash g (ch (n - 1)))"
  shows "link_blocks g prev n (map (\<lambda>i. ch (n + int i)) [0..<k]) = Inr (chain_blocks_of g ch n k)"
proof -
  have parent: "ToLower (hash_Hex g (h_ParentHash (ch m))) = block_hash g (ch (m - 1))" if "0 < m" for m
    using assms(1) that unfolding honest_def by (metis diff_add_cancel zle_diff1_eq)
  have "link_blocks g prev n (map (\<lambda>i. ch (n + int i)) [0..<k]) = Inr (chain_blocks_of g ch n k)"
    if "0 \<le> n" "prev = (if n = 0 then [] else block_hash g (ch (n - 1)))" for prev n
    using that
  proof (induction k arbitrary: n prev)
    case (Suc k)
    have m: "map (\<lambda>i. ch (n + int i)) [0..<Suc k] = ch n # map (\<lambda>i. ch (n + 1 + int i)) [0..<k]"
      by (simp add: map_upt_Suc algebra_simps del: upt_Suc)
    have bs: "chain_blocks_of g ch n (Suc k) = \<lparr>Number = n, Hash = block_hash g (ch n)\<rparr> # chain_blocks_of g ch (n + 1) k"
      by (simp add: chain_blocks_of_def map_upt_Suc algebra_simps del: upt_Suc)
    have "link_blocks g (block_hash g (ch n)) (n + 1) (map (\<lambda>i. ch (n + 1 + int i)) [0..<k]) = Inr (chain_blocks_of g ch (n + 1) k)"
      using Suc(2) by (intro Suc(1)) auto
    moreover have "\<not> (prev \<noteq> [] \<and> ToLower (hash_Hex g (h_ParentHash (ch n))) \<noteq> prev)"
      using Suc(2,3) parent [of n] by auto
    ultimately show ?case unfolding m bs by simp
  qed (simp add: chain_blocks_of_def)
  then show ?thesis using assms by blast
qed


lemma upsert_blocks:
  "\<forall>b \<in> set bs. 0 \<le> Number b \<and> hex_text 66 (Hash b) \<Longrightarrow> \<exists>cb. forE bs (upsert_chain_block stream) s = (Inr (), s\<lparr>chain_blocks := cb\<rparr>)"
proof (induction bs arbitrary: s)
  case Nil
  show ?case by (auto intro: exI [of _ "chain_blocks s"])
next
  case (Cons b bs)
  let ?s = "s\<lparr>chain_blocks := AList.update (stream, Number b) (Hash b) (chain_blocks s)\<rparr>"
  have "upsert_chain_block stream b s = (Inr (), ?s)" using Cons(2) by (simp add: upsert_chain_block_def sql_write_def)
  then have "forE (b # bs) (upsert_chain_block stream) s = forE bs (upsert_chain_block stream) ?s" by (simp add: thenE_step)
  moreover have "\<forall>b \<in> set bs. 0 \<le> Number b \<and> hex_text 66 (Hash b)" using Cons(2) by simp
  ultimately show ?case using Cons(1) [of ?s] by auto
qed

lemma honest_apply:
  assumes "honest g ch head r" "0 \<le> n" "0 < k" "n + int k \<le> MaxInt64"
  shows "\<exists>s'. ApplyChain stream (chain_blocks_of g ch n k) [] lookback s = (Inr (), s') \<and> tick s' = tick s \<and>
    position g ch stream (n + int k) s'"
proof -
  let ?bs = "chain_blocks_of g ch n k"
  have valid: "\<forall>b \<in> set ?bs. 0 \<le> Number b \<and> hex_text 66 (Hash b)"
    using assms by (auto simp: chain_blocks_of_def honest_def)
  obtain cb where cb: "forE ?bs (upsert_chain_block stream) s = (Inr (), s\<lparr>chain_blocks := cb\<rparr>)" using upsert_blocks [OF valid] by blast
  have ne: "?bs \<noteq> []" using assms(3) by (simp add: chain_blocks_of_def)
  have end_block: "last ?bs = \<lparr>Number = n + int k - 1, Hash = block_hash g (ch (n + int k - 1))\<rparr>"
    using assms(3) ne by (simp add: chain_blocks_of_def last_map of_nat_diff algebra_simps)
  have wrap: "i64 (Number (last ?bs) + 1) = n + int k" using assms by (simp add: end_block i64_id is_i64_def)
  have hash: "hex_text 66 (Hash (last ?bs))" using valid ne by (meson last_in_set)
  let ?u = "s\<lparr>chain_blocks := cb, ingestion_checkpoints := AList.update (''chain'', stream) (n + int k, Hash (last ?bs)) (ingestion_checkpoints s)\<rparr>"
  have "SetCheckpoint ''chain'' stream (n + int k) (Hash (last ?bs)) (s\<lparr>chain_blocks := cb\<rparr>) = (Inr (), ?u)"
    using assms(2) hash by (simp add: SetCheckpoint_def sql_write_def oneOf_def)
  then have "ApplyChain stream ?bs [] lookback s = delete_blocks stream (\<lambda>m. m < i64 (Number (last ?bs) - lookback)) ?u"
    using ne by (simp add: ApplyChain_def Write_def thenE_def bindE_def cb wrap delete_blocks_def)
  then show ?thesis
    using assms by (simp add: delete_blocks_def position_def update_conv' end_block)
qed

lemma honest_poll:
  assumes h: "honest g ch head r" and q: "quiet r" and v: "Validate c = Inr ()" "int64_fields c"
    and p: "position g ch (Stream c) n s" and n: "n \<le> head (tick s) + 1"
  shows "\<exists>progress s' m. Step g r c s = (Inr progress, s') \<and> position g ch (Stream c) m s' \<and> n \<le> m \<and>
    m \<le> head (tick s') + 1 \<and> head (tick s) \<le> head (tick s') \<and> (head (tick s) - Confirmations c < m \<or> n + BatchSize c \<le> m)"
proof -
  have grow: "t \<le> u \<Longrightarrow> head t \<le> head u" for t u using h by (simp add: honest_def mono_def)
  define hash where "hash = (if n = 0 then [] else block_hash g (ch (n - 1)))"
  have cp: "map_of (ingestion_checkpoints s) (''chain'', Stream c) = Some (n, hash)" and n0: "0 \<le> n"
    using p by (auto simp: position_def hash_def)
  let ?s1 = "s\<lparr>tick := Suc (tick s)\<rparr>"
  have latest: "latestHeader r s = (Inr (head (tick s), ch (head (tick s))), ?s1)" by (rule honest_latest [OF h])
  have hd: "0 \<le> head (tick s)" "head (tick s) < MaxInt64" using h by (auto simp: honest_def)
  obtain t where t: "tick s < t" and re: "reorganised g r c n hash ?s1 = (Inr False, s\<lparr>tick := t\<rparr>)"
  proof (cases "0 < n")
    case True
    have "header r (n - 1) ?s1 = (Inr (ch (n - 1)), ?s1\<lparr>tick := Suc (tick ?s1)\<rparr>)"
      using True n grow [of "tick s" "Suc (tick s)"] by (intro honest_header [OF h]) auto
    then have "reorganised g r c n hash ?s1 = (Inr False, s\<lparr>tick := Suc (Suc (tick s))\<rparr>)"
      using True by (simp add: reorganised_def hash_def bindE_def)
    then show thesis using that [of "Suc (Suc (tick s))"] by simp
  next
    case False
    then show thesis using that [of "Suc (tick s)"] by (simp add: reorganised_def)
  qed
  let ?s2 = "s\<lparr>tick := t\<rparr>"
  have step: "Step g r c s = stageE ''database'' (step_batch g r c (head (tick s)) n hash) ?s2"
    using latest re by (simp add: Step_def stageE_def bindE_def Checkpoint_found [OF cp])
  show ?thesis
  proof (cases "n \<le> head (tick s) - Confirmations c")
    case False
    then have "Step g r c s = (Inr False, ?s2)"
      by (simp add: step stageE_def step_batch_def confirmed_value [OF v hd])
    moreover have "position g ch (Stream c) n ?s2" using p by (simp add: position_def)
    moreover have "head (tick s) \<le> head (tick ?s2)" using grow t by simp
    ultimately show ?thesis using False n by (intro exI [of _ False] exI [of _ ?s2] exI [of _ n]) auto
  next
    case True
    define m where "m = min (n + BatchSize c - 1) (head (tick s) - Confirmations c)"
    define k where "k = nat (m - n + 1)"
    have bounds: "step_batch g r c (head (tick s)) n hash = apply_batch g r c n hash m" "n \<le> m" "0 \<le> Confirmations c"
      "m \<le> head (tick s) - Confirmations c"
      using step_batch_bounds [OF v n0 hd True, of g r hash] v(1) True by (auto simp: Validate_Inr m_def)
    have k: "0 < k" "n + int k = m + 1" using bounds(2) by (auto simp: k_def)
    have reach: "m \<le> head u" if "tick s \<le> u" for u using grow [OF that] bounds(3,4) by linarith
    have f: "fetch_headers r n k ?s2 = (Inr (map (\<lambda>i. ch (n + int i)) [0..<k]), ?s2\<lparr>tick := tick ?s2 + k\<rparr>)"
      using reach [of t] t k(2) by (intro honest_fetch [OF h n0]) simp
    have l: "link_blocks g hash n (map (\<lambda>i. ch (n + int i)) [0..<k]) = Inr (chain_blocks_of g ch n k)"
      by (rule honest_link [OF h n0]) (simp add: hash_def)
    let ?s3 = "s\<lparr>tick := Suc (t + k)\<rparr>"
    have hm: "header r m ?s3 = (Inr (ch m), ?s3\<lparr>tick := Suc (tick ?s3)\<rparr>)"
      using reach [of "Suc (t + k)"] t bounds(2) n0 by (intro honest_header [OF h]) auto
    have lasth: "last (map (\<lambda>i. ch (n + int i)) [0..<k]) = ch m"
      using k by (simp add: last_map of_nat_diff algebra_simps)
    let ?s4 = "s\<lparr>tick := Suc (Suc (t + k))\<rparr>"
    obtain s' where s': "ApplyChain (Stream c) (chain_blocks_of g ch n k) [] (Lookback c) ?s4 = (Inr (), s')"
      "tick s' = tick ?s4" "position g ch (Stream c) (m + 1) s'"
    proof -
      have "n + int k \<le> MaxInt64" using k(2) hd bounds(3,4) by linarith
      then show thesis using that honest_apply [OF h n0 k(1), of "Stream c" "Lookback c" ?s4] k(2) by auto
    qed
    have "m - n + 1 = int k" using k(2) by simp
    then have "apply_batch g r c n hash m ?s2 = (Inr True, s')"
      using f l hm lasth s'(1) q
      by (simp add: apply_batch_def bindE_def liftE_simp stageE_def rpc_call_def quiet_def decode_batch_def
          orderedUniqueLogs_def correlateRedemptions_def thenE_def)
    then have "Step g r c s = (Inr True, s')" by (simp add: step bounds(1) stageE_def)
    moreover have "head (tick s) \<le> head (tick s')" using grow [of "tick s" "tick s'"] s'(2) t by simp
    moreover have "n \<le> m + 1" "head (tick s) - Confirmations c < m + 1 \<or> n + BatchSize c \<le> m + 1" using bounds(2) by (auto simp: m_def)
    moreover have "m + 1 \<le> head (tick s') + 1" using reach [of "tick s'"] s'(2) t by simp
    ultimately show ?thesis using s'(3) by blast
  qed
qed


lemma honest_polls:
  assumes "honest g ch head r" "quiet r" "Validate c = Inr ()" "int64_fields c"
  shows "position g ch (Stream c) n s \<Longrightarrow> n \<le> head (tick s) + 1 \<Longrightarrow> target \<le> head (tick s) - Confirmations c \<Longrightarrow>
    target < n + int polls * BatchSize c \<Longrightarrow>
    \<exists>s' m. run_loop g r c polls s = (Inr (), s') \<and> position g ch (Stream c) m s' \<and> target < m"
proof (induction polls arbitrary: n s)
  case 0
  then show ?case by auto
next
  case (Suc polls)
  from honest_poll [OF assms Suc(2,3)] obtain progress s1 m where
    step: "Step g r c s = (Inr progress, s1)" and m: "position g ch (Stream c) m s1" "n \<le> m" "m \<le> head (tick s1) + 1"
    "head (tick s) \<le> head (tick s1)" "head (tick s) - Confirmations c < m \<or> n + BatchSize c \<le> m" by blast
  have b: "0 \<le> int polls * BatchSize c" using assms(3) by (auto simp: Validate_Inr)
  have "int (Suc polls) * BatchSize c = BatchSize c + int polls * BatchSize c" by (simp add: algebra_simps)
  then have "target < m + int polls * BatchSize c" using m(5) b Suc(4,5) by linarith
  moreover have "target \<le> head (tick s1) - Confirmations c" using Suc(4) m(4) by linarith
  ultimately show ?case using Suc(1) [OF m(1,3)] step by simp
qed

text \<open>
  C23: with an honest node and no events to account for, the listener never fails and catches up: after
  enough polls, one per \<open>BatchSize\<close> blocks of the backlog, its checkpoint stands behind every block
  that was confirmed when it started, with the hash of the chain.
\<close>

theorem run_loop_catches_up:
  assumes "honest g ch head r" "quiet r" "Validate c = Inr ()" "int64_fields c"
    and "position g ch (Stream c) n s" "n \<le> head (tick s) + 1"
    and "head (tick s) - Confirmations c < n + int polls * BatchSize c"
  shows "\<exists>s' m. run_loop g r c polls s = (Inr (), s') \<and> position g ch (Stream c) m s' \<and> head (tick s) - Confirmations c < m"
  by (rule honest_polls [OF assms(1-6) order_refl assms(7)])

text \<open>A node whose head grows by one block per call from 9 to 20, asked from block 0 on.\<close>

definition sample_head :: "nat \<Rightarrow> int" where
  "sample_head t = min 20 (9 + int t)"

definition sample_quiet :: rpc where
  "sample_quiet = sample_node\<lparr>FilterLogs := (\<lambda>t q. Inr []),
     HeaderByNumber := (\<lambda>t n. Inr (Some (sample_chain (case n of None \<Rightarrow> sample_head t | Some n \<Rightarrow> n))))\<rparr>"

definition sample_start :: world where
  "sample_start = sample\<lparr>ingestion_checkpoints := [((''chain'', Stream sample_config), 0, [])]\<rparr>"

lemma hex_digit_6: "n < 6 \<Longrightarrow> is_lower_hex (hex_digit n) \<and> lower_char (hex_digit n) = hex_digit n"
  by (auto simp: hex_digit_def is_lower_hex_def is_digit_def lower_char_def code_def)

lemma sample_honest: "honest sample_geth sample_chain sample_head sample_quiet" "quiet sample_quiet"
proof -
  have hash: "block_hash sample_geth (sample_chain n) = sample_hash (hex_digit (nat n mod 6))" for n
    using hex_digit_6 [of "nat n mod 6"]
    by (simp add: block_hash_def sample_geth_def sample_chain_def sample_hash_def ToLower_def lower_char_def code_def)
  have parent: "ToLower (hash_Hex sample_geth (h_ParentHash (sample_chain (n + 1)))) = sample_hash (hex_digit (nat n mod 6))"
    if "0 \<le> n" for n
  proof -
    have "(nat (n + 1) + 5) mod 6 = nat n mod 6" using that by (simp add: nat_add_distrib)
    then show ?thesis using hex_digit_6 [of "nat n mod 6"]
      by (simp add: sample_geth_def sample_chain_def sample_hash_def ToLower_def lower_char_def code_def)
  qed
  have hex: "hex_text 66 (sample_hash (hex_digit (nat n mod 6)))" for n
    using hex_digit_6 [of "nat n mod 6"] by (simp add: hex_text_def sample_hash_def)
  show "honest sample_geth sample_chain sample_head sample_quiet"
    by (auto simp: honest_def hash parent hex) (auto simp: mono_def sample_quiet_def sample_head_def sample_chain_def sample_node_def)
  show "quiet sample_quiet" by (simp add: quiet_def sample_quiet_def)
qed

lemma run_loop_catches_up_witness:
  "\<exists>s' m. run_loop sample_geth sample_quiet sample_config 2 sample_start = (Inr (), s') \<and>
     position sample_geth sample_chain (Stream sample_config) m s' \<and> 8 < m"
proof -
  have t: "tick sample_start = 0" by (simp add: sample_start_def sample_def migrated_def)
  have p: "position sample_geth sample_chain (Stream sample_config) 0 sample_start"
    by (simp add: position_def sample_start_def)
  have i: "int64_fields sample_config" by code_simp
  show ?thesis
    using run_loop_catches_up [OF sample_honest sample_config_valid i p, of 2]
    by (simp add: t sample_head_def) (simp add: sample_config_def)
qed


end
