(* ===== verification/Decoding.thy ===== *)
theory Decoding
  imports Polling
begin

text \<open>
  The types of what the listener hands to the store: decoded events and redemptions satisfy the
  checks of their tables, so the store refuses them only for balances or repeated identities.
\<close>

section \<open>ABI values\<close>

definition uint256 :: "int option \<Rightarrow> bool" where
  "uint256 v \<longleftrightarrow> (\<forall>n. v = Some n \<longrightarrow> 0 \<le> n \<and> n < 2 ^ 256)"

text \<open>
  What the ABI of the contract and the hexadecimal printers of go-ethereum guarantee: every decoded
  number is a \<open>uint256\<close>, an address prints as 40 and a hash as 64 hexadecimal digits, the hash in lower case.
\<close>

definition abi_sound :: "geth \<Rightarrow> bool" where
  "abi_sound g \<longleftrightarrow>
     (\<forall>name d v. unpack_amount g name d = Inr v \<longrightarrow> uint256 v) \<and>
     (\<forall>d a v. unpack_claim g d = Inr (a, v) \<longrightarrow> uint256 v) \<and>
     (\<forall>d v w. unpack_withdrawal g d = Inr (v, w) \<longrightarrow> uint256 v \<and> uint256 w) \<and>
     (\<forall>d v. unpack_redemption g d = Inr v \<longrightarrow> uint256 (rd_FaceValue v) \<and> uint256 (rd_WinProb v) \<and>
        uint256 (rd_SenderNonce v) \<and> uint256 (rd_RecipientRand v)) \<and>
     (\<forall>a. hex_text 42 (ToLower (address_Hex g a))) \<and> (\<forall>h. hex_text 66 (hash_Hex g h))"

definition wei_text :: "string \<Rightarrow> bool" where
  "wei_text v \<longleftrightarrow> (\<exists>n. v = int_str n \<and> 0 \<le> n \<and> n < 2 ^ 256)"

lemma wei_text_Amount: "0 \<le> n \<Longrightarrow> n < 2 ^ 256 \<Longrightarrow> Amount (int_str n) = Inr n"
proof -
  assume n: "0 \<le> n" "n < 2 ^ 256"
  then have "nat n < 10 ^ 256" by (simp add: nat_less_iff)
  then have "length (nat_str (nat n)) \<le> 256" by (rule length_nat_str_bound) simp
  then show ?thesis using n by (intro Amount_int_str) (simp_all add: int_str_def)
qed

lemma wei_text_canonical: "wei_text v \<Longrightarrow> canonical v"
  by (auto simp: wei_text_def int_str_def)

lemma hash_lower: "abi_sound g \<Longrightarrow> hex_text 66 (ToLower (hash_Hex g h))"
proof -
  assume "abi_sound g"
  then have h: "hex_text 66 (hash_Hex g h)" by (simp add: abi_sound_def)
  have "lower_char c = c" if "is_lower_hex c \<or> c = CHR ''x''" for c
    using that by (auto simp: is_lower_hex_def is_digit_def lower_char_def code_def)
  then have "ToLower (hash_Hex g h) = hash_Hex g h"
    using hex_text_chars [OF h] by (simp add: ToLower_def map_idI)
  then show ?thesis using h by simp
qed

section \<open>Typed events\<close>

definition chain_log :: "string \<Rightarrow> string \<Rightarrow> string \<Rightarrow> string \<Rightarrow> string \<Rightarrow> int \<Rightarrow> int \<Rightarrow> bool" where
  "chain_log chain contract tx block sender index number \<longleftrightarrow> chain_id_text chain \<and> hex_text 42 contract \<and> hex_text 66 tx \<and>
     hex_text 66 block \<and> hex_text 42 sender \<and> 0 \<le> index \<and> 0 \<le> number"

definition typed_event :: "EscrowEvent \<Rightarrow> bool" where
  "typed_event e \<longleftrightarrow>
     chain_log (ee_ChainID e) (ee_Contract e) (ee_TxHash e) (ee_BlockHash e) (ee_Sender e) (ee_LogIndex e) (ee_BlockNumber e) \<and>
     (ee_Recipient e = [] \<or> hex_text 42 (ee_Recipient e)) \<and>
     oneOf (ee_Type e) [DepositFunded, ReserveFunded, ReserveClaimed, Withdrawal, WinningTicketTransfer, WinningTicketRedeemed] \<and>
     wei_text (ee_Amount e) \<and> wei_text (ee_DepositAmount e) \<and> wei_text (ee_ReserveAmount e)"

definition typed_settlement :: "EscrowEvent \<Rightarrow> Settlement \<Rightarrow> bool" where
  "typed_settlement e st \<longleftrightarrow>
     se_ChainID st = ee_ChainID e \<and> se_Contract st = ee_Contract e \<and> se_TxHash st = ee_TxHash e \<and> se_BlockHash st = ee_BlockHash e \<and>
     se_Sender st = ee_Sender e \<and> se_Recipient st = ee_Recipient e \<and> se_LogIndex st = ee_LogIndex e \<and>
     se_BlockNumber st = ee_BlockNumber e \<and> se_Timestamp st = ee_Timestamp e \<and> se_FaceValue st = ee_Amount e \<and>
     hex_text 42 (ee_Recipient e) \<and> wei_text (se_WinProb st) \<and> wei_text (se_Nonce st) \<and> wei_text (se_Rand st) \<and>
     hex_text 66 (se_PMSessionID st) \<and> aux_text (se_AuxData st)"

definition redemption_typed :: "EscrowEvent \<Rightarrow> bool" where
  "redemption_typed e \<longleftrightarrow> (case ee_Settlement e of None \<Rightarrow> ee_Type e \<noteq> WinningTicketRedeemed
     | Some st \<Rightarrow> ee_Type e = WinningTicketRedeemed \<and> typed_settlement e st)"

lemma hex_digit_lower: "n < 16 \<Longrightarrow> is_lower_hex (hex_digit n)"
  by (auto simp: hex_digit_def is_lower_hex_def is_digit_def code_def)

lemma aux_text_encode: "aux_text (''0x'' @ hex_encode b)"
proof -
  have "even (length (hex_encode b)) \<and> (\<forall>c \<in> set (hex_encode b). is_lower_hex c)"
  proof (induction b)
    case (Cons c b)
    have "code c div 16 < 16" using code_less [of c] by simp
    then show ?case using Cons hex_digit_lower by (auto simp: hex_encode_def)
  qed (simp add: hex_encode_def)
  then show ?thesis by (simp add: aux_text_def)
qed

text \<open>The log that passed the bounds of \<open>decode_log\<close>, under a resolved chain id.\<close>

definition log_ok :: "string \<Rightarrow> Log \<Rightarrow> bool" where
  "log_ok chain l \<longleftrightarrow> chain_id_text chain \<and> int (l_BlockNumber l) \<le> MaxInt64 \<and> int (l_Index l) \<le> MaxInt64"

lemma zero_wei: "wei_text ''0''"
  unfolding wei_text_def by (intro exI [of _ 0]) (simp, code_simp)

lemma eventBase_fields:
  assumes "abi_sound g" "log_ok chain l"
    and "oneOf kind [DepositFunded, ReserveFunded, ReserveClaimed, Withdrawal, WinningTicketTransfer, WinningTicketRedeemed]"
  shows "typed_event (eventBase g l chain kind t)" "ee_Settlement (eventBase g l chain kind t) = None"
    "ee_Type (eventBase g l chain kind t) = kind"
  using assms hash_lower [OF assms(1)] zero_wei
  by (auto simp: typed_event_def eventBase_def chain_log_def abi_sound_def log_ok_def is_i64_def i64_id)


section \<open>Decoding\<close>

lemma wei_int_str: "uint256 (Some n) \<Longrightarrow> wei_text (int_str n)"
  by (auto simp: wei_text_def uint256_def)

lemma kinds: "oneOf DepositFunded [DepositFunded, ReserveFunded, ReserveClaimed, Withdrawal, WinningTicketTransfer, WinningTicketRedeemed]"
  "oneOf ReserveFunded [DepositFunded, ReserveFunded, ReserveClaimed, Withdrawal, WinningTicketTransfer, WinningTicketRedeemed]"
  "oneOf ReserveClaimed [DepositFunded, ReserveFunded, ReserveClaimed, Withdrawal, WinningTicketTransfer, WinningTicketRedeemed]"
  "oneOf Withdrawal [DepositFunded, ReserveFunded, ReserveClaimed, Withdrawal, WinningTicketTransfer, WinningTicketRedeemed]"
  "oneOf WinningTicketTransfer [DepositFunded, ReserveFunded, ReserveClaimed, Withdrawal, WinningTicketTransfer, WinningTicketRedeemed]"
  "oneOf WinningTicketRedeemed [DepositFunded, ReserveFunded, ReserveClaimed, Withdrawal, WinningTicketTransfer, WinningTicketRedeemed]"
  by (simp_all add: oneOf_def)

lemma other_kinds: "DepositFunded \<noteq> WinningTicketRedeemed" "ReserveFunded \<noteq> WinningTicketRedeemed" "Withdrawal \<noteq> WinningTicketRedeemed"
  by (simp_all add: event_types)

definition decoded :: "EscrowEvent \<Rightarrow> bool" where
  "decoded e \<longleftrightarrow> typed_event e \<and> redemption_typed e"

lemma Decode_typed:
  assumes "abi_sound g" "log_ok chain l" "Decode g l chain t = Inr e"
  shows "decoded e"
proof -
  note base = eventBase_fields [OF assms(1,2)]
  have base_typed: "\<And>k. oneOf k [DepositFunded, ReserveFunded, ReserveClaimed, Withdrawal, WinningTicketTransfer, WinningTicketRedeemed] \<Longrightarrow>
      typed_event (eventBase g l chain k t)" by (rule base(1))
  have addr: "hex_text 42 (ToLower (address_Hex g a))" for a using assms(1) by (simp add: abi_sound_def)
  have topic: "hex_text 42 (topic_address g l i)" for i by (simp add: topic_address_def addr)
  have pm: "hex_text 66 (hash_Hex g h)" for h using assms(1) by (simp add: abi_sound_def)
  have funding: "decode_funding g l chain t = Inr e \<Longrightarrow> decoded e"
  proof -
    assume d: "decode_funding g l chain t = Inr e"
    then obtain k n name where k: "k = DepositFunded \<or> k = ReserveFunded" and n: "unpack_amount g name (l_Data l) = Inr (Some n)"
      and e: "e = (eventBase g l chain k t)\<lparr>ee_Amount := int_str n\<rparr>"
      by (auto simp: decode_funding_def Let_def split: if_splits sum.splits option.splits)
    have "uint256 (Some n)" using assms(1) n unfolding abi_sound_def by blast
    moreover have "typed_event (eventBase g l chain k t)" using k kinds base_typed by blast
    moreover have "ee_Type e = k" "ee_Settlement e = None" by (simp_all add: e eventBase_def)
    ultimately show "decoded e" using k other_kinds wei_int_str
      by (auto simp: decoded_def typed_event_def redemption_typed_def e)
  qed
  have claim: "decode_claim g l chain t = Inr e \<Longrightarrow> decoded e"
  proof -
    assume d: "decode_claim g l chain t = Inr e"
    then obtain a n where n: "unpack_claim g (l_Data l) = Inr (a, Some n)"
      and e: "e = (eventBase g l chain ReserveClaimed t)\<lparr>ee_Recipient := ToLower (address_Hex g a), ee_Amount := int_str n\<rparr>"
      by (auto simp: decode_claim_def split: if_splits sum.splits option.splits)
    have "uint256 (Some n)" using assms(1) n unfolding abi_sound_def by blast
    moreover have "typed_event (eventBase g l chain ReserveClaimed t)" using kinds base_typed by blast
    moreover have "ee_Type e = ReserveClaimed" "ee_Settlement e = None" by (simp_all add: e eventBase_def)
    ultimately show "decoded e" using wei_int_str addr
      by (auto simp: decoded_def typed_event_def redemption_typed_def e)
  qed
  have withdrawal: "decode_withdrawal g l chain t = Inr e \<Longrightarrow> decoded e"
  proof -
    assume d: "decode_withdrawal g l chain t = Inr e"
    then obtain n m where n: "unpack_withdrawal g (l_Data l) = Inr (Some n, Some m)"
      and e: "e = (eventBase g l chain Withdrawal t)\<lparr>ee_DepositAmount := int_str n, ee_ReserveAmount := int_str m\<rparr>"
      by (auto simp: decode_withdrawal_def split: if_splits sum.splits option.splits)
    have "uint256 (Some n) \<and> uint256 (Some m)" using assms(1) n unfolding abi_sound_def by blast
    moreover have "typed_event (eventBase g l chain Withdrawal t)" using kinds base_typed by blast
    moreover have "ee_Type e = Withdrawal" "ee_Settlement e = None" by (simp_all add: e eventBase_def)
    ultimately show "decoded e" using wei_int_str other_kinds
      by (auto simp: decoded_def typed_event_def redemption_typed_def e)
  qed
  have transfer: "decode_transfer g l chain t = Inr e \<Longrightarrow> decoded e"
  proof -
    assume d: "decode_transfer g l chain t = Inr e"
    then obtain n where n: "unpack_amount g ''WinningTicketTransfer'' (l_Data l) = Inr (Some n)"
      and e: "e = (eventBase g l chain WinningTicketTransfer t)\<lparr>ee_Recipient := topic_address g l 2, ee_Amount := int_str n\<rparr>"
      by (auto simp: decode_transfer_def split: if_splits sum.splits option.splits)
    have "uint256 (Some n)" using assms(1) n unfolding abi_sound_def by blast
    moreover have "typed_event (eventBase g l chain WinningTicketTransfer t)" using kinds base_typed by blast
    moreover have "ee_Type e = WinningTicketTransfer" "ee_Settlement e = None" by (simp_all add: e eventBase_def)
    ultimately show "decoded e" using wei_int_str topic
      by (auto simp: decoded_def typed_event_def redemption_typed_def e)
  qed
  have redemption: "decode_redemption g l chain t = Inr e \<Longrightarrow> decoded e"
  proof -
    assume d: "decode_redemption g l chain t = Inr e"
    then obtain v f w n r where v: "unpack_redemption g (l_Data l) = Inr v" "rd_FaceValue v = Some f" "rd_WinProb v = Some w"
      "rd_SenderNonce v = Some n" "rd_RecipientRand v = Some r"
      and e: "e = (let b = (eventBase g l chain WinningTicketRedeemed t)\<lparr>ee_Recipient := topic_address g l 2, ee_Amount := int_str f\<rparr>
        in b\<lparr>ee_Settlement := Some (redeemed_settlement g b f w n r (rd_AuxData v))\<rparr>)"
      by (auto simp: decode_redemption_def Let_def split: if_splits sum.splits option.splits)
    have u: "uint256 (Some f)" "uint256 (Some w)" "uint256 (Some n)" "uint256 (Some r)"
      using assms(1) v unfolding abi_sound_def by metis+
    have b: "typed_event (eventBase g l chain WinningTicketRedeemed t)" using kinds base_typed by blast
    have ty: "ee_Type e = WinningTicketRedeemed" by (simp add: e eventBase_def Let_def)
    have "typed_event e" using b wei_int_str [OF u(1)] topic by (auto simp: typed_event_def e Let_def)
    moreover have "redemption_typed e"
      using topic pm wei_int_str [OF u(2)] wei_int_str [OF u(3)] wei_int_str [OF u(4)] aux_text_encode ty
      by (auto simp: redemption_typed_def typed_settlement_def redeemed_settlement_def e Let_def)
    ultimately show "decoded e" by (simp add: decoded_def)
  qed
  show ?thesis
    using assms(3) funding claim withdrawal transfer redemption by (simp add: Decode_def Let_def split: if_splits)
qed


section \<open>Paid redemptions\<close>

definition paid_split :: "EscrowEvent \<Rightarrow> bool" where
  "paid_split e \<longleftrightarrow> (\<forall>st. ee_Settlement e = Some st \<longrightarrow> (\<exists>face deposit reserve. 0 \<le> deposit \<and> 0 \<le> reserve \<and>
     deposit + reserve \<le> face \<and> face < 2 ^ 256 \<and> se_FaceValue st = int_str face \<and> se_PaidAmount st = int_str (deposit + reserve) \<and>
     se_DepositPaid st = int_str deposit \<and> se_ReservePaid st = int_str reserve))"

lemma wei_text_SetString: "wei_text v \<Longrightarrow> SetString v = Some n \<Longrightarrow> v = int_str n \<and> 0 \<le> n \<and> n < 2 ^ 256"
  by (auto simp: wei_text_def)

lemma wei_int: "0 \<le> n \<Longrightarrow> n < 2 ^ 256 \<Longrightarrow> wei_text (int_str n)"
  unfolding wei_text_def by blast

lemma with_payment_decoded:
  assumes "decoded e" "ee_Settlement e = Some st" "SetString (se_FaceValue st) = Some face" "0 \<le> reserve" "reserve \<le> paid" "paid \<le> face"
  shows "decoded (with_payment e st paid reserve) \<and> paid_split (with_payment e st paid reserve)"
proof -
  have ty: "typed_event e" "typed_settlement e st" "ee_Type e = WinningTicketRedeemed"
    using assms(1,2) by (auto simp: decoded_def redemption_typed_def)
  have "wei_text (se_FaceValue st)" using ty by (simp add: typed_settlement_def typed_event_def)
  from wei_text_SetString [OF this assms(3)] have face: "se_FaceValue st = int_str face" "face < 2 ^ 256" by auto
  have amounts: "wei_text (int_str (paid - reserve))" "wei_text (int_str reserve)"
    using assms(4-6) face(2) by (intro wei_int; linarith)+
  have "typed_event (with_payment e st paid reserve)" using ty(1) amounts by (simp add: typed_event_def with_payment_def Let_def)
  moreover have "redemption_typed (with_payment e st paid reserve)"
    using ty by (simp add: redemption_typed_def typed_settlement_def with_payment_def Let_def)
  moreover have "paid_split (with_payment e st paid reserve)"
    unfolding paid_split_def with_payment_def Let_def
    using assms(4-6) face by (auto intro!: exI [of _ face] exI [of _ "paid - reserve"] exI [of _ reserve])
  ultimately show ?thesis by (simp add: decoded_def)
qed

lemma unsettled_paid: "decoded e \<Longrightarrow> ee_Type e \<noteq> WinningTicketRedeemed \<Longrightarrow> paid_split e"
  by (auto simp: decoded_def redemption_typed_def paid_split_def split: option.splits)

lemma well_paid_typed:
  "well_paid es out \<Longrightarrow> \<forall>e \<in> set es. decoded e \<Longrightarrow> \<forall>e \<in> set out. decoded e \<and> paid_split e"
proof (induction rule: well_paid.induct)
  case none
  then show ?case by simp
next
  case (other e es out)
  then show ?case using unsettled_paid by (auto simp: other_event_def)
next
  case (unpaid r st face es out)
  then show ?case using with_payment_decoded [of r st face 0 0] by auto
next
  case (deposit t r st face paid es out)
  then show ?case using with_payment_decoded [of r st face 0 paid] unsettled_paid [of t] by auto
next
  case (reserve c t r st face paid rv es out)
  have d: "decoded c" "decoded t" "decoded r" "\<forall>e \<in> set out. decoded e \<and> paid_split e"
    using reserve.prems reserve.IH by simp_all
  have "wei_text (ee_Amount c)" using d(1) by (simp add: decoded_def typed_event_def)
  then have "0 \<le> rv" using wei_text_SetString reserve.hyps(9) by blast
  then have "decoded (with_payment r st paid rv) \<and> paid_split (with_payment r st paid rv)"
    using with_payment_decoded [OF d(3) reserve.hyps(6,7)] reserve.hyps(10,11) by blast
  moreover have "paid_split c" "paid_split t" using unsettled_paid d(1,2) reserve.hyps(1,2) by simp_all
  ultimately show ?case using d by simp
qed

lemma decode_logs_typed:
  "abi_sound g \<Longrightarrow> chain_id_text (cfg_ChainID c) \<Longrightarrow> decode_logs g c next hs ls = Inr es \<Longrightarrow> \<forall>e \<in> set es. decoded e"
proof (induction ls arbitrary: es)
  case (Cons l ls)
  then obtain e es1 where e: "decode_log g c next hs l = Inr e" and r: "decode_logs g c next hs ls = Inr es1" "es = e # es1"
    by (auto split: sum.splits)
  from e obtain t where "log_ok (cfg_ChainID c) l" "Decode g l (cfg_ChainID c) t = Inr e"
    using Cons(3) by (auto simp: decode_log_def log_ok_def not_less split: if_splits option.splits)
  then have "decoded e" using Decode_typed [OF Cons(2)] by blast
  then show ?case using Cons(1) [OF Cons(2,3) r(1)] r(2) by simp
qed simp

text \<open>
  C25: every event of an accepted batch satisfies the checks of its table, and a redemption carries a
  settlement with the same identity that satisfies those of \<open>settlements\<close>, whose amounts parse and
  split the payment within the face value: unless its identity or the identifier is taken, the
  store's inserts succeed.
\<close>

theorem decode_batch_typed:
  assumes "abi_sound g" "Validate c = Inr ()" "cfg_ChainID c \<noteq> []" "decode_batch g c next hs logs = Inr events" "e \<in> set events"
  shows "(\<forall>i now s. find_broker_event e s = None \<and> i \<notin> be_id ` set (ticket_broker_events s) \<longrightarrow>
      fst (insert_broker_event (new_broker_event i now e) s) = Inr ()) \<and>
    (case ee_Settlement e of None \<Rightarrow> ee_Type e \<noteq> WinningTicketRedeemed
     | Some st \<Rightarrow> ee_Type e = WinningTicketRedeemed \<and>
        (se_ChainID st, se_Contract st, se_BlockHash st, se_TxHash st, se_LogIndex st) =
          (ee_ChainID e, ee_Contract e, ee_BlockHash e, ee_TxHash e, ee_LogIndex e) \<and>
        (\<exists>face deposit reserve. Amount (se_FaceValue st) = Inr face \<and> Amount (se_DepositPaid st) = Inr deposit \<and>
           Amount (se_ReservePaid st) = Inr reserve \<and> Amount (se_PaidAmount st) = Inr (deposit + reserve) \<and> deposit + reserve \<le> face) \<and>
        (\<forall>i now s. find_settlement st s = None \<and> i \<notin> st_id ` set (settlements s) \<longrightarrow>
           fst (insert_settlement (new_settlement i now st) s) = Inr ()))"
proof -
  obtain n where n: "Amount (cfg_ChainID c) = Inr n" "0 < n" using assms(2,3) by (auto simp: Validate_Inr)
  then have chain: "chain_id_text (cfg_ChainID c)"
    by (auto simp: chain_id_text_def Amount_Inr dest: canonical_hd)
  from assms(4) obtain ls es where "decode_logs g c next hs ls = Inr es" "correlateRedemptions es = Inr events"
    by (auto simp: decode_batch_def split: sum.splits)
  then have all: "\<forall>e \<in> set es. decoded e" "well_paid es events"
    using decode_logs_typed [OF assms(1) chain] correlate_well_paid by (auto simp: correlateRedemptions_def)
  have e: "typed_event e" "redemption_typed e" "paid_split e"
    using well_paid_typed [OF all(2,1)] assms(5) by (auto simp: decoded_def)
  have "fst (insert_broker_event (new_broker_event i now e) s) = Inr ()"
    if "find_broker_event e s = None" "i \<notin> be_id ` set (ticket_broker_events s)" for i now s
    using that e(1)
    by (auto simp: insert_broker_event_def sql_write_def find_broker_event_def find_row_None typed_event_def chain_log_def
        wei_text_canonical optional_address_def new_broker_event_def event_identity_def)
  moreover have "ee_Settlement e = None \<Longrightarrow> ee_Type e \<noteq> WinningTicketRedeemed"
    using e(2) by (simp add: redemption_typed_def)
  moreover have "ee_Type e = WinningTicketRedeemed \<and>
        (se_ChainID st, se_Contract st, se_BlockHash st, se_TxHash st, se_LogIndex st) =
          (ee_ChainID e, ee_Contract e, ee_BlockHash e, ee_TxHash e, ee_LogIndex e) \<and>
        (\<exists>face deposit reserve. Amount (se_FaceValue st) = Inr face \<and> Amount (se_DepositPaid st) = Inr deposit \<and>
           Amount (se_ReservePaid st) = Inr reserve \<and> Amount (se_PaidAmount st) = Inr (deposit + reserve) \<and> deposit + reserve \<le> face) \<and>
        (\<forall>i now s. find_settlement st s = None \<and> i \<notin> st_id ` set (settlements s) \<longrightarrow>
           fst (insert_settlement (new_settlement i now st) s) = Inr ())"
    if st: "ee_Settlement e = Some st" for st
  proof (intro conjI allI impI)
    have ts: "ee_Type e = WinningTicketRedeemed" "typed_settlement e st" using e(2) st by (simp_all add: redemption_typed_def)
    then show "ee_Type e = WinningTicketRedeemed"
      "(se_ChainID st, se_Contract st, se_BlockHash st, se_TxHash st, se_LogIndex st) =
        (ee_ChainID e, ee_Contract e, ee_BlockHash e, ee_TxHash e, ee_LogIndex e)" by (simp_all add: typed_settlement_def)
    obtain face deposit reserve where sp: "0 \<le> deposit" "0 \<le> reserve" "deposit + reserve \<le> face" "face < 2 ^ 256"
      "se_FaceValue st = int_str face" "se_PaidAmount st = int_str (deposit + reserve)"
      "se_DepositPaid st = int_str deposit" "se_ReservePaid st = int_str reserve"
      using e(3) st unfolding paid_split_def by blast
    have am: "Amount (int_str face) = Inr face" "Amount (int_str deposit) = Inr deposit" "Amount (int_str reserve) = Inr reserve"
      "Amount (int_str (deposit + reserve)) = Inr (deposit + reserve)"
      using sp(1-4) by (intro wei_text_Amount; linarith)+
    show "\<exists>face deposit reserve. Amount (se_FaceValue st) = Inr face \<and> Amount (se_DepositPaid st) = Inr deposit \<and>
           Amount (se_ReservePaid st) = Inr reserve \<and> Amount (se_PaidAmount st) = Inr (deposit + reserve) \<and> deposit + reserve \<le> face"
      unfolding sp(5-8) using am sp(3) by blast
    fix i now s assume fresh: "find_settlement st s = None \<and> i \<notin> st_id ` set (settlements s)"
    have canon: "canonical (se_FaceValue st)" "canonical (se_PaidAmount st)" "canonical (se_DepositPaid st)" "canonical (se_ReservePaid st)"
      unfolding sp(5-8) using am by (simp_all add: Amount_Inr)
    show "fst (insert_settlement (new_settlement i now st) s) = Inr ()"
      using fresh canon ts(2) e(1)
      by (auto simp: insert_settlement_def sql_write_def find_settlement_def find_row_None typed_event_def chain_log_def
          typed_settlement_def wei_text_canonical new_settlement_def settlement_identity_def)
  qed
  ultimately show ?thesis by (auto split: option.split)
qed


lemma sample_abi: "abi_sound (sample_geth\<lparr>address_Hex := (\<lambda>a. sample_contract), hash_Hex := (\<lambda>h. sample_hash (CHR ''3'')),
    unpack_amount := (\<lambda>name d. Inr (Some 40)), unpack_claim := (\<lambda>d. Inr (d, None)), unpack_withdrawal := (\<lambda>d. Inr (None, None))\<rparr>)"
proof -
  have "hex_text 42 (ToLower sample_contract)" "hex_text 66 (sample_hash (CHR ''3''))" by code_simp+
  then show ?thesis by (simp add: abi_sound_def sample_geth_def uint256_def)
qed

lemma decode_batch_typed_witness:
  "\<exists>e. decode_batch (sample_geth\<lparr>address_Hex := (\<lambda>a. sample_contract), hash_Hex := (\<lambda>h. sample_hash (CHR ''3'')),
      unpack_amount := (\<lambda>name d. Inr (Some 40)), unpack_claim := (\<lambda>d. Inr (d, None)), unpack_withdrawal := (\<lambda>d. Inr (None, None))\<rparr>)
      sample_config 3 [sample_chain 3] [sample_deposit] = Inr [e] \<and>
    fst (insert_broker_event (new_broker_event ''i'' 0 e) sample) = Inr ()"
proof -
  let ?g = "sample_geth\<lparr>address_Hex := (\<lambda>a. sample_contract), hash_Hex := (\<lambda>h. sample_hash (CHR ''3'')),
      unpack_amount := (\<lambda>name d. Inr (Some 40)), unpack_claim := (\<lambda>d. Inr (d, None)), unpack_withdrawal := (\<lambda>d. Inr (None, None))\<rparr>"
  let ?d = "decode_batch ?g sample_config 3 [sample_chain 3] [sample_deposit]"
  have "(case ?d of Inl e \<Rightarrow> False | Inr es \<Rightarrow> length es = 1)" by code_simp
  then obtain e where e: "?d = Inr [e]" by (auto simp: length_Suc_conv split: sum.splits)
  have "cfg_ChainID sample_config \<noteq> []" by (simp add: sample_config_def)
  moreover have "find_broker_event e sample = None" "''i'' \<notin> be_id ` set (ticket_broker_events sample)"
    by (simp_all add: find_broker_event_def find_row_def sample_def migrated_def)
  ultimately show ?thesis using decode_batch_typed [OF sample_abi sample_config_valid _ e] e by auto
qed

end
