(* ===== verification/Idempotency.thy ===== *)
theory Idempotency
  imports Funds "HOL-Library.List_Lexorder" "HOL-Library.Char_ord"
begin

text \<open>
  \<open>internal/store/idempotency.go\<close>: a management request that carries an idempotency key runs its
  mutation once per grant and key; the stored response is replayed to every later request with the
  same fingerprint.  The mutation is a transaction that must leave the stored responses and the
  grant of each allocation alone, which is the locale \<open>mutation\<close>; the four operations interpret it.
\<close>

section \<open>Definitions\<close>

record Idempotency =
  Key :: string
  Fingerprint :: string

record ManagementResponse =
  Status :: int
  Body :: string

definition key_char :: "char \<Rightarrow> bool" where
  "key_char c \<longleftrightarrow> 65 \<le> code c \<and> code c \<le> 90 \<or> 97 \<le> code c \<and> code c \<le> 122 \<or> is_digit c \<or>
     c = CHR ''_'' \<or> c = CHR ''-'' \<or> c = CHR ''=''"

definition ValidateIdempotencyKey :: "string \<Rightarrow> unit result" where
  "ValidateIdempotencyKey key =
     (if length key = 0 \<or> 256 < length key \<or> \<not> (\<forall>c \<in> set key. key_char c)
      then Inl (InvalidInput (''Idempotency-Key must be 1-256 characters using only A-Z, a-z, 0-9, '' @
        [CHR 0x27, CHR ''_'', CHR 0x27] @ '', '' @ [CHR 0x27, CHR ''-'', CHR 0x27] @ '' or '' @
        [CHR 0x27, CHR ''='', CHR 0x27]))
      else Inr ())"

text \<open>
  \<open>json.Marshal\<close> of a \<open>map[string]string\<close>: the members sorted by key, strings quoted with the
  escapes of \<open>encoding/json\<close> for ASCII.  The values are base64url identifiers and API keys, and
  identifiers of rows, which are base64url as well.
\<close>

definition json_char :: "char \<Rightarrow> string" where
  "json_char c =
     (if c = CHR 0x22 then [CHR 0x5C, CHR 0x22]
      else if c = CHR 0x5C then [CHR 0x5C, CHR 0x5C]
      else if c = CHR 0x08 then [CHR 0x5C, CHR ''b'']
      else if c = CHR 0x0C then [CHR 0x5C, CHR ''f'']
      else if c = CHR 0x0A then [CHR 0x5C, CHR ''n'']
      else if c = CHR 0x0D then [CHR 0x5C, CHR ''r'']
      else if c = CHR 0x09 then [CHR 0x5C, CHR ''t'']
      else if code c < 32 \<or> c = CHR ''<'' \<or> c = CHR ''>'' \<or> c = CHR ''&''
        then [CHR 0x5C] @ ''u00'' @ [hex_digit (code c div 16), hex_digit (code c mod 16)]
      else [c])"

definition json_string :: "string \<Rightarrow> string" where
  "json_string s = [CHR 0x22] @ concat (map json_char s) @ [CHR 0x22]"

fun json_members :: "(string \<times> string) list \<Rightarrow> string" where
  "json_members [] = []"
| "json_members [(k, v)] = json_string k @ '':'' @ json_string v"
| "json_members ((k, v) # kvs) = json_string k @ '':'' @ json_string v @ '','' @ json_members kvs"

definition json_object :: "(string \<times> string) list \<Rightarrow> string" where
  "json_object kvs = ''{'' @ json_members (sort_key fst kvs) @ ''}''"

definition insert_idempotency :: "string \<Rightarrow> string \<Rightarrow> idempotency_row \<Rightarrow> (world, unit) tx" where
  "insert_idempotency grant key r = sql_write ''management_idempotency''
     (\<lambda>s. grant \<in> g_id ` set (grants s) \<and> 1 \<le> length key \<and> length key \<le> 256 \<and> length (ir_fingerprint r) = 32 \<and>
          200 \<le> ir_status r \<and> ir_status r \<le> 299 \<and> (grant, key) \<notin> fst ` set (management_idempotency s))
     (\<lambda>s. s\<lparr>management_idempotency := management_idempotency s @ [((grant, key), r)]\<rparr>)"

definition find_response :: "string \<Rightarrow> Idempotency \<Rightarrow> world \<Rightarrow> idempotency_row option" where
  "find_response grant request s =
     (if Key request = [] then None else map_of (management_idempotency s) (grant, Key request))"

definition scope_grant :: "string \<Rightarrow> string \<Rightarrow> Idempotency \<Rightarrow> (world, string) tx" where
  "scope_grant scopeKind scopeID request =
     (if Key request \<noteq> [] \<and> scopeKind = ''allocation''
      then select_row (\<lambda>s. map_option a_grant (find_allocation scopeID s)) else ret scopeID)"

definition stored_response :: "int \<Rightarrow> Idempotency \<Rightarrow> string \<Rightarrow> int \<Rightarrow> idempotency_row" where
  "stored_response status request body now =
     \<lparr>ir_fingerprint = Fingerprint request, ir_status = status, ir_json = body, ir_created = now\<rparr>"

definition execute ::
  "string \<Rightarrow> int \<Rightarrow> Idempotency \<Rightarrow> (world, (string \<times> string) list) tx \<Rightarrow> (world, ManagementResponse) tx" where
  "execute grant status request mutate =
     bindE mutate (\<lambda>result.
       let body = json_object result @ [CHR 0x0A] in
       if Key request = [] then ret \<lparr>Status = status, Body = body\<rparr>
       else bindE NowMs (\<lambda>now.
         thenE (insert_idempotency grant (Key request) (stored_response status request body now))
           (ret \<lparr>Status = status, Body = body\<rparr>)))"

definition replay :: "Idempotency \<Rightarrow> idempotency_row \<Rightarrow> (world, ManagementResponse) tx" where
  "replay request r =
     (if ir_fingerprint r \<noteq> Fingerprint request
      then fail (StateConflict ''idempotency key was already used with different parameters or operation'')
      else ret \<lparr>Status = ir_status r, Body = ir_json r\<rparr>)"

definition writeIdempotent ::
  "string \<Rightarrow> string \<Rightarrow> int \<Rightarrow> Idempotency \<Rightarrow> (world, (string \<times> string) list) tx \<Rightarrow> (world, ManagementResponse) tx" where
  "writeIdempotent scopeKind scopeID status request mutate =
     bindE (liftE (if Key request \<noteq> [] then ValidateIdempotencyKey (Key request) else Inr ())) (\<lambda>_.
       Write (bindE (scope_grant scopeKind scopeID request) (\<lambda>grant.
         bindE (gets (find_response grant request)) (\<lambda>row. case row of
             Some r \<Rightarrow> replay request r
           | None \<Rightarrow> execute grant status request mutate))))"

definition CreateAllocationIdempotent :: "Create \<Rightarrow> Idempotency \<Rightarrow> (world, ManagementResponse) tx" where
  "CreateAllocationIdempotent p request =
     bindE (liftE (prepareCreate p)) (\<lambda>_.
       writeIdempotent ''grant'' (c_GrantID p) 201 request
         (bindE (createAllocation p) (\<lambda>i. ret [(''id'', i)])))"

definition FundCurrencyIdempotent ::
  "string \<Rightarrow> string \<Rightarrow> string \<Rightarrow> string \<Rightarrow> Idempotency \<Rightarrow> (world, ManagementResponse) tx" where
  "FundCurrencyIdempotent kind i value currency request =
     (if \<not> oneOf kind [''grant'', ''allocation''] then fail (PlainError ''unknown resource'')
      else writeIdempotent kind i 200 request
        (thenE (fundCurrency kind i value currency) (ret [(''id'', i)])))"

definition CreateKeyIdempotent :: "string \<Rightarrow> string \<Rightarrow> Idempotency \<Rightarrow> (world, ManagementResponse) tx" where
  "CreateKeyIdempotent allocation name request =
     (if blank name then fail (InvalidInput ''name is required'')
      else writeIdempotent ''allocation'' allocation 201 request
        (bindE (createKey allocation name) (\<lambda>(i, key).
           ret [(''allocation_id'', allocation), (''id'', i), (''api_key'', key)])))"

definition CreateKeyForGrantCurrencyIdempotent ::
  "string \<Rightarrow> string \<Rightarrow> string \<Rightarrow> string \<Rightarrow> Idempotency \<Rightarrow> (world, ManagementResponse) tx" where
  "CreateKeyForGrantCurrencyIdempotent grant name amount currency request =
     (let p = key_request grant name amount currency in
      bindE (liftE (prepareCreate p)) (\<lambda>_.
        writeIdempotent ''grant'' grant 201 request
          (bindE (createKeyForGrant p) (\<lambda>(allocation, i, key).
             ret [(''allocation_id'', allocation), (''id'', i), (''api_key'', key)]))))"

section \<open>The contract of a mutation\<close>

text \<open>\<open>scope_kept s s'\<close>: no stored response changes and every allocation stays with its grant.\<close>

definition scope_kept :: "world \<Rightarrow> world \<Rightarrow> bool" where
  "scope_kept s s' \<longleftrightarrow> management_idempotency s' = management_idempotency s \<and>
     (\<forall>i a. find_allocation i s = Some a \<longrightarrow> (\<exists>a'. find_allocation i s' = Some a' \<and> a_grant a' = a_grant a))"

interpretation scope: preorder_frame scope_kept
  by unfold_locales (fastforce simp: scope_kept_def)+

lemma scope_kept_tables:
  "management_idempotency s' = management_idempotency s \<Longrightarrow> allocations s' = allocations s \<Longrightarrow> scope_kept s s'"
  by (simp add: scope_kept_def find_allocation_def)

lemma scope_kept_frames:
  "scope_kept s (s\<lparr>tick := n\<rparr>)" "scope_kept s (s\<lparr>grants := g\<rparr>)" "scope_kept s (s\<lparr>api_keys := k\<rparr>)"
  "scope_kept s (s\<lparr>allocations := allocations s @ [a]\<rparr>)"
  by (auto simp: scope_kept_def find_allocation_def find_row_append)

lemma scope_kept_allocations:
  "(\<And>a. a_id (f a) = a_id a \<and> a_grant (f a) = a_grant a) \<Longrightarrow> scope_kept s (s\<lparr>allocations := update_rows P f (allocations s)\<rparr>)"
  by (auto simp: scope_kept_def find_allocation_def find_row_update)

lemma nonledger_scope: "nonledger s' = nonledger s \<Longrightarrow> scope_kept s s'"
  by (rule scope_kept_tables) (blast dest: nonledger_fields)+

lemma nonmetric_scope: "nonmetric s' = nonmetric s \<Longrightarrow> scope_kept s s'"
  by (rule nonledger_scope) (blast dest: nonmetric_fields)

lemma within_scope:
  "within scope_kept (changeInventory kind cur old new)"
  "within scope_kept (TransferCurrency key rsn rt ri d di c ci cur n)"
  "within scope_kept (BalanceCurrency acct owner cur)"
  by (blast intro: withinI nonmetric_scope changeInventory_frame)
    (blast intro: withinI nonledger_scope dest: TransferCurrency_basic, auto intro!: withinI simp: BalanceCurrency_Inr scope.R_refl)

lemmas scope_intros = scope.within_intros within_scope within_sql_write within_modify within_ID within_NowMs within_rand_read
  within_select_row scope_kept_frames scope_kept_allocations scope.R_refl

lemma createAllocation_scope: "within scope_kept (createAllocation p)"
  unfolding createAllocation_def insert_allocation_def Let_def by (intro scope_intros)

lemma fundCurrency_scope: "within scope_kept (fundCurrency kind i value currency)"
  unfolding fundCurrency_def fundGrant_def fundAllocation_def update_grant_total_def update_allocation_def Let_def
  by (intro scope_intros) simp_all

lemma createKey_scope: "within scope_kept (createKey allocation name)"
  unfolding createKey_def newKeyRecord_def insertKey_def insert_api_key_def Let_def
  by (intro scope_intros)

text \<open>What \<open>writeIdempotent\<close> needs of the mutation it is given, and what follows for any such mutation.\<close>

locale mutation =
  fixes mutate :: "(world, (string \<times> string) list) tx"
  assumes keeps_scope: "within scope_kept mutate"
begin

lemma execute_stores:
  assumes "execute grant status request mutate s = (Inr resp, s')" "Key request \<noteq> []" "find_response grant request s = None"
  shows "\<exists>r. find_response grant request s' = Some r \<and> ir_fingerprint r = Fingerprint request \<and>
      resp = \<lparr>Status = ir_status r, Body = ir_json r\<rparr>" "\<exists>t. scope_kept s t \<and> allocations s' = allocations t"
proof -
  from assms(1,2) obtain result s1 body now where m: "mutate s = (Inr result, s1)"
    and resp: "resp = \<lparr>Status = status, Body = body\<rparr>"
    and s': "s' = s1\<lparr>tick := Suc (tick s1), management_idempotency := management_idempotency s1 @
        [((grant, Key request), stored_response status request body now)]\<rparr>"
    by (auto simp: execute_def insert_idempotency_def txs Let_def)
  have k: "scope_kept s s1" by (rule withinD [OF keeps_scope m])
  then have "map_of (management_idempotency s1) (grant, Key request) = None"
    using assms(2,3) by (simp add: scope_kept_def find_response_def)
  then have "find_response grant request s' = Some (stored_response status request body now)"
    using assms(2) by (simp add: find_response_def s' map_add_def)
  then show "\<exists>r. find_response grant request s' = Some r \<and> ir_fingerprint r = Fingerprint request \<and>
      resp = \<lparr>Status = ir_status r, Body = ir_json r\<rparr>" by (simp add: stored_response_def resp)
  show "\<exists>t. scope_kept s t \<and> allocations s' = allocations t" using k by (intro exI [of _ s1]) (simp add: s')
qed

lemma replayed:
  assumes "writeIdempotent kind i status request mutate s = (Inr resp, s')" "Key request \<noteq> []"
  shows "writeIdempotent kind i status' request other s' = (Inr resp, s')"
proof -
  from assms obtain grant where v: "ValidateIdempotencyKey (Key request) = Inr ()"
    and g: "scope_grant kind i request s = (Inr grant, s)"
    and r: "(case find_response grant request s of Some r \<Rightarrow> replay request r
        | None \<Rightarrow> execute grant status request mutate) s = (Inr resp, s')"
    by (auto simp: writeIdempotent_def txs scope_grant_def select_row_Inr split: if_splits)
  have ft: "(\<exists>r. find_response grant request s' = Some r \<and> ir_fingerprint r = Fingerprint request \<and>
      resp = \<lparr>Status = ir_status r, Body = ir_json r\<rparr>) \<and> (\<exists>t. scope_kept s t \<and> allocations s' = allocations t)"
  proof (cases "find_response grant request s")
    case None
    then have "execute grant status request mutate s = (Inr resp, s')" using r by simp
    then show ?thesis using execute_stores [OF _ assms(2) None] by blast
  next
    case (Some row)
    then have "s' = s" "ir_fingerprint row = Fingerprint request" "resp = \<lparr>Status = ir_status row, Body = ir_json row\<rparr>"
      using r by (auto simp: replay_def split: if_splits)
    then show ?thesis using Some scope.R_refl by blast
  qed
  have "scope_grant kind i request s' = (Inr grant, s')"
  proof (cases "Key request \<noteq> [] \<and> kind = ''allocation''")
    case True
    then obtain a where a: "find_allocation i s = Some a" "grant = a_grant a"
      using g by (auto simp: scope_grant_def select_row_Inr)
    from ft obtain t where "scope_kept s t" "find_allocation i s' = find_allocation i t"
      by (auto simp: find_allocation_def)
    then obtain a' where "find_allocation i s' = Some a'" "a_grant a' = a_grant a"
      using a unfolding scope_kept_def by metis
    then show ?thesis using True a by (simp add: scope_grant_def select_row_def)
  next
    case False
    then show ?thesis using g by (auto simp: scope_grant_def)
  qed
  then show ?thesis
    using ft v assms(2) by (auto simp: writeIdempotent_def bindE_liftE Write_def replay_def bindE_step)
qed

end

interpretation allocate: mutation "bindE (createAllocation p) (\<lambda>i. ret [(''id'', i)])" for p
  by unfold_locales (intro scope_intros createAllocation_scope)

interpretation fund: mutation "thenE (fundCurrency kind i amount currency) (ret [(''id'', i)])" for kind i amount currency
  by unfold_locales (intro scope_intros fundCurrency_scope)

interpretation key: mutation "bindE (createKey allocation name) (\<lambda>(i, key).
    ret [(''allocation_id'', allocation), (''id'', i), (''api_key'', key)])" for allocation name
  by unfold_locales (intro scope_intros createKey_scope)

interpretation grant_key: mutation "bindE (createKeyForGrant p) (\<lambda>(allocation, i, key).
    ret [(''allocation_id'', allocation), (''id'', i), (''api_key'', key)])" for p
  unfolding createKeyForGrant_def
  by unfold_locales (intro scope_intros createAllocation_scope createKey_scope)

section \<open>Properties\<close>

text \<open>
  C19: a keyed management request is executed once: after it succeeded, the same request returns the
  same response, byte for byte, and changes nothing, for each of the four operations.
\<close>

theorem idempotent_replay:
  assumes "Key request \<noteq> []"
  shows "(CreateAllocationIdempotent p request s = (Inr resp, s') \<longrightarrow>
      CreateAllocationIdempotent p request s' = (Inr resp, s')) \<and>
    (FundCurrencyIdempotent kind i value currency request s = (Inr resp, s') \<longrightarrow>
      FundCurrencyIdempotent kind i value currency request s' = (Inr resp, s')) \<and>
    (CreateKeyIdempotent allocation name request s = (Inr resp, s') \<longrightarrow>
      CreateKeyIdempotent allocation name request s' = (Inr resp, s')) \<and>
    (CreateKeyForGrantCurrencyIdempotent grant name amount currency request s = (Inr resp, s') \<longrightarrow>
      CreateKeyForGrantCurrencyIdempotent grant name amount currency request s' = (Inr resp, s'))"
proof (intro conjI impI)
  assume "CreateAllocationIdempotent p request s = (Inr resp, s')"
  then have "prepareCreate p = Inr ()" and r: "writeIdempotent ''grant'' (c_GrantID p) 201 request
      (bindE (createAllocation p) (\<lambda>i. ret [(''id'', i)])) s = (Inr resp, s')"
    by (simp_all add: CreateAllocationIdempotent_def bindE_liftE split: sum.splits)
  then show "CreateAllocationIdempotent p request s' = (Inr resp, s')"
    using allocate.replayed [OF r assms] by (simp add: CreateAllocationIdempotent_def bindE_liftE)
next
  assume "FundCurrencyIdempotent kind i value currency request s = (Inr resp, s')"
  then have k: "oneOf kind [''grant'', ''allocation'']" and r: "writeIdempotent kind i 200 request
      (thenE (fundCurrency kind i value currency) (ret [(''id'', i)])) s = (Inr resp, s')"
    by (simp_all add: FundCurrencyIdempotent_def split: if_splits)
  show "FundCurrencyIdempotent kind i value currency request s' = (Inr resp, s')"
    using fund.replayed [OF r assms] k by (simp add: FundCurrencyIdempotent_def)
next
  assume "CreateKeyIdempotent allocation name request s = (Inr resp, s')"
  then have k: "\<not> blank name" and r: "writeIdempotent ''allocation'' allocation 201 request
      (bindE (createKey allocation name) (\<lambda>(i, key). ret [(''allocation_id'', allocation), (''id'', i), (''api_key'', key)])) s = (Inr resp, s')"
    by (simp_all add: CreateKeyIdempotent_def split: if_splits)
  show "CreateKeyIdempotent allocation name request s' = (Inr resp, s')"
    using key.replayed [OF r assms] k by (simp add: CreateKeyIdempotent_def)
next
  assume "CreateKeyForGrantCurrencyIdempotent grant name amount currency request s = (Inr resp, s')"
  then have k: "prepareCreate (key_request grant name amount currency) = Inr ()"
    and r: "writeIdempotent ''grant'' grant 201 request (bindE (createKeyForGrant (key_request grant name amount currency))
      (\<lambda>(allocation, i, key). ret [(''allocation_id'', allocation), (''id'', i), (''api_key'', key)])) s = (Inr resp, s')"
    by (simp_all add: CreateKeyForGrantCurrencyIdempotent_def Let_def bindE_liftE split: sum.splits)
  show "CreateKeyForGrantCurrencyIdempotent grant name amount currency request s' = (Inr resp, s')"
    using grant_key.replayed [OF r assms] k by (simp add: CreateKeyForGrantCurrencyIdempotent_def Let_def bindE_liftE)
qed

definition sample_idempotency :: Idempotency where
  "sample_idempotency = \<lparr>Key = ''k-1'', Fingerprint = replicate 32 (CHR ''f'')\<rparr>"

lemma idempotent_replay_witness:
  "\<exists>resp s'. FundCurrencyIdempotent ''grant'' sample_grant_id ''5'' [] sample_idempotency sample_ready = (Inr resp, s') \<and>
    FundCurrencyIdempotent ''grant'' sample_grant_id ''5'' [] sample_idempotency s' = (Inr resp, s')"
proof -
  let ?r = "FundCurrencyIdempotent ''grant'' sample_grant_id ''5'' [] sample_idempotency sample_ready"
  have "case fst ?r of Inl e \<Rightarrow> False | Inr resp \<Rightarrow> Status resp = 200" by code_simp
  then obtain resp where run: "?r = (Inr resp, snd ?r)" by (cases ?r; cases "fst ?r") auto
  have "Key sample_idempotency \<noteq> []" by (simp add: sample_idempotency_def)
  then show ?thesis using idempotent_replay run by blast
qed

text \<open>
  C20: a key that was used with another fingerprint is a conflict: the request fails without running
  its mutation and leaves every table as it was; a key outside the accepted syntax is refused
  before the database is touched.
\<close>

theorem idempotency_conflict:
  assumes "ValidateIdempotencyKey (Key request) = Inr ()" "scope_grant kind i request s = (Inr grant, s)"
    and "map_of (management_idempotency s) (grant, Key request) = Some r" "ir_fingerprint r \<noteq> Fingerprint request"
  shows "writeIdempotent kind i status request mutate s =
    (Inl (StateConflict ''idempotency key was already used with different parameters or operation''), s)"
proof -
  have "Key request \<noteq> []" using assms(1) by (auto simp: ValidateIdempotencyKey_def)
  then show ?thesis
    using assms by (simp add: writeIdempotent_def bindE_liftE Write_def bindE_step find_response_def replay_def rollback_def)
qed

definition sample_answered :: world where
  "sample_answered = sample_ready\<lparr>management_idempotency := [((sample_grant_id, ''k-1''),
     stored_response 200 sample_idempotency ''{}'' 5)]\<rparr>"

lemma idempotency_conflict_witness:
  "writeIdempotent ''grant'' sample_grant_id 200 \<lparr>Key = ''k-1'', Fingerprint = replicate 32 (CHR ''g'')\<rparr> (ret []) sample_answered =
    (Inl (StateConflict ''idempotency key was already used with different parameters or operation''), sample_answered)"
proof -
  let ?q = "\<lparr>Key = ''k-1'', Fingerprint = replicate 32 (CHR ''g'')\<rparr>"
  have v: "ValidateIdempotencyKey (Key ?q) = Inr ()"
    by (simp add: ValidateIdempotencyKey_def key_char_def is_digit_def code_def)
  have g: "scope_grant ''grant'' sample_grant_id ?q sample_answered = (Inr sample_grant_id, sample_answered)"
    by (simp add: scope_grant_def)
  show ?thesis
    by (rule idempotency_conflict [OF v g, of "stored_response 200 sample_idempotency ''{}'' 5"])
      (simp_all add: sample_answered_def stored_response_def sample_idempotency_def)
qed

end
