(* ===== verification/ServiceAuth.thy ===== *)
theory ServiceAuth
  imports GoText
begin

text \<open>
  \<open>internal/serviceauth/registry.go\<close>, \<open>internal/kafka/security.go\<close> and
  \<open>internal/app/kafka_security.go\<close>: the registry of service credentials, the check of an HTTP
  request against it, and the split of the Kafka credentials between the embedded broker and the
  accounting reader.  The configuration library, SASLprep and the SCRAM client are third-party code
  and stand in the record \<open>library\<close>.
\<close>

section \<open>Requests and replies\<close>

text \<open>\<open>net/http\<close> stores header fields under their canonical names.\<close>

record http_request =
  Method :: string
  Route :: string
  PathID :: string
  RawQuery :: string
  Header :: "(string \<times> string list) list"
  RequestBody :: string

definition Values :: "http_request \<Rightarrow> string \<Rightarrow> string list" where
  "Values req key = (case map_of (Header req) key of None \<Rightarrow> [] | Some vs \<Rightarrow> vs)"

text \<open>What a handler may send: the values of the encoder, or bytes as they are.\<close>

datatype json =
    JNull
  | JInt int
  | JString string
  | JArray "json list"
  | JObject "(string \<times> json) list"

datatype content = Bytes string | Encoded json

record reply =
  Code :: int
  ContentType :: string
  Content :: content

definition newline :: string where
  "newline = [CHR 0x0A]"

definition StatusText :: "int \<Rightarrow> string" where
  "StatusText status =
     (if status = 400 then ''Bad Request'' else if status = 401 then ''Unauthorized''
      else if status = 403 then ''Forbidden'' else if status = 503 then ''Service Unavailable'' else [])"

text \<open>\<open>http.Error\<close>.\<close>

definition http_error :: "string \<Rightarrow> int \<Rightarrow> reply" where
  "http_error message status =
     \<lparr>Code = status, ContentType = ''text/plain; charset=utf-8'', Content = Bytes (message @ newline)\<rparr>"

section \<open>The registry\<close>

record kafka_entry =
  ke_Username :: string
  ke_Allow :: "string list"
  ke_Accounting :: bool

record entry =
  en_ID :: string
  en_Secret :: string
  en_Management :: "string list option"
  en_Webhook :: "bool option"
  en_Kafka :: "kafka_entry option"

record principal =
  integration :: string
  allow :: "string list"

record KafkaCredential =
  Username :: string
  Password :: string
  Read :: bool
  CanWrite :: bool
  Accounting :: bool

record Registry =
  principals :: "(string \<times> principal) list"
  kafka :: "KafkaCredential list"
  counts :: "string \<Rightarrow> int"

record 'm library =
  load_config :: "string \<Rightarrow> entry list result"
  validate_entry :: "entry \<Rightarrow> unit result"
  SASLprep :: "string \<Rightarrow> string result"
  Sum256 :: "string \<Rightarrow> string"
  scram_Mechanism :: "string \<Rightarrow> string \<Rightarrow> 'm option"

definition empty_registry :: Registry where
  "empty_registry = \<lparr>principals = [], kafka = [], counts = (\<lambda>_. 0)\<rparr>"

text \<open>An entry's identifier has passed its pattern, so that \<open>%q\<close> only adds the quotes.\<close>

definition quoted :: "string \<Rightarrow> string" where
  "quoted s = [CHR 0x22] @ s @ [CHR 0x22]"

text \<open>A secret that no header value can carry: outer blanks, or control characters other than a tab.\<close>

definition is_blank :: "char \<Rightarrow> bool" where
  "is_blank c \<longleftrightarrow> c = CHR 0x20 \<or> c = CHR 0x09"

definition bad_secret :: "string \<Rightarrow> bool" where
  "bad_secret s \<longleftrightarrow> (s \<noteq> [] \<and> (is_blank (hd s) \<or> is_blank (last s))) \<or>
     (\<exists>c \<in> set s. code c < 32 \<and> c \<noteq> CHR 0x09 \<or> code c = 127)"

definition kafka_credential :: "entry \<Rightarrow> kafka_entry \<Rightarrow> KafkaCredential" where
  "kafka_credential item k =
     \<lparr>Username = ke_Username k, Password = en_Secret item, Read = ''read'' \<in> set (ke_Allow k),
      CanWrite = ''write'' \<in> set (ke_Allow k), Accounting = ke_Accounting k\<rparr>"

text \<open>The Kafka case of the switch: the credential and the normalised user name.\<close>

definition kafka_principal :: "'m library \<Rightarrow> string list \<Rightarrow> entry \<Rightarrow> kafka_entry \<Rightarrow> (KafkaCredential \<times> string) result" where
  "kafka_principal lib usernames item k =
     (let bad = Inl (PlainError (''invalid or duplicate Kafka username for '' @ quoted (en_ID item)));
          credential = kafka_credential item k in
      case SASLprep lib (ke_Username k) of
        Inl e \<Rightarrow> bad
      | Inr username \<Rightarrow>
          if username = [] \<or> username = ''*'' \<or> username \<in> set usernames then bad
          else case SASLprep lib (en_Secret item) of
              Inl e \<Rightarrow> Inl (PlainError (''invalid Kafka secret for '' @ quoted (en_ID item)))
            | Inr _ \<Rightarrow>
                if Accounting credential \<and> \<not> Read credential
                then Inl (PlainError (''kafka accounting credential '' @ quoted (en_ID item) @ '' requires read''))
                else Inr (credential, username))"

definition record_principal :: "string \<Rightarrow> principal \<Rightarrow> Registry \<Rightarrow> Registry" where
  "record_principal h p r = r\<lparr>principals := principals r @ [(h, p)],
     counts := (counts r)(integration p := counts r (integration p) + 1)\<rparr>"

text \<open>One turn of the loop of \<open>add\<close>: the registry and the user names so far.\<close>

definition add_entry ::
  "'m library \<Rightarrow> string list \<Rightarrow> string list \<Rightarrow> entry \<Rightarrow> Registry \<Rightarrow> (string list \<times> Registry) result" where
  "add_entry lib ids usernames item r =
     (case validate_entry lib item of
        Inl e \<Rightarrow> Inl e
      | Inr _ \<Rightarrow>
          if en_Kafka item = None \<and> bad_secret (en_Secret item) then Inl (PlainError ''invalid auth credential secret'')
          else if en_ID item \<in> set ids then Inl (PlainError (''duplicate auth credential id '' @ quoted (en_ID item)))
          else let h = Sum256 lib (en_Secret item) in
            if map_of (principals r) h \<noteq> None then Inl (PlainError ''duplicate auth credential secret'')
            else case (en_Management item, en_Webhook item, en_Kafka item) of
                (Some actions, None, None) \<Rightarrow>
                  Inr (usernames, record_principal h \<lparr>integration = ''management'', allow = actions\<rparr> r)
              | (None, Some _, None) \<Rightarrow>
                  Inr (usernames, record_principal h \<lparr>integration = ''webhook'', allow = [''authorize'']\<rparr> r)
              | (None, None, Some k) \<Rightarrow>
                  map_sum id (\<lambda>(credential, username).
                    (username # usernames, record_principal h \<lparr>integration = ''kafka'', allow = ke_Allow k\<rparr>
                       (r\<lparr>kafka := kafka r @ [credential]\<rparr>))) (kafka_principal lib usernames item k)
              | _ \<Rightarrow> Inl (PlainError (''auth credential '' @ quoted (en_ID item) @ '' must configure exactly one integration'')))"

fun add :: "'m library \<Rightarrow> string list \<Rightarrow> string list \<Rightarrow> entry list \<Rightarrow> Registry \<Rightarrow> Registry result" where
  "add lib ids usernames [] r = Inr r"
| "add lib ids usernames (item # entries) r = (case add_entry lib ids usernames item r of
     Inl e \<Rightarrow> Inl e
   | Inr (usernames', r') \<Rightarrow> add lib (en_ID item # ids) usernames' entries r')"

definition Load :: "'m library \<Rightarrow> string \<Rightarrow> Registry result" where
  "Load lib path = (case load_config lib path of
     Inl e \<Rightarrow> Inl e | Inr entries \<Rightarrow> add lib [] [] entries empty_registry)"

text \<open>A missing registry is the nil pointer.\<close>

definition Count :: "Registry option \<Rightarrow> string \<Rightarrow> int" where
  "Count r i = (case r of None \<Rightarrow> 0 | Some r \<Rightarrow> counts r i)"

definition KafkaCredentials :: "Registry option \<Rightarrow> KafkaCredential list" where
  "KafkaCredentials r = (case r of None \<Rightarrow> [] | Some r \<Rightarrow> kafka r)"

section \<open>The check of a request\<close>

definition token_header :: string where
  "token_header = ''Livepeer-Clearinghouse-Token''"

text \<open>A permission is allowed as such or by the wildcard of its resource.\<close>

definition permitted :: "string list \<Rightarrow> string \<Rightarrow> bool" where
  "permitted actions permission =
     (let (resource, _, hasResource) = Cut permission ''.'' in
      permission \<in> set actions \<or> (hasResource \<and> resource @ ''.*'' \<in> set actions))"

definition Check :: "'m library \<Rightarrow> Registry option \<Rightarrow> http_request \<Rightarrow> string \<Rightarrow> string list \<Rightarrow> int" where
  "Check lib r req i permissions = (case r of
     None \<Rightarrow> 401
   | Some r \<Rightarrow> (case Values req token_header of
       [token] \<Rightarrow> (case map_of (principals r) (Sum256 lib token) of
           None \<Rightarrow> 401
         | Some p \<Rightarrow> if integration p \<noteq> i then 401
             else if \<forall>permission \<in> set permissions. permitted (allow p) permission then 200 else 403)
     | _ \<Rightarrow> 401))"

text \<open>\<open>None\<close> when the request may go on, the refusal otherwise.\<close>

definition Require :: "'m library \<Rightarrow> Registry option \<Rightarrow> http_request \<Rightarrow> string \<Rightarrow> string list \<Rightarrow> reply option" where
  "Require lib r req i permissions =
     (let status = Check lib r req i permissions in
      if status = 200 then None else Some (http_error (StatusText status) status))"

section \<open>Kafka security\<close>

datatype action = TopicRead | TopicWrite

text \<open>The users of the broker and the grants \<open>(user, topic, action)\<close>; the mechanisms are constant.\<close>

definition user_grants :: "string \<Rightarrow> KafkaCredential \<Rightarrow> (string \<times> string \<times> action) list" where
  "user_grants topic c = (if Read c then [(Username c, topic, TopicRead)] else []) @
     (if CanWrite c then [(Username c, topic, TopicWrite)] else [])"

definition brokerConfig ::
  "string \<Rightarrow> KafkaCredential list \<Rightarrow> (string \<times> string) list \<times> (string \<times> string \<times> action) list" where
  "brokerConfig topic credentials =
     (foldl (\<lambda>users c. AList.update (Username c) (Password c) users) [] credentials,
      concat (map (user_grants topic) credentials))"

definition NewDialer :: "'m library \<Rightarrow> KafkaCredential option \<Rightarrow> 'm option result" where
  "NewDialer lib credential = (case credential of
     None \<Rightarrow> Inr None
   | Some c \<Rightarrow>
       if Username c = [] \<or> Password c = [] then Inl (PlainError ''kafka accounting username and password are required'')
       else case scram_Mechanism lib (Username c) (Password c) of
           None \<Rightarrow> Inl (PlainError ''invalid Kafka accounting credentials'')
         | Some m \<Rightarrow> Inr (Some m))"

text \<open>The loop over the credentials: the accounting reader, and whether any may read or write.\<close>

fun scan_credentials :: "bool \<Rightarrow> KafkaCredential option \<Rightarrow> bool \<Rightarrow> bool \<Rightarrow> KafkaCredential list \<Rightarrow>
    (KafkaCredential option \<times> bool \<times> bool) result" where
  "scan_credentials enableKafka reader rd wr [] = Inr (reader, rd, wr)"
| "scan_credentials enableKafka reader rd wr (c # cs) =
     (if Accounting c \<and> reader \<noteq> None then Inl (PlainError ''exactly one Kafka accounting credential is allowed'')
      else if enableKafka \<and> Read c \<and> CanWrite c then Inl (PlainError ''embedded Kafka read and write users must be distinct'')
      else scan_credentials enableKafka (if Accounting c then Some c else reader) (rd \<or> Read c) (wr \<or> CanWrite c) cs)"

definition kafkaSecurity ::
  "'m library \<Rightarrow> bool \<Rightarrow> bool \<Rightarrow> Registry option \<Rightarrow> (KafkaCredential list \<times> 'm option) result" where
  "kafkaSecurity lib enableKafka enableAccounting r =
     (let credentials = KafkaCredentials r in
      case scan_credentials enableKafka None False False credentials of
        Inl e \<Rightarrow> Inl e
      | Inr (reader, rd, wr) \<Rightarrow>
          if enableKafka \<and> (\<not> rd \<or> \<not> wr) then Inl (PlainError ''embedded Kafka requires distinct read and write credentials'')
          else if enableKafka \<and> enableAccounting \<and> reader = None
            then Inl (PlainError ''embedded Kafka accounting requires one accounting reader'')
          else map_sum id (\<lambda>dialer. (if enableKafka then credentials else [], dialer))
            (NewDialer lib (if enableAccounting then reader else None)))"

section \<open>What a loaded registry holds\<close>

text \<open>What an accepted entry stands for.\<close>

definition principal_of :: "entry \<Rightarrow> principal option" where
  "principal_of item = (case (en_Management item, en_Webhook item, en_Kafka item) of
     (Some actions, None, None) \<Rightarrow> Some \<lparr>integration = ''management'', allow = actions\<rparr>
   | (None, Some _, None) \<Rightarrow> Some \<lparr>integration = ''webhook'', allow = [''authorize'']\<rparr>
   | (None, None, Some k) \<Rightarrow> Some \<lparr>integration = ''kafka'', allow = ke_Allow k\<rparr>
   | _ \<Rightarrow> None)"

lemma record_principal_simps [simp]:
  "principals (record_principal h p r) = principals r @ [(h, p)]" "kafka (record_principal h p r) = kafka r"
  "counts (record_principal h p r) = (counts r)(integration p := counts r (integration p) + 1)"
  by (simp_all add: record_principal_def)

lemma kafka_principal_Inr:
  assumes "kafka_principal lib usernames item k = Inr (c, u)"
  shows "c = kafka_credential item k \<and> SASLprep lib (ke_Username k) = Inr u \<and> u \<noteq> [] \<and> u \<noteq> ''*'' \<and> u \<notin> set usernames \<and>
    (Accounting c \<longrightarrow> Read c)"
  using assms by (auto simp: kafka_principal_def Let_def split: sum.splits if_splits)

lemma add_entry_Inr:
  assumes "add_entry lib ids usernames item r = Inr (usernames', r')"
  obtains p where "principal_of item = Some p" "map_of (principals r) (Sum256 lib (en_Secret item)) = None"
    "principals r' = principals r @ [(Sum256 lib (en_Secret item), p)]"
    "counts r' = (counts r)(integration p := counts r (integration p) + 1)"
    "case en_Kafka item of None \<Rightarrow> usernames' = usernames \<and> kafka r' = kafka r
     | Some k \<Rightarrow> \<exists>u. SASLprep lib (ke_Username k) = Inr u \<and> u \<noteq> [] \<and> u \<noteq> ''*'' \<and> u \<notin> set usernames \<and>
         usernames' = u # usernames \<and> kafka r' = kafka r @ [kafka_credential item k] \<and>
         (ke_Accounting k \<longrightarrow> ''read'' \<in> set (ke_Allow k))"
  using assms by (auto simp: add_entry_def principal_of_def Let_def kafka_credential_def map_sum_def
      dest!: kafka_principal_Inr split: sum.splits if_splits option.splits)

text \<open>
  The invariant of the loop, for the entries taken so far: one principal per entry under the hash of
  its secret, the counts of the integrations, and the Kafka users with their normalised names.
\<close>

definition kafka_items :: "entry list \<Rightarrow> (entry \<times> kafka_entry) list" where
  "kafka_items items = concat (map (\<lambda>e. case en_Kafka e of None \<Rightarrow> [] | Some k \<Rightarrow> [(e, k)]) items)"

lemma kafka_items_simps [simp]:
  "kafka_items [] = []" "kafka_items (as @ bs) = kafka_items as @ kafka_items bs"
  "kafka_items [e] = (case en_Kafka e of None \<Rightarrow> [] | Some k \<Rightarrow> [(e, k)])"
  by (simp_all add: kafka_items_def)

definition registered :: "'m library \<Rightarrow> entry list \<Rightarrow> string list \<Rightarrow> Registry \<Rightarrow> bool" where
  "registered lib items usernames r \<longleftrightarrow>
     principals r = map (\<lambda>e. (Sum256 lib (en_Secret e), the (principal_of e))) items \<and>
     (\<forall>e \<in> set items. principal_of e \<noteq> None) \<and> distinct (map (\<lambda>e. Sum256 lib (en_Secret e)) items) \<and>
     (\<forall>i. counts r i = int (length (filter (\<lambda>e. integration (the (principal_of e)) = i) items))) \<and>
     kafka r = map (\<lambda>(e, k). kafka_credential e k) (kafka_items items) \<and>
     map (\<lambda>(e, k). SASLprep lib (ke_Username k)) (kafka_items items) = map Inr (rev usernames) \<and>
     distinct usernames \<and> [] \<notin> set usernames \<and> ''*'' \<notin> set usernames \<and> (\<forall>c \<in> set (kafka r). Accounting c \<longrightarrow> Read c)"

lemma add_entry_registered:
  assumes "add_entry lib ids usernames item r = Inr (usernames', r')" "registered lib items usernames r"
  shows "registered lib (items @ [item]) usernames' r'"
proof -
  from assms(1) obtain p where p: "principal_of item = Some p" "map_of (principals r) (Sum256 lib (en_Secret item)) = None"
    "principals r' = principals r @ [(Sum256 lib (en_Secret item), p)]"
    "counts r' = (counts r)(integration p := counts r (integration p) + 1)"
    and k: "case en_Kafka item of None \<Rightarrow> usernames' = usernames \<and> kafka r' = kafka r
     | Some k \<Rightarrow> \<exists>u. SASLprep lib (ke_Username k) = Inr u \<and> u \<noteq> [] \<and> u \<noteq> ''*'' \<and> u \<notin> set usernames \<and>
         usernames' = u # usernames \<and> kafka r' = kafka r @ [kafka_credential item k] \<and>
         (ke_Accounting k \<longrightarrow> ''read'' \<in> set (ke_Allow k))" by (rule add_entry_Inr)
  have pr: "principals r = map (\<lambda>e. (Sum256 lib (en_Secret e), the (principal_of e))) items"
    using assms(2) by (simp add: registered_def)
  have fresh: "Sum256 lib (en_Secret item) \<notin> (\<lambda>e. Sum256 lib (en_Secret e)) ` set items"
    using p(2) unfolding pr by (simp add: map_of_eq_None_iff image_image)
  show ?thesis
  proof (cases "en_Kafka item")
    case None
    then show ?thesis using assms(2) p(1,3,4) k fresh by (simp add: registered_def)
  next
    case (Some kf)
    then obtain u where "SASLprep lib (ke_Username kf) = Inr u" "u \<noteq> []" "u \<noteq> ''*''" "u \<notin> set usernames"
      "usernames' = u # usernames" "kafka r' = kafka r @ [kafka_credential item kf]"
      "Accounting (kafka_credential item kf) \<longrightarrow> Read (kafka_credential item kf)"
      using k by (auto simp: kafka_credential_def)
    then show ?thesis using assms(2) p(1,3,4) Some fresh by (simp add: registered_def ball_Un)
  qed
qed

lemma add_registered:
  "add lib ids usernames entries r = Inr r' \<Longrightarrow> registered lib items usernames r \<Longrightarrow>
    \<exists>usernames'. registered lib (items @ entries) usernames' r'"
proof (induction entries arbitrary: ids usernames r items)
  case (Cons item entries)
  from Cons.prems(1) obtain us r1 where a: "add_entry lib ids usernames item r = Inr (us, r1)"
    and b: "add lib (en_ID item # ids) us entries r1 = Inr r'" by (auto split: sum.splits)
  from Cons.IH [OF b add_entry_registered [OF a Cons.prems(2)]] show ?case by simp
qed auto

lemma Load_registered:
  assumes "Load lib path = Inr r"
  obtains entries usernames where "load_config lib path = Inr entries" "registered lib entries usernames r"
proof -
  from assms obtain entries where e: "load_config lib path = Inr entries" "add lib [] [] entries empty_registry = Inr r"
    by (auto simp: Load_def split: sum.splits)
  have "registered lib [] [] empty_registry" by (simp add: registered_def empty_registry_def)
  from add_registered [OF e(2) this] show thesis using that e(1) by auto
qed

section \<open>The policy of the check\<close>

lemma map_of_entries: "map_of (map (\<lambda>e. (h e, f e)) xs) k = map_option f (find (\<lambda>e. h e = k) xs)"
  by (induction xs) auto

lemma find_None: "find P xs = None \<longleftrightarrow> (\<forall>x \<in> set xs. \<not> P x)"
  by (induction xs) auto

lemma find_Some: "find P xs = Some x \<Longrightarrow> x \<in> set xs \<and> P x"
  by (induction xs) (auto split: if_splits)

lemma find_unique:
  assumes "x \<in> set xs" "P x" "\<And>y. y \<in> set xs \<Longrightarrow> P y \<Longrightarrow> y = x"
  shows "find P xs = Some x"
proof (cases "find P xs")
  case None
  then show ?thesis using assms(1,2) by (simp add: find_None)
next
  case (Some y)
  then show ?thesis using find_Some [OF Some] assms(3) by blast
qed

text \<open>The entry of an integration with a secret.\<close>

definition entry_for :: "entry list \<Rightarrow> string \<Rightarrow> string \<Rightarrow> entry option" where
  "entry_for entries i token =
     find (\<lambda>e. en_Secret e = token \<and> map_option integration (principal_of e) = Some i) entries"

text \<open>
  C29: a request passes the check exactly when it carries one credential header whose value is the
  secret of an entry of the file for that integration, and the entry allows every permission, as
  such or by the wildcard of its resource; it is unauthorized when there is no such entry and
  forbidden when one of the permissions is missing.  The hash must not confuse the presented token
  with another secret.
\<close>

theorem Load_Check:
  assumes "Load lib path = Inr r" "load_config lib path = Inr entries"
    and "\<forall>token \<in> set (Values req token_header). \<forall>e \<in> set entries.
      Sum256 lib (en_Secret e) = Sum256 lib token \<longrightarrow> en_Secret e = token"
  shows "Check lib (Some r) req i permissions =
    (case Values req token_header of
       [token] \<Rightarrow> (case entry_for entries i token of
           None \<Rightarrow> 401
         | Some e \<Rightarrow> if \<forall>q \<in> set permissions. permitted (allow (the (principal_of e))) q then 200 else 403)
     | _ \<Rightarrow> 401)"
proof (cases "\<exists>token. Values req token_header = [token]")
  case False
  then show ?thesis by (auto simp: Check_def split: list.splits)
next
  case True
  then obtain token where t: "Values req token_header = [token]" by blast
  let ?h = "\<lambda>e. Sum256 lib (en_Secret e)"
  from Load_registered [OF assms(1)] assms(2) obtain us where reg: "registered lib entries us r" by auto
  have pr: "principals r = map (\<lambda>e. (?h e, the (principal_of e))) entries" and some: "\<forall>e \<in> set entries. principal_of e \<noteq> None"
    and inj: "inj_on ?h (set entries)" using reg by (simp_all add: registered_def distinct_map)
  have same: "?h e = Sum256 lib token \<longleftrightarrow> en_Secret e = token" if "e \<in> set entries" for e using that t assms(3) by auto
  show ?thesis
  proof (cases "find (\<lambda>e. ?h e = Sum256 lib token) entries")
    case None
    then have "entry_for entries i token = None" using same by (auto simp: entry_for_def find_None)
    then show ?thesis by (simp add: Check_def t pr map_of_entries None)
  next
    case (Some e)
    then have e: "e \<in> set entries" "en_Secret e = token" using same find_Some [OF Some] by auto
    have uniq: "y = e" if "y \<in> set entries" "en_Secret y = token" for y using inj_onD [OF inj _ that(1) e(1)] that(2) e(2) by simp
    obtain p where p: "principal_of e = Some p" using some e(1) by auto
    have "entry_for entries i token = (if integration p = i then Some e else None)"
    proof (cases "integration p = i")
      case True
      have "entry_for entries i token = Some e"
        unfolding entry_for_def by (rule find_unique) (use e p True uniq in blast)+
      then show ?thesis using True by simp
    next
      case False
      have "entry_for entries i token = None"
        unfolding entry_for_def find_None using uniq p False by fastforce
      then show ?thesis using False by simp
    qed
    then show ?thesis by (simp add: Check_def t pr map_of_entries Some p)
  qed
qed

section \<open>The split of the Kafka credentials\<close>

lemma update_fresh: "k \<notin> fst ` set t \<Longrightarrow> AList.update k v t = t @ [(k, v)]"
  by (induction t) auto

lemma users_of: "distinct (map fst acc @ map Username cs) \<Longrightarrow>
    foldl (\<lambda>users c. AList.update (Username c) (Password c) users) acc cs = acc @ map (\<lambda>c. (Username c, Password c)) cs"
proof (induction cs arbitrary: acc)
  case (Cons c cs)
  then show ?case using Cons.IH [of "acc @ [(Username c, Password c)]"] by (auto simp: update_fresh)
qed simp

lemma distinct_kafka_items:
  "distinct (map f items) \<Longrightarrow> distinct (map (\<lambda>(e, k). f e) (kafka_items items))"
proof (induction items)
  case (Cons e items)
  have "f e' \<in> f ` set items" if "(e', k) \<in> set (kafka_items items)" for e' k
    using that by (auto simp: kafka_items_def split: option.splits)
  then show ?case using Cons by (auto simp: kafka_items_def split: option.splits)
qed simp

lemma Load_kafka:
  assumes "Load lib path = Inr r"
  shows "distinct (map Username (kafka r))" "distinct (map Password (kafka r))"
    "\<forall>c \<in> set (kafka r). Accounting c \<longrightarrow> Read c"
proof -
  from Load_registered [OF assms] obtain entries us where reg: "registered lib entries us r" by blast
  let ?K = "kafka_items entries"
  have k: "kafka r = map (\<lambda>(e, k). kafka_credential e k) ?K" and acc: "\<forall>c \<in> set (kafka r). Accounting c \<longrightarrow> Read c"
    and prep: "map (\<lambda>(e, k). SASLprep lib (ke_Username k)) ?K = map Inr (rev us)" "distinct us" "''*'' \<notin> set us"
    using reg by (simp_all add: registered_def)
  have "map (SASLprep lib) (map (\<lambda>(e, k). ke_Username k) ?K) = map Inr (rev us)" using prep(1) by (simp add: comp_def case_prod_unfold)
  moreover have "distinct (map Inr (rev us))" using prep(2) by (simp add: distinct_map)
  ultimately have "distinct (map (\<lambda>(e, k). ke_Username k) ?K)" by (metis distinct_map)
  then show "distinct (map Username (kafka r))" by (simp add: k kafka_credential_def comp_def case_prod_unfold)
  have "distinct (map (\<lambda>(e, k). Sum256 lib (en_Secret e)) ?K)"
    using reg by (intro distinct_kafka_items) (simp add: registered_def)
  then have "distinct (map (Sum256 lib) (map (\<lambda>(e, k). en_Secret e) ?K))" by (simp add: comp_def case_prod_unfold)
  then have "distinct (map (\<lambda>(e, k). en_Secret e) ?K)" by (metis distinct_map)
  then show "distinct (map Password (kafka r))" by (simp add: k kafka_credential_def comp_def case_prod_unfold)
  show "\<forall>c \<in> set (kafka r). Accounting c \<longrightarrow> Read c" by (rule acc)
qed

text \<open>What an accepted scan found.\<close>

lemma scan_credentials_Inr:
  assumes "scan_credentials k reader rd wr cs = Inr (reader', rd', wr')"
  shows "(rd' \<longleftrightarrow> rd \<or> (\<exists>c \<in> set cs. Read c)) \<and> (wr' \<longleftrightarrow> wr \<or> (\<exists>c \<in> set cs. CanWrite c)) \<and>
    (k \<longrightarrow> (\<forall>c \<in> set cs. \<not> (Read c \<and> CanWrite c))) \<and>
    (case reader of
       Some c \<Rightarrow> reader' = Some c \<and> filter Accounting cs = []
     | None \<Rightarrow> (case reader' of None \<Rightarrow> filter Accounting cs = [] | Some c \<Rightarrow> filter Accounting cs = [c]))"
  using assms
proof (induction cs arbitrary: reader rd wr)
  case Nil
  then show ?case by (simp split: option.splits)
next
  case (Cons c cs)
  from Cons.prems have step: "scan_credentials k (if Accounting c then Some c else reader) (rd \<or> Read c) (wr \<or> CanWrite c) cs = Inr (reader', rd', wr')"
    and guards: "Accounting c \<longrightarrow> reader = None" "k \<longrightarrow> \<not> (Read c \<and> CanWrite c)" by (auto split: if_splits)
  show ?case using Cons.IH [OF step] guards by (cases "Accounting c"; cases reader) (auto split: option.splits)
qed

lemma NewDialer_Some:
  "NewDialer lib (Some c) = Inr d \<Longrightarrow> \<exists>m. scram_Mechanism lib (Username c) (Password c) = Some m \<and> d = Some m"
  by (cases "scram_Mechanism lib (Username c) (Password c)") (auto simp: NewDialer_def split: if_splits)

lemma kafkaSecurity_Inr:
  assumes "kafkaSecurity lib k a r = Inr (credentials, dialer)"
  obtains reader rd wr where "scan_credentials k None False False (KafkaCredentials r) = Inr (reader, rd, wr)"
    "k \<longrightarrow> rd \<and> wr" "k \<and> a \<longrightarrow> reader \<noteq> None" "credentials = (if k then KafkaCredentials r else [])"
    "NewDialer lib (if a then reader else None) = Inr dialer"
  using assms by (auto simp: kafkaSecurity_def Let_def map_sum_def split: sum.splits if_splits)


text \<open>A file with a manager, a signer, an accounting reader and a producer.\<close>

definition sample_entries :: "entry list" where
  "sample_entries =
    [\<lparr>en_ID = ''operator'', en_Secret = ''s1'', en_Management = Some [''grants.*'', ''api_keys.create''], en_Webhook = None, en_Kafka = None\<rparr>,
     \<lparr>en_ID = ''signer'', en_Secret = ''s2'', en_Management = None, en_Webhook = Some True, en_Kafka = None\<rparr>,
     \<lparr>en_ID = ''reader'', en_Secret = ''s3'', en_Management = None, en_Webhook = None,
      en_Kafka = Some \<lparr>ke_Username = ''accounting'', ke_Allow = [''read''], ke_Accounting = True\<rparr>\<rparr>,
     \<lparr>en_ID = ''writer'', en_Secret = ''s4'', en_Management = None, en_Webhook = None,
      en_Kafka = Some \<lparr>ke_Username = ''producer'', ke_Allow = [''write''], ke_Accounting = False\<rparr>\<rparr>]"

definition sample_library :: "(string \<times> string) library" where
  "sample_library = \<lparr>load_config = (\<lambda>path. Inr sample_entries), validate_entry = (\<lambda>e. Inr ()), SASLprep = Inr,
     Sum256 = (\<lambda>s. take 32 (s @ replicate 32 (CHR ''0''))), scram_Mechanism = (\<lambda>u p. Some (u, p))\<rparr>"

definition sample_registry :: Registry where
  "sample_registry = (case Load sample_library ''auth.json'' of Inr r \<Rightarrow> r | Inl e \<Rightarrow> empty_registry)"

lemma sample_registry_loaded: "Load sample_library ''auth.json'' = Inr sample_registry"
proof -
  have "\<not> isl (Load sample_library ''auth.json'')" by code_simp
  then show ?thesis by (cases "Load sample_library ''auth.json''") (simp_all add: sample_registry_def)
qed

definition sample_request :: "string \<Rightarrow> http_request" where
  "sample_request token = \<lparr>Method = ''GET'', Route = [], PathID = [], RawQuery = [],
     Header = [(token_header, [token])], RequestBody = []\<rparr>"

lemma Load_Check_witness:
  "Check sample_library (Some sample_registry) (sample_request ''s1'') ''management'' [''grants.read''] = 200 \<and>
   Check sample_library (Some sample_registry) (sample_request ''s1'') ''management'' [''api_keys.create'', ''allocations.fund''] = 403 \<and>
   Check sample_library (Some sample_registry) (sample_request ''s2'') ''management'' [''grants.read''] = 401"
proof -
  have h: "\<forall>token \<in> set (Values (sample_request t) token_header). \<forall>e \<in> set sample_entries.
      Sum256 sample_library (en_Secret e) = Sum256 sample_library token \<longrightarrow> en_Secret e = token" if "t = ''s1'' \<or> t = ''s2''" for t
    using that by (elim disjE; hypsubst) code_simp+
  have c: "load_config sample_library ''auth.json'' = Inr sample_entries" by (simp add: sample_library_def)
  note check = Load_Check [OF sample_registry_loaded c]
  have "entry_for sample_entries ''management'' ''s1'' = Some (hd sample_entries)"
    "entry_for sample_entries ''management'' ''s2'' = None" by code_simp+
  moreover have "permitted (allow (the (principal_of (hd sample_entries)))) ''grants.read''"
    "\<not> permitted (allow (the (principal_of (hd sample_entries)))) ''allocations.fund''" by code_simp+
  moreover have "Values (sample_request t) token_header = [t]" for t by (simp add: Values_def sample_request_def)
  ultimately show ?thesis using check [OF h] by simp
qed


end
