(* ===== verification/Listing.thy ===== *)
theory Listing
  imports Idempotency Settlements ServiceAuth
begin

text \<open>
  The reading side of the management API: \<open>List\<close> and \<open>listQuery\<close> of \<open>internal/store/manage.go\<close>,
  \<open>Report\<close> of \<open>store.go\<close> and \<open>EscrowActivity\<close> of \<open>settlements.go\<close>.  A row that a query
  returns is the list of the members of a JSON object; the pages and cursors the API cuts a list into are in \<open>Paging\<close>.
\<close>

section \<open>Rows of a resource\<close>

record ListOptions =
  lo_ID :: string
  lo_GrantID :: string
  lo_AllocationID :: string
  lo_ManifestID :: string
  lo_Limit :: int
  lo_AfterSeq :: int

text \<open>
  A row with what the conditions look at: its sequence number, which is its position in the table
  plus one, its identifier, the grant of an allocation, the allocation of a key or session, the
  session and manifest of a usage event or settlement.
\<close>

record list_row =
  lr_seq :: int
  lr_id :: string
  lr_grant :: string
  lr_allocation :: string
  lr_session :: "string option"
  lr_manifest :: string
  lr_columns :: "(string \<times> json) list"

definition opt_string :: "string option \<Rightarrow> json" where
  "opt_string v = (case v of None \<Rightarrow> JNull | Some s \<Rightarrow> JString s)"

definition opt_int :: "int option \<Rightarrow> json" where
  "opt_int v = (case v of None \<Rightarrow> JNull | Some n \<Rightarrow> JInt n)"

definition bare_row :: "string \<Rightarrow> (string \<times> json) list \<Rightarrow> list_row" where
  "bare_row i cols = \<lparr>lr_seq = 0, lr_id = i, lr_grant = [], lr_allocation = [], lr_session = None, lr_manifest = [], lr_columns = cols\<rparr>"

definition grant_line :: "grant \<Rightarrow> list_row" where
  "grant_line g = bare_row (g_id g)
     [(''id'', JString (g_id g)), (''name'', JString (g_name g)), (''sponsor'', JString (g_sponsor g)),
      (''total_units'', JString (g_total_units g)), (''currency'', JString (g_currency g)),
      (''starts_at_ms'', opt_int (g_starts g)), (''ends_at_ms'', opt_int (g_ends g)), (''status'', JString (g_status g)),
      (''metadata'', JString (g_metadata g)), (''created_at_ms'', JInt (g_created g))]"

text \<open>The \<open>LEFT JOIN\<close> with the balances; a missing balance is zero.\<close>

definition balance_text :: "world \<Rightarrow> account \<Rightarrow> allocation \<Rightarrow> json" where
  "balance_text s account a = (case map_of (account_balances s) (account, a_id a, a_currency a) of
     None \<Rightarrow> JString ''0'' | Some v \<Rightarrow> JString v)"

definition allocation_line :: "world \<Rightarrow> allocation \<Rightarrow> list_row" where
  "allocation_line s a = (bare_row (a_id a)
     [(''id'', JString (a_id a)), (''grant_id'', JString (a_grant a)), (''name'', JString (a_name a)),
      (''beneficiary'', JString (a_beneficiary a)), (''allocated_units'', JString (a_allocated_units a)),
      (''currency'', JString (a_currency a)), (''starts_at_ms'', opt_int (a_starts a)), (''ends_at_ms'', opt_int (a_ends a)),
      (''status'', JString (a_status a)), (''metadata'', JString (a_metadata a)), (''created_at_ms'', JInt (a_created a)),
      (''available_units'', balance_text s AllocationAvailable a), (''spent_units'', balance_text s AllocationSpent a)])
     \<lparr>lr_grant := a_grant a\<rparr>"

definition key_line :: "api_key \<Rightarrow> list_row" where
  "key_line k = (bare_row (k_id k)
     [(''id'', JString (k_id k)), (''allocation_id'', JString (k_allocation k)), (''name'', JString (k_name k)),
      (''prefix'', JString (k_prefix k)), (''created_at_ms'', JInt (k_created k)),
      (''last_used_at_ms'', opt_int (k_last_used k)), (''revoked_at_ms'', opt_int (k_revoked k))])
     \<lparr>lr_allocation := k_allocation k\<rparr>"

definition session_line :: "session \<Rightarrow> list_row" where
  "session_line e = (bare_row (s_id e)
     [(''id'', JString (s_id e)), (''allocation_id'', JString (s_allocation e)), (''api_key_id'', JString (s_api_key e)),
      (''state_id'', JString (s_state_id e)), (''app'', JString (s_app e)), (''payment_type'', JString (s_payment_type e)),
      (''orchestrator'', JString (s_orchestrator e)), (''status'', JString (s_status e)),
      (''created_at_ms'', JInt (s_created e)), (''last_seen_at_ms'', JInt (s_last_seen e))])
     \<lparr>lr_allocation := s_allocation e\<rparr>"

definition settlement_line :: "settlement_row \<Rightarrow> list_row" where
  "settlement_line r = (bare_row (st_id r)
     [(''id'', JString (st_id r)), (''chain_id'', JString (st_chain r)), (''contract_address'', JString (st_contract r)),
      (''tx_hash'', JString (st_tx_hash r)), (''log_index'', JInt (st_log_index r)), (''block_number'', JInt (st_block_number r)),
      (''block_hash'', JString (st_block_hash r)), (''sender'', JString (st_sender r)), (''recipient'', JString (st_recipient r)),
      (''face_value_wei'', JString (st_face r)), (''paid_amount_wei'', JString (st_paid r)),
      (''deposit_paid_wei'', JString (st_deposit_paid r)), (''reserve_paid_wei'', JString (st_reserve_paid r)),
      (''win_probability'', JString (st_win_prob r)), (''sender_nonce'', JString (st_nonce r)), (''recipient_rand'', JString (st_rand r)),
      (''pm_session_id'', JString (st_pm_session r)), (''aux_data'', JString (st_aux_data r)),
      (''payment_session_id'', opt_string (st_session r)), (''authorization_id'', JNull), (''match_status'', JString (st_match r)),
      (''status'', JString (st_status r)), (''generation'', JInt (st_generation r)),
      (''created_at_ms'', JInt (st_created r)), (''settled_at_ms'', JInt (st_settled_at r))])
     \<lparr>lr_session := st_session r\<rparr>"

text \<open>The two scalar subqueries of a usage event: the allocation of its session and its currency.\<close>

definition session_of :: "world \<Rightarrow> string option \<Rightarrow> session option" where
  "session_of s i = Option.bind i (\<lambda>i. find_row (\<lambda>e. s_id e = i) (sessions s))"

definition usage_line :: "world \<Rightarrow> usage_event \<Rightarrow> list_row" where
  "usage_line s u = (bare_row (u_id u)
     [(''id'', JString (u_id u)), (''event_id'', opt_string (u_event_id u)), (''topic'', JString (u_topic u)),
      (''partition'', JInt (u_partition u)), (''offset'', JInt (u_offset u)), (''status'', JString (u_status u)),
      (''error'', JString (u_error u)), (''computed_fee_wei'', JString (u_fee_wei u)),
      (''computed_fee_usd'', opt_string (u_fee_usd u)), (''created_at_ms'', JInt (u_created u)),
      (''payment_session_id'', opt_string (u_session u)), (''request_id'', JString (u_request_id u)),
      (''pipeline'', JString (u_pipeline u)), (''manifest_id'', JString (u_manifest_id u)),
      (''allocation_id'', opt_string (map_option s_allocation (session_of s (u_session u)))),
      (''currency'', opt_string (map_option a_currency
         (Option.bind (session_of s (u_session u)) (\<lambda>e. find_allocation (s_allocation e) s))))])
     \<lparr>lr_session := u_session u, lr_manifest := u_manifest_id u\<rparr>"

definition numbered :: "list_row list \<Rightarrow> list_row list" where
  "numbered rows = map (\<lambda>(i, r). r\<lparr>lr_seq := int i\<rparr>) (enumerate 1 rows)"

definition rows_of :: "string \<Rightarrow> world \<Rightarrow> list_row list" where
  "rows_of kind s = numbered
     (if kind = ''grant'' then map grant_line (grants s)
      else if kind = ''allocation'' then map (allocation_line s) (allocations s)
      else if kind = ''api-key'' then map key_line (api_keys s)
      else if kind = ''session'' then map session_line (sessions s)
      else if kind = ''settlement'' then map settlement_line (settlements s)
      else if kind = ''usage'' then map (usage_line s) (usage_events s) else [])"

section \<open>The conditions of a list\<close>

definition listQuery_check :: "string \<Rightarrow> ListOptions \<Rightarrow> unit result" where
  "listQuery_check kind opts =
     (if \<not> oneOf kind [''grant'', ''allocation'', ''api-key'', ''session'', ''settlement'', ''usage'']
      then Inl (PlainError (''unknown resource '' @ quoted kind))
      else if lo_Limit opts < 0 \<or> lo_AfterSeq opts < 0 then Inl (InvalidInput ''limit and after sequence must not be negative'')
      else if kind = ''grant'' \<and> (lo_GrantID opts \<noteq> [] \<or> lo_AllocationID opts \<noteq> [])
      then Inl (InvalidInput ''grant lists do not accept grant_id or allocation_id filters'')
      else if kind = ''allocation'' \<and> lo_AllocationID opts \<noteq> []
      then Inl (InvalidInput ''allocation lists do not accept allocation_id filters'')
      else if kind \<noteq> ''usage'' \<and> lo_ManifestID opts \<noteq> []
      then Inl (InvalidInput ''manifest_id filters are only valid for usage lists'')
      else Inr ())"

text \<open>The filters over an allocation: \<open>allocation_id IN (SELECT \<dots>)\<close> and \<open>allocation_id=?\<close>.\<close>

definition owned :: "world \<Rightarrow> ListOptions \<Rightarrow> string \<Rightarrow> bool" where
  "owned s opts allocation \<longleftrightarrow>
     (lo_GrantID opts = [] \<or> (\<exists>a \<in> set (allocations s). a_id a = allocation \<and> a_grant a = lo_GrantID opts)) \<and>
     (lo_AllocationID opts = [] \<or> allocation = lo_AllocationID opts)"

definition row_owned :: "string \<Rightarrow> world \<Rightarrow> ListOptions \<Rightarrow> list_row \<Rightarrow> bool" where
  "row_owned kind s opts r \<longleftrightarrow>
     (if kind = ''allocation'' then lo_GrantID opts = [] \<or> lr_grant r = lo_GrantID opts
      else if kind = ''usage'' \<or> kind = ''settlement'' then
        (lo_GrantID opts = [] \<and> lo_AllocationID opts = []) \<or>
        (\<exists>e \<in> set (sessions s). lr_session r = Some (s_id e) \<and> owned s opts (s_allocation e))
      else owned s opts (lr_allocation r))"

definition row_matches :: "string \<Rightarrow> world \<Rightarrow> ListOptions \<Rightarrow> list_row \<Rightarrow> bool" where
  "row_matches kind s opts r \<longleftrightarrow>
     (lo_AfterSeq opts \<le> 0 \<or> lo_AfterSeq opts < lr_seq r) \<and> (lo_ID opts = [] \<or> lr_id r = lo_ID opts) \<and>
     (if kind = ''grant'' then True else row_owned kind s opts r) \<and>
     (lo_ManifestID opts = [] \<or> lr_session r \<noteq> None \<and> lr_manifest r = lo_ManifestID opts)"

text \<open>A positive limit adds the sequence number in front of the columns.\<close>

definition row_json :: "ListOptions \<Rightarrow> list_row \<Rightarrow> (string \<times> json) list" where
  "row_json opts r = (if 0 < lo_Limit opts then [(''seq'', JInt (lr_seq r))] else []) @ lr_columns r"

definition limited :: "int \<Rightarrow> 'a list \<Rightarrow> 'a list" where
  "limited n xs = (if 0 < n then take (nat n) xs else xs)"

definition store_List :: "string \<Rightarrow> ListOptions \<Rightarrow> world \<Rightarrow> (string \<times> json) list list result" where
  "store_List kind opts s = (case listQuery_check kind opts of
     Inl e \<Rightarrow> Inl e
   | Inr _ \<Rightarrow>
       let rows = limited (lo_Limit opts) (filter (row_matches kind s opts) (rows_of kind s)) in
       if lo_ID opts \<noteq> [] \<and> rows = [] then Inl ErrNoRows else Inr (map (row_json opts) rows))"

section \<open>Reports\<close>

definition Report :: "world \<Rightarrow> (string \<times> json) list list result" where
  "Report s = (let rows = sort_key (\<lambda>((t, i, c), v). (account_name t, i, c)) (account_balances s) in
     if \<exists>((t, i, c), v) \<in> set rows. isl (signedBalance v) then Inl (PlainError ''invalid canonical signed balance'')
     else Inr (map (\<lambda>((t, i, c), v). [(''account_type'', JString (account_name t)), (''account_id'', JString i),
       (''currency'', JString c), (''balance_units'', JString v)]) rows))"

definition snapshot_line :: "escrow_snapshot_row \<Rightarrow> (int \<times> int \<times> string) \<times> (string \<times> json) list" where
  "snapshot_line r = ((es_block_number r, -1, es_id r),
     [(''id'', JString (es_id r)), (''event_type'', JString ''opening_snapshot''), (''chain_id'', JString (es_chain r)),
      (''contract_address'', JString (es_contract r)), (''sender'', JString (es_sender r)), (''recipient'', JNull),
      (''tx_hash'', JNull), (''log_index'', JNull), (''block_number'', JInt (es_block_number r)),
      (''block_hash'', JString (es_block_hash r)), (''amount_wei'', JString ''0''), (''deposit_amount_wei'', JString (es_deposit r)),
      (''reserve_amount_wei'', JString (es_reserve r)), (''status'', JString ''canonical''), (''generation'', JInt 0),
      (''created_at_ms'', JInt (es_created r)), (''occurred_at_ms'', JInt (es_created r))])"

definition event_line :: "broker_event_row \<Rightarrow> (int \<times> int \<times> string) \<times> (string \<times> json) list" where
  "event_line r = ((be_block_number r, be_log_index r, be_id r),
     [(''id'', JString (be_id r)), (''event_type'', JString (be_type r)), (''chain_id'', JString (be_chain r)),
      (''contract_address'', JString (be_contract r)), (''sender'', JString (be_sender r)), (''recipient'', opt_string (be_recipient r)),
      (''tx_hash'', JString (be_tx_hash r)), (''log_index'', JInt (be_log_index r)), (''block_number'', JInt (be_block_number r)),
      (''block_hash'', JString (be_block_hash r)), (''amount_wei'', JString (be_amount r)),
      (''deposit_amount_wei'', JString (be_deposit r)), (''reserve_amount_wei'', JString (be_reserve r)),
      (''status'', JString (be_status r)), (''generation'', JInt (be_generation r)),
      (''created_at_ms'', JInt (be_created r)), (''occurred_at_ms'', JInt (be_occurred r))])"

definition EscrowActivity :: "world \<Rightarrow> (string \<times> json) list list" where
  "EscrowActivity s = map snd (sort_key fst (map snapshot_line (escrow_snapshots s) @ map event_line (ticket_broker_events s)))"

end
