(* ===== verification/Paging.thy ===== *)
theory Paging
  imports Listing
begin

text \<open>
  \<open>internal/app/pagination.go\<close> and \<open>managementQuery\<close> of \<open>management.go\<close>: the query parameters of a
  list request, the cursor that continues it, and the pages.  A client that follows the cursors
  reaches the end and has then seen every matching row once.
\<close>

section \<open>Requests\<close>

text \<open>An error of the management handlers, with its HTTP status.\<close>

datatype api_error = RequestError int string | StoreError error

type_synonym 'a answer = "api_error + 'a"

definition badManagementRequest :: "string \<Rightarrow> api_error" where
  "badManagementRequest message = RequestError 400 message"

text \<open>\<open>url.ParseQuery\<close>: the first error makes the request invalid, so the values read so far do not matter.\<close>

definition hex_value :: "char \<Rightarrow> nat option" where
  "hex_value c = (let n = code c in
     if 48 \<le> n \<and> n \<le> 57 then Some (n - 48) else if 97 \<le> n \<and> n \<le> 102 then Some (n - 87)
     else if 65 \<le> n \<and> n \<le> 70 then Some (n - 55) else None)"

fun QueryUnescape :: "string \<Rightarrow> string option" where
  "QueryUnescape [] = Some []"
| "QueryUnescape (c # s) =
     (if c = CHR 0x25 then (case s of
        a # b # rest \<Rightarrow> (case (hex_value a, hex_value b) of
            (Some x, Some y) \<Rightarrow> map_option (\<lambda>r. char_of (16 * x + y) # r) (QueryUnescape rest)
          | _ \<Rightarrow> None)
      | _ \<Rightarrow> None)
      else map_option (\<lambda>r. (if c = CHR ''+'' then CHR 0x20 else c) # r) (QueryUnescape s))"

definition add_value :: "string \<Rightarrow> string \<Rightarrow> (string \<times> string list) list \<Rightarrow> (string \<times> string list) list" where
  "add_value k v q = AList.update k ((case map_of q k of None \<Rightarrow> [] | Some vs \<Rightarrow> vs) @ [v]) q"

fun parse_pairs :: "string list \<Rightarrow> (string \<times> string list) list \<Rightarrow> (string \<times> string list) list option" where
  "parse_pairs [] q = Some q"
| "parse_pairs (pair # pairs) q =
     (if CHR '';'' \<in> set pair then None
      else if pair = [] then parse_pairs pairs q
      else let (k, v, _) = Cut pair ''='' in
        case (QueryUnescape k, QueryUnescape v) of
          (Some k', Some v') \<Rightarrow> parse_pairs pairs (add_value k' v' q)
        | _ \<Rightarrow> None)"

definition ParseQuery :: "string \<Rightarrow> (string \<times> string list) list option" where
  "ParseQuery raw = parse_pairs (split_on (CHR ''&'') raw) []"

text \<open>The loop over the parameters, in the order of the map's iteration.\<close>

fun check_query :: "string list \<Rightarrow> (string \<times> string list) list \<Rightarrow> unit answer" where
  "check_query allowed [] = Inr ()"
| "check_query allowed ((name, entries) # query) =
     (if name \<notin> set allowed then Inl (badManagementRequest (''unknown query parameter: '' @ name))
      else if length entries \<noteq> 1 then Inl (badManagementRequest (''expected one value for '' @ name))
      else if hd entries = [] then Inl (badManagementRequest (name @ '' must not be empty''))
      else check_query allowed query)"

definition managementQuery :: "string \<Rightarrow> string list \<Rightarrow> (string \<times> string list) list answer" where
  "managementQuery raw allowed = (case ParseQuery raw of
     None \<Rightarrow> Inl (badManagementRequest ''invalid query parameters'')
   | Some query \<Rightarrow> map_sum id (\<lambda>_. query) (check_query allowed query))"

text \<open>\<open>url.Values.Get\<close>.\<close>

definition query_Get :: "(string \<times> string list) list \<Rightarrow> string \<Rightarrow> string" where
  "query_Get query name = (case map_of query name of Some (v # _) \<Rightarrow> v | _ \<Rightarrow> [])"

section \<open>Cursors\<close>

record listCursor =
  cu_Version :: int
  cu_Kind :: string
  cu_GrantID :: string
  cu_AllocationID :: string
  cu_ManifestID :: string
  cu_Seq :: int

text \<open>\<open>json.Marshal\<close> of the cursor: an empty manifest is left out.\<close>

definition cursor_head :: "listCursor \<Rightarrow> string" where
  "cursor_head c = ''{'' @ json_string ''version'' @ '':'' @ int_str (cu_Version c) @ '','' @
     json_string ''kind'' @ '':'' @ json_string (cu_Kind c) @ '','' @
     json_string ''grant_id'' @ '':'' @ json_string (cu_GrantID c) @ '','' @
     json_string ''allocation_id'' @ '':'' @ json_string (cu_AllocationID c) @ '','' @
     (if cu_ManifestID c = [] then [] else json_string ''manifest_id'' @ '':'' @ json_string (cu_ManifestID c) @ '','') @
     json_string ''seq'' @ '':''"

definition cursor_json :: "listCursor \<Rightarrow> string" where
  "cursor_json c = cursor_head c @ int_str (cu_Seq c) @ ''}''"

definition encode :: "listCursor \<Rightarrow> string" where
  "encode c = RawURLEncode (cursor_json c)"

text \<open>The strict decoder also refuses set bits after the last octet: the text must be what the octets encode to.\<close>

definition StrictDecode :: "string \<Rightarrow> string option" where
  "StrictDecode s = (case RawURLDecode s of
     None \<Rightarrow> None
   | Some bs \<Rightarrow> (let octets = map char_of bs in
       if RawURLEncode octets = filter (\<lambda>c. code c \<noteq> 10 \<and> code c \<noteq> 13) s then Some octets else None))"

text \<open>\<open>strconv.ParseUint\<close> in base ten with 64 bits.\<close>

definition ParseUint :: "string \<Rightarrow> nat option" where
  "ParseUint s = (if s \<noteq> [] \<and> all_digits s \<and> dec_val s < 2 ^ 64 then Some (dec_val s) else None)"

section \<open>List requests\<close>

text \<open>
  The strict JSON decoder of the cursor is the parameter \<open>unmarshal\<close>; \<open>None\<close> is its error.  The
  request comes as its parsed and checked query.
\<close>

definition list_limit :: "string \<Rightarrow> int answer" where
  "list_limit raw =
     (if raw = [] then Inr 100
      else case ParseUint raw of
          Some n \<Rightarrow> if n < 1 \<or> 1000 < n then Inl (badManagementRequest ''limit must be an integer from 1 through 1000'') else Inr (int n)
        | None \<Rightarrow> Inl (badManagementRequest ''limit must be an integer from 1 through 1000''))"

definition list_cursor :: "(string \<Rightarrow> listCursor option) \<Rightarrow> string \<Rightarrow> string \<Rightarrow> ListOptions \<Rightarrow> int answer" where
  "list_cursor unmarshal kind raw opts =
     (if raw = [] then Inr 0
      else case Option.bind (StrictDecode raw) unmarshal of
          None \<Rightarrow> Inl (badManagementRequest ''invalid cursor'')
        | Some c \<Rightarrow>
            if cu_Version c \<noteq> 1 \<or> cu_Seq c \<le> 0 then Inl (badManagementRequest ''invalid cursor'')
            else if cu_Kind c \<noteq> kind \<or> cu_GrantID c \<noteq> lo_GrantID opts \<or> cu_AllocationID c \<noteq> lo_AllocationID opts \<or>
              cu_ManifestID c \<noteq> lo_ManifestID opts
            then Inl (badManagementRequest ''cursor does not match resource or filters'')
            else Inr (cu_Seq c))"

definition list_options :: "(string \<Rightarrow> listCursor option) \<Rightarrow> string \<Rightarrow> (string \<times> string list) list \<Rightarrow> ListOptions answer" where
  "list_options unmarshal kind query =
     (let opts = \<lparr>lo_ID = [], lo_GrantID = query_Get query ''grant_id'', lo_AllocationID = query_Get query ''allocation_id'',
        lo_ManifestID = query_Get query ''manifest_id'', lo_Limit = 100, lo_AfterSeq = 0\<rparr> in
      case list_limit (query_Get query ''limit'') of
        Inl e \<Rightarrow> Inl e
      | Inr limit \<Rightarrow> map_sum id (\<lambda>seq. opts\<lparr>lo_Limit := limit, lo_AfterSeq := seq\<rparr>)
          (list_cursor unmarshal kind (query_Get query ''cursor'') opts))"

definition managementListQuery ::
  "(string \<Rightarrow> listCursor option) \<Rightarrow> string \<Rightarrow> string \<Rightarrow> string list \<Rightarrow> ListOptions answer" where
  "managementListQuery unmarshal raw kind filters = (case managementQuery raw ([''limit'', ''cursor''] @ filters) of
     Inl e \<Rightarrow> Inl e
   | Inr query \<Rightarrow> list_options unmarshal kind query)"

section \<open>Pages\<close>

definition row_seq :: "(string \<times> json) list \<Rightarrow> int" where
  "row_seq row = (case map_of row ''seq'' of Some (JInt n) \<Rightarrow> n | _ \<Rightarrow> 0)"

definition page_cursor :: "string \<Rightarrow> ListOptions \<Rightarrow> int \<Rightarrow> listCursor" where
  "page_cursor kind opts seq =
     \<lparr>cu_Version = 1, cu_Kind = kind, cu_GrantID = lo_GrantID opts, cu_AllocationID = lo_AllocationID opts,
      cu_ManifestID = lo_ManifestID opts, cu_Seq = seq\<rparr>"

text \<open>One row more than the limit is read to know whether there is a next page.\<close>

definition managementList ::
  "string \<Rightarrow> ListOptions \<Rightarrow> world \<Rightarrow> ((string \<times> json) list list \<times> string) answer" where
  "managementList kind opts s = (case store_List kind (opts\<lparr>lo_Limit := lo_Limit opts + 1\<rparr>) s of
     Inl e \<Rightarrow> Inl (StoreError e)
   | Inr rows \<Rightarrow>
       let page = take (nat (lo_Limit opts)) rows in
       Inr (map (AList.delete ''seq'') page,
         if nat (lo_Limit opts) < length rows then encode (page_cursor kind opts (row_seq (last page))) else []))"

definition page_json :: "(string \<times> json) list list \<times> string \<Rightarrow> json" where
  "page_json p = (case p of (rows, next) \<Rightarrow> JObject [(''items'', JArray (map JObject rows)), (''next_cursor'', JString next)])"

section \<open>Following the cursors\<close>

text \<open>
  A client that asks for the pages one after the other, with the cursor of each reply in the next
  request: its rows, or the first error; \<open>None\<close> would be a client that never ends.
\<close>

definition continued :: "(string \<times> string list) list \<Rightarrow> string \<Rightarrow> (string \<times> string list) list" where
  "continued query cursor = (if cursor = [] then query else query @ [(''cursor'', [cursor])])"

partial_function (option) crawl ::
  "(string \<Rightarrow> listCursor option) \<Rightarrow> string \<Rightarrow> (string \<times> string list) list \<Rightarrow> world \<Rightarrow> string \<Rightarrow>
   (string \<times> json) list list answer option" where
  "crawl unmarshal kind query s cursor =
     (case list_options unmarshal kind (continued query cursor) of
        Inl e \<Rightarrow> Some (Inl e)
      | Inr opts \<Rightarrow> (case managementList kind opts s of
          Inl e \<Rightarrow> Some (Inl e)
        | Inr page \<Rightarrow>
            if snd page = [] then Some (Inr (fst page))
            else Option.bind (crawl unmarshal kind query s (snd page))
              (\<lambda>r. Some (map_sum id (\<lambda>rows. fst page @ rows) r))))"

lemma query_Get_continued:
  "k \<noteq> ''cursor'' \<Longrightarrow> query_Get (continued query c) k = query_Get query k"
  "map_of query ''cursor'' = None \<Longrightarrow> query_Get (continued query c) ''cursor'' = c"
  by (auto simp: query_Get_def continued_def map_add_def split: option.splits list.splits)

lemma StrictDecode_encode: "StrictDecode (encode c) = Some (cursor_json c)"
proof -
  have "filter (\<lambda>c. code c \<noteq> 10 \<and> code c \<noteq> 13) (RawURLEncode (cursor_json c)) = RawURLEncode (cursor_json c)"
    by (auto simp: filter_id_conv dest!: RawURLEncode_bytes)
  moreover have "map char_of (map code bs) = bs" for bs by (induction bs) (simp_all add: code_def)
  ultimately show ?thesis by (simp add: StrictDecode_def encode_def RawURLDecode_encode Let_def del: map_map)
qed

lemma encode_nonempty: "encode c \<noteq> []"
proof
  assume "encode c = []"
  then have "length (RawURLEncode (cursor_json c)) = 0" by (simp add: encode_def)
  then show False by (simp add: length_RawURLEncode cursor_json_def)
qed

lemma query_Get_nocursor: "map_of query ''cursor'' = None \<Longrightarrow> query_Get query ''cursor'' = []"
  by (simp add: query_Get_def)

lemma list_options_first:
  assumes "list_options unmarshal kind query = Inr opts" "map_of query ''cursor'' = None"
  shows "lo_ID opts = [] \<and> 1 \<le> lo_Limit opts \<and> lo_Limit opts \<le> 1000 \<and> lo_AfterSeq opts = 0"
  using assms by (auto simp: list_options_def list_limit_def list_cursor_def Let_def query_Get_nocursor map_sum_def
      split: sum.splits if_splits option.splits)

lemma list_options_continued:
  assumes "list_options unmarshal kind query = Inr opts" "map_of query ''cursor'' = None" "0 < seq"
    and "unmarshal (cursor_json (page_cursor kind opts seq)) = Some (page_cursor kind opts seq)"
  shows "list_options unmarshal kind (continued query (encode (page_cursor kind opts seq))) = Inr (opts\<lparr>lo_AfterSeq := seq\<rparr>)"
proof -
  obtain limit where l: "list_limit (query_Get query ''limit'') = Inr limit"
    and opts: "opts = \<lparr>lo_ID = [], lo_GrantID = query_Get query ''grant_id'', lo_AllocationID = query_Get query ''allocation_id'',
        lo_ManifestID = query_Get query ''manifest_id'', lo_Limit = limit, lo_AfterSeq = 0\<rparr>"
    using assms(1,2) by (auto simp: list_options_def Let_def query_Get_nocursor list_cursor_def split: sum.splits)
  show ?thesis
    using assms(3,4) encode_nonempty [of "page_cursor kind opts seq"]
    by (simp add: list_options_def list_cursor_def query_Get_continued assms(2) l opts StrictDecode_encode page_cursor_def)
qed

text \<open>The rows of a table stand in the order of their sequence numbers, which start at one.\<close>

lemma numbered_seq: "map lr_seq (numbered rows) = map int [1..<Suc (length rows)]"
  by (rule nth_equalityI) (simp_all add: numbered_def nth_enumerate_eq case_prod_unfold del: upt_Suc)

lemma rows_of_sorted: "sorted_wrt (<) (map lr_seq (rows_of kind s))" "r \<in> set (rows_of kind s) \<Longrightarrow> 0 < lr_seq r"
proof -
  obtain rows where rows: "rows_of kind s = numbered rows" by (auto simp: rows_of_def)
  show "sorted_wrt (<) (map lr_seq (rows_of kind s))"
    unfolding rows numbered_seq by (simp add: sorted_wrt_map sorted_wrt_upt del: upt_Suc)
  show "r \<in> set (rows_of kind s) \<Longrightarrow> 0 < lr_seq r"
  proof -
    assume "r \<in> set (rows_of kind s)"
    then have "lr_seq r \<in> set (map lr_seq (numbered rows))" unfolding rows by simp
    then show "0 < lr_seq r" unfolding numbered_seq by auto
  qed
qed

lemma rows_of_columns: "r \<in> set (rows_of kind s) \<Longrightarrow> ''seq'' \<notin> fst ` set (lr_columns r)"
  by (auto simp: rows_of_def numbered_def grant_line_def allocation_line_def key_line_def session_line_def
      settlement_line_def usage_line_def bare_row_def dest!: in_set_enumerate_eq [THEN iffD1] split: if_splits)

lemma filter_after:
  fixes f :: "'a \<Rightarrow> int"
  assumes "sorted_wrt (<) (map f xs)" "0 < n" "n \<le> length xs"
  shows "filter (\<lambda>x. f (xs ! (n - 1)) < f x) xs = drop n xs"
proof -
  have lt: "f (xs ! i) < f (xs ! j)" if "i < j" "j < length xs" for i j
    using assms(1) that by (simp add: sorted_wrt_map sorted_wrt_iff_nth_less)
  have split: "xs = take n xs @ drop n xs" by simp
  have "filter (\<lambda>x. f (xs ! (n - 1)) < f x) (take n xs) = []"
  proof (rule filter_False, rule ballI)
    fix x assume "x \<in> set (take n xs)"
    then obtain i where i: "i < n" "x = xs ! i" using assms(3) by (auto simp: in_set_conv_nth)
    show "\<not> f (xs ! (n - 1)) < f x"
    proof (cases "i = n - 1")
      case False
      then have "i < n - 1" using i(1) by simp
      moreover have "n - 1 < length xs" using assms(2,3) by simp
      ultimately show ?thesis using lt [of i "n - 1"] i(2) by simp
    qed (simp add: i(2))
  qed
  moreover have "filter (\<lambda>x. f (xs ! (n - 1)) < f x) (drop n xs) = drop n xs"
  proof (rule filter_True, rule ballI)
    fix x assume "x \<in> set (drop n xs)"
    then obtain i where "i < length xs - n" "x = xs ! (n + i)" by (auto simp: in_set_conv_nth)
    then show "f (xs ! (n - 1)) < f x" using lt [of "n - 1" "n + i"] assms(2) by simp
  qed
  ultimately show ?thesis by (subst split) (simp only: filter_append append_Nil)
qed

text \<open>The rows that are still to come after a sequence number.\<close>

definition rows_after :: "string \<Rightarrow> ListOptions \<Rightarrow> world \<Rightarrow> int \<Rightarrow> list_row list" where
  "rows_after kind opts s a = filter (row_matches kind s (opts\<lparr>lo_AfterSeq := a\<rparr>)) (rows_of kind s)"

lemma row_matches_fields:
  "row_matches kind s (opts\<lparr>lo_Limit := n\<rparr>) r = row_matches kind s opts r"
  "row_matches kind s (opts\<lparr>lo_AfterSeq := a\<rparr>) r \<longleftrightarrow>
     (a \<le> 0 \<or> a < lr_seq r) \<and> row_matches kind s (opts\<lparr>lo_AfterSeq := 0\<rparr>) r"
  by (auto simp: row_matches_def row_owned_def owned_def)

lemma rows_after_sorted: "sorted_wrt (<) (map lr_seq (rows_after kind opts s a))"
proof -
  have "sorted_wrt (\<lambda>x y. lr_seq x < lr_seq y) (rows_of kind s)" using rows_of_sorted(1) by (simp add: sorted_wrt_map)
  then show ?thesis by (simp add: rows_after_def sorted_wrt_map sorted_wrt_filter)
qed

lemma rows_after_next:
  assumes "0 \<le> a" "0 < n" "n \<le> length (rows_after kind opts s a)" "b = lr_seq (rows_after kind opts s a ! (n - 1))"
  shows "rows_after kind opts s b = drop n (rows_after kind opts s a)" "a < b \<or> a = 0 \<and> 0 < b"
proof -
  let ?R = "rows_after kind opts s a"
  have mem: "?R ! (n - 1) \<in> set ?R" using assms(2,3) by simp
  then have row: "?R ! (n - 1) \<in> set (rows_of kind s)" "a \<le> 0 \<or> a < b"
    using assms(4) by (auto simp: rows_after_def row_matches_fields(2) [where a = a])
  have "0 < b" using rows_of_sorted(2) [OF row(1)] assms(4) by simp
  then show "a < b \<or> a = 0 \<and> 0 < b" using row(2) assms(1) by auto
  have "rows_after kind opts s b = filter (\<lambda>r. b < lr_seq r) ?R"
    using \<open>0 < b\<close> row(2) assms(1) by (auto simp: rows_after_def row_matches_fields(2) [where a = a] row_matches_fields(2) [where a = b]
        intro!: filter_cong)
  then show "rows_after kind opts s b = drop n ?R"
    using filter_after [OF rows_after_sorted assms(2,3)] assms(4) by simp
qed

lemma page_rows:
  assumes "1 \<le> lo_Limit opts" "lo_ID opts = []" "0 \<le> a" "listQuery_check kind opts = Inr ()"
  shows "managementList kind (opts\<lparr>lo_AfterSeq := a\<rparr>) s =
    (let R = rows_after kind opts s a; n = nat (lo_Limit opts) in
     Inr (map lr_columns (take n R), if n < length R then encode (page_cursor kind opts (lr_seq (R ! (n - 1)))) else []))"
proof -
  let ?R = "rows_after kind opts s a" and ?n = "nat (lo_Limit opts)" and ?o = "opts\<lparr>lo_AfterSeq := a, lo_Limit := lo_Limit opts + 1\<rparr>"
  have chk: "listQuery_check kind ?o = Inr ()" using assms(1,3,4) by (auto simp: listQuery_check_def split: if_splits)
  have rows: "store_List kind ?o s = Inr (map (row_json ?o) (take (Suc ?n) ?R))"
  proof -
    have "nat (lo_Limit opts + 1) = Suc ?n" "0 < lo_Limit opts + 1" using assms(1) by simp_all
    then show ?thesis using assms(2) by (simp add: store_List_def chk limited_def rows_after_def row_matches_fields(1) cong: filter_cong)
  qed
  have json: "AList.delete ''seq'' (row_json ?o r) = lr_columns r" "row_seq (row_json ?o r) = lr_seq r" if "r \<in> set ?R" for r
  proof -
    have "r \<in> set (rows_of kind s)" using that by (simp add: rows_after_def)
    then show "AList.delete ''seq'' (row_json ?o r) = lr_columns r"
      using assms(1) rows_of_columns [of r kind s] by (simp add: row_json_def delete_id)
    show "row_seq (row_json ?o r) = lr_seq r" using assms(1) by (simp add: row_seq_def row_json_def)
  qed
  have page: "take ?n (map (row_json ?o) (take (Suc ?n) ?R)) = map (row_json ?o) (take ?n ?R)"
    by (simp add: take_map min_def)
  have "map (AList.delete ''seq'') (map (row_json ?o) (take ?n ?R)) = map lr_columns (take ?n ?R)"
    using json(1) by (auto dest: in_set_takeD)
  moreover have "row_seq (last (map (row_json ?o) (take ?n ?R))) = lr_seq (?R ! (?n - 1))" if "?n < length ?R"
  proof -
    have n: "0 < ?n" using assms(1) by simp
    then have ne: "take ?n ?R \<noteq> []" using that by auto
    have "last (take ?n ?R) = ?R ! (?n - 1)" using last_conv_nth [OF ne] that n by (simp add: min_def)
    then show ?thesis using json(2) [of "?R ! (?n - 1)"] that n ne by (simp add: last_map)
  qed
  moreover have "?n < length (map (row_json ?o) (take (Suc ?n) ?R)) \<longleftrightarrow> ?n < length ?R" by simp
  ultimately show ?thesis by (simp add: managementList_def rows page Let_def page_cursor_def)
qed

text \<open>The strict decoder reads back the cursors of this list.\<close>

definition cursor_codec :: "(string \<Rightarrow> listCursor option) \<Rightarrow> string \<Rightarrow> ListOptions \<Rightarrow> bool" where
  "cursor_codec unmarshal kind opts \<longleftrightarrow>
     (\<forall>seq > 0. unmarshal (cursor_json (page_cursor kind opts seq)) = Some (page_cursor kind opts seq))"

lemma crawl_from:
  assumes "list_options unmarshal kind query = Inr opts" "map_of query ''cursor'' = None" "cursor_codec unmarshal kind opts"
    and "listQuery_check kind opts = Inr ()"
    and "list_options unmarshal kind (continued query c) = Inr (opts\<lparr>lo_AfterSeq := a\<rparr>)" "0 \<le> a"
  shows "crawl unmarshal kind query s c = Some (Inr (map lr_columns (rows_after kind opts s a)))"
  using assms(5,6)
proof (induction "length (rows_after kind opts s a)" arbitrary: a c rule: less_induct)
  case less
  let ?R = "rows_after kind opts s a" and ?n = "nat (lo_Limit opts)"
  have opts: "lo_ID opts = []" "1 \<le> lo_Limit opts" using list_options_first [OF assms(1,2)] by simp_all
  then have n: "0 < ?n" by simp
  note page = page_rows [OF opts(2,1) less.prems(2) assms(4), of s]
  show ?case
  proof (cases "?n < length ?R")
    case False
    then show ?thesis by (subst crawl.simps) (simp add: less.prems(1) page)
  next
    case True
    let ?b = "lr_seq (?R ! (?n - 1))"
    let ?c = "encode (page_cursor kind opts ?b)"
    note nxt = rows_after_next [OF less.prems(2) n less_imp_le [OF True] refl]
    have b: "0 < ?b" using nxt(2) less.prems(2) by linarith
    have "unmarshal (cursor_json (page_cursor kind opts ?b)) = Some (page_cursor kind opts ?b)"
      using assms(3) b by (simp add: cursor_codec_def)
    from list_options_continued [OF assms(1,2) b this]
    have lo: "list_options unmarshal kind (continued query ?c) = Inr (opts\<lparr>lo_AfterSeq := ?b\<rparr>)" .
    have "length (rows_after kind opts s ?b) < length ?R" unfolding nxt(1) using True n by simp
    from less.hyps [OF this lo] b have rest: "crawl unmarshal kind query s ?c = Some (Inr (map lr_columns (drop ?n ?R)))"
      unfolding nxt(1) by simp
    have "map lr_columns (take ?n ?R) @ map lr_columns (drop ?n ?R) = map lr_columns ?R"
      by (simp add: map_append [symmetric] del: map_append)
    then show ?thesis using True rest
      by (subst crawl.simps) (simp add: less.prems(1) page encode_nonempty Let_def)
  qed
qed

text \<open>
  C33: following the cursors ends, and yields exactly the unlimited list: on an unchanged database a
  client that starts a list with any accepted limit and filters and sends every cursor it gets back
  comes to the last page, having received each matching row once and in order, whatever the limit.
\<close>

theorem crawl_complete:
  assumes "list_options unmarshal kind query = Inr opts" "map_of query ''cursor'' = None"
    and "cursor_codec unmarshal kind opts" "store_List kind (opts\<lparr>lo_Limit := 0\<rparr>) s = Inr rows"
  shows "crawl unmarshal kind query s [] = Some (Inr rows)"
proof -
  have opts: "lo_ID opts = []" "1 \<le> lo_Limit opts" "lo_AfterSeq opts = 0" using list_options_first [OF assms(1,2)] by simp_all
  have "listQuery_check kind (opts\<lparr>lo_Limit := 0\<rparr>) = Inr ()" using assms(4) by (simp add: store_List_def split: sum.splits)
  then have chk: "listQuery_check kind opts = Inr ()" using opts(2) by (auto simp: listQuery_check_def split: if_splits)
  have "rows = map (row_json (opts\<lparr>lo_Limit := 0\<rparr>)) (filter (row_matches kind s (opts\<lparr>lo_Limit := 0\<rparr>)) (rows_of kind s))"
    using assms(4) opts(1) by (simp add: store_List_def limited_def split: sum.splits)
  also have "\<dots> = map lr_columns (rows_after kind opts s 0)"
  proof -
    have "opts\<lparr>lo_AfterSeq := 0\<rparr> = opts" using opts(3) by (cases opts) simp
    then show ?thesis by (simp add: rows_after_def row_matches_fields(1) row_json_def cong: filter_cong)
  qed
  finally have rows: "rows = map lr_columns (rows_after kind opts s 0)" .
  have "list_options unmarshal kind (continued query []) = Inr (opts\<lparr>lo_AfterSeq := 0\<rparr>)"
    using assms(1) opts(3) by (simp add: continued_def)
  from crawl_from [OF assms(1-3) chk this] rows show ?thesis by simp
qed

text \<open>Three grants read two at a time, with a decoder for the cursors of that list.\<close>

definition sample_query :: "(string \<times> string list) list" where
  "sample_query = [(''limit'', [''2''])]"

definition sample_options :: ListOptions where
  "sample_options = \<lparr>lo_ID = [], lo_GrantID = [], lo_AllocationID = [], lo_ManifestID = [], lo_Limit = 2, lo_AfterSeq = 0\<rparr>"

definition sample_unmarshal :: "string \<Rightarrow> listCursor option" where
  "sample_unmarshal s = Some (page_cursor ''grant'' sample_options
     (int (dec_val (takeWhile is_digit (drop (length (cursor_head (page_cursor ''grant'' sample_options 0))) s)))))"

definition sample_grants :: world where
  "sample_grants = sample_ready\<lparr>grants := map (\<lambda>i. (hd (grants sample_ready))\<lparr>g_id := i\<rparr>) [''a'', ''b'', ''c'']\<rparr>"

lemma sample_unmarshal_codec: "cursor_codec sample_unmarshal ''grant'' sample_options"
  unfolding cursor_codec_def
proof (intro allI impI)
  fix seq :: int assume seq: "0 < seq"
  let ?head = "cursor_head (page_cursor ''grant'' sample_options 0)"
  have j: "cursor_json (page_cursor ''grant'' sample_options seq) = ?head @ nat_str (nat seq) @ ''}''"
    using seq by (simp add: cursor_json_def cursor_head_def page_cursor_def int_str_def)
  have "takeWhile is_digit (nat_str (nat seq) @ ''}'') = nat_str (nat seq)"
    using all_digits_nat_str [of "nat seq"] by (subst takeWhile_append2) (auto simp: all_digits_def is_digit_def code_def)
  then have "takeWhile is_digit (drop (length ?head) (cursor_json (page_cursor ''grant'' sample_options seq))) = nat_str (nat seq)"
    unfolding j by simp
  then show "sample_unmarshal (cursor_json (page_cursor ''grant'' sample_options seq)) = Some (page_cursor ''grant'' sample_options seq)"
    using seq by (simp add: sample_unmarshal_def)
qed

lemma crawl_complete_witness:
  "\<exists>rows. crawl sample_unmarshal ''grant'' sample_query sample_grants [] = Some (Inr rows) \<and>
     map (\<lambda>row. map_of row ''id'') rows = map (Some \<circ> JString) [''a'', ''b'', ''c'']"
proof -
  have lo: "list_options sample_unmarshal ''grant'' sample_query = Inr sample_options" by code_simp
  have nc: "map_of sample_query ''cursor'' = None" by (simp add: sample_query_def)
  let ?r = "store_List ''grant'' (sample_options\<lparr>lo_Limit := 0\<rparr>) sample_grants"
  have ids: "case ?r of Inl e \<Rightarrow> False | Inr rows \<Rightarrow> map (\<lambda>row. map_of row ''id'') rows = map (Some \<circ> JString) [''a'', ''b'', ''c'']"
    by code_simp
  then obtain rows where r: "?r = Inr rows" by (cases ?r) auto
  from crawl_complete [OF lo nc sample_unmarshal_codec r] ids r show ?thesis by simp
qed

end
