(* ===== verification/Presentation.thy ===== *)
theory Presentation
  imports Units ServiceAuth
begin

text \<open>
  \<open>internal/app/presentation.go\<close>: store amounts are turned into decimals before a result is encoded.
  The Go values it walks over, maps and slices of any or of strings, are the values of \<open>json\<close>;
  a map is a list of members in the order of its iteration.
\<close>

section \<open>Members that hold amounts\<close>

text \<open>The new name of an amount member, \<open>None\<close> for every other member.\<close>

definition row_currency :: "(string \<times> json) list \<Rightarrow> string" where
  "row_currency row = (case map_of row ''currency'' of Some (JString c) \<Rightarrow> c | _ \<Rightarrow> [])"

definition amount_key :: "(string \<times> json) list \<Rightarrow> string \<Rightarrow> string option result" where
  "amount_key row key =
     (if suffix ''_units'' key then
        (let currency = row_currency row in
         if currency \<noteq> ''usd'' \<and> currency \<noteq> ''eth'' then Inl (PlainError (key @ '' has no valid currency''))
         else Inr (Some (take (length key - 6) key @ ''_'' @ currency)))
      else if suffix ''_wei'' key then Inr (Some (take (length key - 4) key @ ''_eth''))
      else Inr None)"

definition display_amount :: "string \<Rightarrow> json \<Rightarrow> json result" where
  "display_amount key v = (case v of
     JNull \<Rightarrow> Inr JNull
   | JString s \<Rightarrow>
       if s = [] then Inr (JString [])
       else (case UnitsToDecimal s of Inl e \<Rightarrow> Inr (JString ''[error]'') | Inr d \<Rightarrow> Inr (JString d))
   | _ \<Rightarrow> Inl (PlainError (key @ '' is not a string amount'')))"

section \<open>The walk\<close>

fun displayETH_json :: "json \<Rightarrow> json result"
  and display_items :: "json list \<Rightarrow> json list result"
  and display_members :: "(string \<times> json) list \<Rightarrow> (string \<times> json) list \<Rightarrow> (string \<times> json) list \<Rightarrow> (string \<times> json) list result" where
  "displayETH_json (JArray xs) = map_sum id JArray (display_items xs)"
| "displayETH_json (JObject kvs) = map_sum id JObject (display_members kvs kvs [])"
| "displayETH_json JNull = Inr JNull"
| "displayETH_json (JInt n) = Inr (JInt n)"
| "displayETH_json (JString s) = Inr (JString s)"
| "display_items [] = Inr []"
| "display_items (x # xs) = (case displayETH_json x of
     Inl e \<Rightarrow> Inl e | Inr y \<Rightarrow> map_sum id (\<lambda>ys. y # ys) (display_items xs))"
| "display_members row [] out = Inr out"
| "display_members row ((key, v) # kvs) out = (case amount_key row key of
     Inl e \<Rightarrow> Inl e
   | Inr None \<Rightarrow> (case displayETH_json v of Inl e \<Rightarrow> Inl e | Inr w \<Rightarrow> display_members row kvs (AList.update key w out))
   | Inr (Some key') \<Rightarrow> (case display_amount key' v of Inl e \<Rightarrow> Inl e | Inr w \<Rightarrow> display_members row kvs (AList.update key' w out)))"

end
