(* ===== verification/Management.thy ===== *)
theory Management
  imports Paging Presentation
begin

text \<open>
  \<open>internal/app/management.go\<close> and the input helpers of \<open>cli.go\<close>: the management HTTP API, from the
  route table and the permission check over the decoding of the request to the store operation and
  the reply.  Media types, JSON and multipart bodies, RFC 3339 times and the canonical bytes of an
  idempotent request are decoded or encoded by the record \<open>codecs\<close>.
\<close>

section \<open>Input\<close>

datatype decode_failure = TooLarge | Malformed

record codecs =
  ParseMediaType :: "string \<Rightarrow> string option"
  UnmarshalFields :: "string \<Rightarrow> decode_failure + (string \<times> string option) list option"
  ParseMultipartForm :: "http_request \<Rightarrow> decode_failure + ((string \<times> string list) list \<times> bool)"
  ParseRFC3339 :: "string \<Rightarrow> int option"
  MarshalParameters :: "string \<Rightarrow> string \<Rightarrow> string \<Rightarrow> (string \<times> string) list \<Rightarrow> string option"
  UnmarshalCursor :: "string \<Rightarrow> listCursor option"

definition error_text :: "error \<Rightarrow> string" where
  "error_text e = (case e of PlainError m \<Rightarrow> m | InvalidInput m \<Rightarrow> m | StateConflict m \<Rightarrow> m | SqliteError m \<Rightarrow> m
     | ErrNoRows \<Rightarrow> ''sql: no rows in result set'' | _ \<Rightarrow> [])"

text \<open>The amount in units and the currency; \<open>all\<close> is passed through.\<close>

definition inputAmount :: "string \<Rightarrow> string \<Rightarrow> bool \<Rightarrow> bool \<Rightarrow> (string \<times> string) result" where
  "inputAmount usd eth defaultZero allowAll =
     (if usd \<noteq> [] \<and> eth \<noteq> [] then Inl (PlainError ''specify exactly one of amount_usd or amount_eth'')
      else if usd = [] \<and> eth = [] then
        (if \<not> defaultZero then Inl (PlainError ''amount_usd or amount_eth is required'') else Inr (''0'', []))
      else let (v, currency, label) = (if eth \<noteq> [] then (eth, ''eth'', ''ETH'') else (usd, ''usd'', ''USD'')) in
        if v = ''all'' then
          (if allowAll then Inr (v, currency)
           else Inl (PlainError ([CHR 0x27] @ ''all'' @ [CHR 0x27] @ '' is only valid for allocation funding'')))
        else map_sum id (\<lambda>amount. (amount, currency)) (DecimalToUnits v label))"

definition parseTime :: "codecs \<Rightarrow> string \<Rightarrow> int option option" where
  "parseTime cd s = (if s = [] then Some None else map_option Some (ParseRFC3339 cd s))"

definition managementDecodeError :: "decode_failure \<Rightarrow> api_error" where
  "managementDecodeError e = (case e of
     TooLarge \<Rightarrow> RequestError 413 ''request body too large'' | Malformed \<Rightarrow> badManagementRequest ''invalid request body'')"

definition header_Get :: "http_request \<Rightarrow> string \<Rightarrow> string" where
  "header_Get req key = (case Values req key of [] \<Rightarrow> [] | v # _ \<Rightarrow> v)"

definition managementBodyLimit :: nat where
  "managementBodyLimit = 1048576"

text \<open>\<open>ParseForm\<close> reads the limited body and then also the query of the URL.\<close>

definition ParseForm :: "http_request \<Rightarrow> decode_failure + (string \<times> string list) list" where
  "ParseForm req =
     (if managementBodyLimit < length (RequestBody req) then Inl TooLarge
      else case (ParseQuery (RequestBody req), ParseQuery (RawQuery req)) of
          (Some form, Some _) \<Rightarrow> Inr form
        | _ \<Rightarrow> Inl Malformed)"

fun json_fields :: "(string \<times> string option) list \<Rightarrow> (string \<times> string) list answer" where
  "json_fields [] = Inr []"
| "json_fields ((k, None) # raw) = Inl (badManagementRequest (k @ '' must be a string''))"
| "json_fields ((k, Some v) # raw) = map_sum id (\<lambda>r. (k, v) # r) (json_fields raw)"

fun form_fields :: "(string \<times> string list) list \<Rightarrow> (string \<times> string) list answer" where
  "form_fields [] = Inr []"
| "form_fields ((k, entries) # form) =
     (if length entries \<noteq> 1 then Inl (badManagementRequest (''expected one value for '' @ k))
      else map_sum id (\<lambda>r. (k, hd entries) # r) (form_fields form))"

fun known_fields :: "string list \<Rightarrow> (string \<times> string) list \<Rightarrow> unit answer" where
  "known_fields allowed [] = Inr ()"
| "known_fields allowed ((k, v) # values) =
     (if k \<notin> set allowed then Inl (badManagementRequest (''unknown field: '' @ k)) else known_fields allowed values)"

definition decode_fields :: "codecs \<Rightarrow> http_request \<Rightarrow> string \<Rightarrow> (string \<times> string) list answer" where
  "decode_fields cd req mediaType =
     (if mediaType = ''application/json'' then
        (case UnmarshalFields cd (RequestBody req) of
           Inl e \<Rightarrow> Inl (managementDecodeError e)
         | Inr None \<Rightarrow> Inl (badManagementRequest ''expected one JSON object'')
         | Inr (Some raw) \<Rightarrow> json_fields raw)
      else if mediaType = ''application/x-www-form-urlencoded'' then
        (case ParseForm req of Inl e \<Rightarrow> Inl (managementDecodeError e) | Inr form \<Rightarrow> form_fields form)
      else if mediaType = ''multipart/form-data'' then
        (case ParseMultipartForm cd req of
           Inl e \<Rightarrow> Inl (managementDecodeError e)
         | Inr (form, files) \<Rightarrow>
             if files then Inl (badManagementRequest ''file uploads are not supported'') else form_fields form)
      else Inl (RequestError 415 ''expected JSON or form content type''))"

definition managementFields :: "codecs \<Rightarrow> http_request \<Rightarrow> string list \<Rightarrow> (string \<times> string) list answer" where
  "managementFields cd req allowed = (case ParseMediaType cd (header_Get req ''Content-Type'') of
     None \<Rightarrow> Inl (RequestError 415 ''expected JSON or form content type'')
   | Some mediaType \<Rightarrow> (case decode_fields cd req mediaType of
       Inl e \<Rightarrow> Inl e
     | Inr values \<Rightarrow> map_sum id (\<lambda>_. values) (known_fields allowed values)))"

text \<open>A missing member of the map is the empty string.\<close>

definition field :: "(string \<times> string) list \<Rightarrow> string \<Rightarrow> string" where
  "field vals k = (case map_of vals k of None \<Rightarrow> [] | Some v \<Rightarrow> v)"

definition managementIdempotency :: "codecs \<Rightarrow> http_request \<Rightarrow> (string \<times> string) list \<Rightarrow> world \<Rightarrow> Idempotency answer" where
  "managementIdempotency cd req vals s = (case Values req ''Idempotency-Key'' of
     [] \<Rightarrow> Inr \<lparr>Key = [], Fingerprint = replicate 32 (CHR 0x00)\<rparr>
   | [key] \<Rightarrow> (case ValidateIdempotencyKey key of
       Inl e \<Rightarrow> Inl (StoreError e)
     | Inr _ \<Rightarrow> (case MarshalParameters cd (Method req) (Route req) (PathID req) vals of
         None \<Rightarrow> Inl (badManagementRequest ''request fields must be valid UTF-8'')
       | Some parameters \<Rightarrow> Inr \<lparr>Key = key, Fingerprint = sha256 s parameters\<rparr>))
   | _ \<Rightarrow> Inl (badManagementRequest ''expected exactly one Idempotency-Key''))"

section \<open>Replies\<close>

datatype outcome = Value json | Response ManagementResponse

definition json_reply :: "int \<Rightarrow> content \<Rightarrow> reply" where
  "json_reply status c = \<lparr>Code = status, ContentType = ''application/json'', Content = c\<rparr>"

definition error_status :: "api_error \<Rightarrow> int \<times> string" where
  "error_status e = (case e of
     RequestError status message \<Rightarrow> (status, message)
   | StoreError ErrNoRows \<Rightarrow> (404, ''resource not found'')
   | StoreError (InvalidInput m) \<Rightarrow> (400, m)
   | StoreError (StateConflict m) \<Rightarrow> (409, m)
   | StoreError _ \<Rightarrow> (500, ''internal server error''))"

definition managementErrorResponse :: "api_error \<Rightarrow> reply" where
  "managementErrorResponse e = (let (status, message) = error_status e in
     json_reply status (Encoded (JObject [(''error'', JString (TrimSpace message))])))"

definition managementResult :: "int \<Rightarrow> outcome \<Rightarrow> reply" where
  "managementResult status r = (case r of
     Response resp \<Rightarrow> json_reply (ManagementResponse.Status resp) (Bytes (ManagementResponse.Body resp))
   | Value v \<Rightarrow> (case displayETH_json v of
       Inl e \<Rightarrow> managementErrorResponse (StoreError e) | Inr shown \<Rightarrow> json_reply status (Encoded shown)))"

section \<open>The handlers\<close>

type_synonym handler = "http_request \<Rightarrow> world \<Rightarrow> outcome answer \<times> world"

definition andThen :: "'a answer \<Rightarrow> ('a \<Rightarrow> world \<Rightarrow> 'b answer \<times> world) \<Rightarrow> world \<Rightarrow> 'b answer \<times> world" where
  "andThen a f s = (case a of Inl e \<Rightarrow> (Inl e, s) | Inr x \<Rightarrow> f x s)"

definition call :: "(world, 'a) tx \<Rightarrow> ('a \<Rightarrow> outcome) \<Rightarrow> world \<Rightarrow> outcome answer \<times> world" where
  "call m f s = (case m s of (r, s') \<Rightarrow> (map_sum StoreError f r, s'))"

definition bad_input :: "'a result \<Rightarrow> 'a answer" where
  "bad_input r = (case r of Inl e \<Rightarrow> Inl (badManagementRequest (error_text e)) | Inr x \<Rightarrow> Inr x)"

definition bad_time :: "string \<Rightarrow> 'a option \<Rightarrow> 'a answer" where
  "bad_time name t = (case t of None \<Rightarrow> Inl (badManagementRequest (''invalid '' @ name @ '': expected RFC3339'')) | Some x \<Rightarrow> Inr x)"

definition guard :: "bool \<Rightarrow> api_error \<Rightarrow> unit answer" where
  "guard ok e = (if ok then Inr () else Inl e)"

definition string_map :: "(string \<times> string) list \<Rightarrow> outcome" where
  "string_map kvs = Value (JObject (map (\<lambda>(k, v). (k, JString v)) kvs))"

definition list_handler :: "codecs \<Rightarrow> string \<Rightarrow> string list \<Rightarrow> handler" where
  "list_handler cd kind filters req s =
     andThen (managementListQuery (UnmarshalCursor cd) (RawQuery req) kind filters)
       (\<lambda>opts s. (map_sum id (Value \<circ> page_json) (managementList kind opts s), s)) s"

definition item_options :: "string \<Rightarrow> ListOptions" where
  "item_options i = \<lparr>lo_ID = i, lo_GrantID = [], lo_AllocationID = [], lo_ManifestID = [], lo_Limit = 0, lo_AfterSeq = 0\<rparr>"

definition item_handler :: "string \<Rightarrow> handler" where
  "item_handler kind req s = (map_sum StoreError (\<lambda>rows. Value (JObject (hd rows))) (store_List kind (item_options (PathID req)) s), s)"

definition create_fields :: "string list" where
  "create_fields = [''name'', ''amount_usd'', ''amount_eth'', ''sponsor'', ''beneficiary'', ''grant_id'', ''status'', ''metadata'',
     ''starts_at'', ''ends_at'']"

definition create_handler :: "'m library \<Rightarrow> Registry option \<Rightarrow> codecs \<Rightarrow> string \<Rightarrow> string \<Rightarrow> handler" where
  "create_handler lib r cd path kind req =
     andThen (managementFields cd req create_fields) (\<lambda>vals.
     andThen (guard (\<not> (kind = ''grant'' \<and> (field vals ''beneficiary'' \<noteq> [] \<or> field vals ''grant_id'' \<noteq> [])))
       (badManagementRequest ''beneficiary and grant_id are only valid for allocations'')) (\<lambda>_.
     andThen (guard (\<not> (kind = ''allocation'' \<and> (field vals ''sponsor'' \<noteq> [] \<or> field vals ''grant_id'' = [])))
       (badManagementRequest ''allocations require grant_id and do not accept sponsor'')) (\<lambda>_.
     andThen (bad_input (inputAmount (field vals ''amount_usd'') (field vals ''amount_eth'') True (kind = ''allocation''))) (\<lambda>(amount, currency).
     andThen (guard (\<not> (amount \<noteq> ''0'' \<and> Check lib r req ''management'' [path @ ''.fund''] \<noteq> 200)) (RequestError 403 ''Forbidden'')) (\<lambda>_.
     andThen (bad_time ''starts_at'' (parseTime cd (field vals ''starts_at''))) (\<lambda>starts.
     andThen (bad_time ''ends_at'' (parseTime cd (field vals ''ends_at''))) (\<lambda>ends.
       let p = \<lparr>c_Name = field vals ''name'', c_Sponsor = field vals ''sponsor'', c_Beneficiary = field vals ''beneficiary'',
         c_GrantID = field vals ''grant_id'', c_Amount = amount, c_Currency = currency, c_Status = field vals ''status'',
         c_Metadata = field vals ''metadata'', c_Starts = starts, c_Ends = ends\<rparr> in
       if kind = ''allocation''
       then (\<lambda>s. andThen (managementIdempotency cd req vals s) (\<lambda>request. call (CreateAllocationIdempotent p request) Response) s)
       else call (Create_tx kind p) (\<lambda>i. string_map [(''id'', i)]))))))))"

definition fund_handler :: "codecs \<Rightarrow> string \<Rightarrow> handler" where
  "fund_handler cd kind req =
     andThen (managementFields cd req [''amount_usd'', ''amount_eth'']) (\<lambda>vals.
     andThen (bad_input (inputAmount (field vals ''amount_usd'') (field vals ''amount_eth'') False (kind = ''allocation''))) (\<lambda>(amount, currency) s.
       andThen (managementIdempotency cd req vals s) (\<lambda>request.
         call (FundCurrencyIdempotent kind (PathID req) amount currency request) Response) s))"

definition status_handler :: "codecs \<Rightarrow> string \<Rightarrow> handler" where
  "status_handler cd kind req =
     andThen (managementFields cd req [''status'']) (\<lambda>vals.
       let status = field vals ''status'' in
       andThen (guard (\<not> (kind = ''allocation'' \<and> status = ''revoked''))
         (badManagementRequest ''use POST /v1/allocations/{id}/revoke to revoke an allocation'')) (\<lambda>_.
         call (SetStatus kind (PathID req) status) (\<lambda>_. string_map [(''id'', PathID req), (''status'', status)])))"

definition key_handler :: "'m library \<Rightarrow> Registry option \<Rightarrow> codecs \<Rightarrow> handler" where
  "key_handler lib r cd req =
     andThen (managementFields cd req [''allocation_id'', ''grant_id'', ''name'', ''amount_usd'', ''amount_eth'']) (\<lambda>vals.
       let allocation = field vals ''allocation_id''; grant = field vals ''grant_id'';
           usd = field vals ''amount_usd''; eth = field vals ''amount_eth'' in
       andThen (guard ((allocation = []) \<noteq> (grant = [])) (badManagementRequest ''specify exactly one of allocation_id or grant_id'')) (\<lambda>_.
       andThen (guard (\<not> (grant \<noteq> [] \<and> Check lib r req ''management'' [''allocations.create'', ''allocations.fund''] \<noteq> 200))
         (RequestError 403 ''Forbidden'')) (\<lambda>_ s.
       andThen (managementIdempotency cd req vals s) (\<lambda>request.
         if allocation \<noteq> [] then
           andThen (guard (\<not> (usd \<noteq> [] \<or> eth \<noteq> [])) (badManagementRequest ''amount is only valid with grant_id'')) (\<lambda>_.
             call (CreateKeyIdempotent allocation (field vals ''name'') request) Response)
         else
           andThen (bad_input (inputAmount usd eth False True)) (\<lambda>(amount, currency).
             call (CreateKeyForGrantCurrencyIdempotent grant (field vals ''name'') amount currency request) Response)) s)))"

definition revoke_handler :: "string \<Rightarrow> handler" where
  "revoke_handler kind req =
     call (SetStatus kind (PathID req) ''revoked'') (\<lambda>_. string_map [(''id'', PathID req), (''status'', ''revoked'')])"

definition report_handler :: "(world \<Rightarrow> (string \<times> json) list list result) \<Rightarrow> handler" where
  "report_handler f req s = (map_sum StoreError (\<lambda>rows. Value (JArray (map JObject rows))) (f s), s)"

definition report_rows :: "world \<Rightarrow> (string \<times> json) list list result" where
  "report_rows s = map_sum id (map (map (\<lambda>(k, v). (k, JString v)))) (fst (EscrowReport s))"

section \<open>The routes\<close>

text \<open>Pattern, permission, status of success and handler, in the order of registration.\<close>

type_synonym route = "string \<times> string \<times> int \<times> handler"

definition read_routes :: "codecs \<Rightarrow> string \<Rightarrow> string \<Rightarrow> string \<Rightarrow> bool \<Rightarrow> string list \<Rightarrow> route list" where
  "read_routes cd path permission kind item filters =
     (''GET /v1/'' @ path, permission @ ''.read'', 200, list_handler cd kind filters) #
     (if item then [(''GET /v1/'' @ path @ ''/{id}'', permission @ ''.read'', 200, item_handler kind)] else [])"

definition resource_routes :: "'m library \<Rightarrow> Registry option \<Rightarrow> codecs \<Rightarrow> string \<Rightarrow> string \<Rightarrow> route list" where
  "resource_routes lib r cd path kind =
     [(''POST /v1/'' @ path, path @ ''.create'', 201, create_handler lib r cd path kind),
      (''POST /v1/'' @ path @ ''/{id}/fund'', path @ ''.fund'', 200, fund_handler cd kind),
      (''PATCH /v1/'' @ path @ ''/{id}/status'', path @ ''.status'', 200, status_handler cd kind)]"

definition revoke_route :: "string \<Rightarrow> string \<Rightarrow> string \<Rightarrow> route" where
  "revoke_route path permission kind =
     (''POST /v1/'' @ path @ ''/{id}/revoke'', permission @ ''.revoke'', 200, revoke_handler kind)"

definition routes :: "'m library \<Rightarrow> Registry option \<Rightarrow> codecs \<Rightarrow> route list" where
  "routes lib r cd =
     read_routes cd ''grants'' ''grants'' ''grant'' True [] @
     read_routes cd ''allocations'' ''allocations'' ''allocation'' True [''grant_id''] @
     read_routes cd ''api-keys'' ''api_keys'' ''api-key'' True [''grant_id'', ''allocation_id''] @
     read_routes cd ''sessions'' ''sessions'' ''session'' True [''grant_id'', ''allocation_id''] @
     read_routes cd ''settlements'' ''settlements'' ''settlement'' False [''grant_id'', ''allocation_id''] @
     read_routes cd ''usage'' ''usage'' ''usage'' False [''grant_id'', ''allocation_id'', ''manifest_id''] @
     resource_routes lib r cd ''grants'' ''grant'' @ resource_routes lib r cd ''allocations'' ''allocation'' @
     [(''POST /v1/api-keys'', ''api_keys.create'', 201, key_handler lib r cd),
      revoke_route ''allocations'' ''allocations'' ''allocation'', revoke_route ''api-keys'' ''api_keys'' ''api-key'',
      revoke_route ''sessions'' ''sessions'' ''session'',
      (''GET /v1/ledger/report'', ''ledger.read'', 200, report_handler Report),
      (''GET /v1/escrow/report'', ''escrow.read'', 200, report_handler report_rows),
      (''GET /v1/escrow/activity'', ''escrow.read'', 200, report_handler (\<lambda>s. Inr (EscrowActivity s)))]"

text \<open>The route that the multiplexer matched is part of the request; \<open>ready\<close> is the state of the process and its database.\<close>

definition managementHandler ::
  "'m library \<Rightarrow> Registry option \<Rightarrow> codecs \<Rightarrow> bool \<Rightarrow> http_request \<Rightarrow> world \<Rightarrow> reply \<times> world" where
  "managementHandler lib r cd ready req s =
     (if Route req = ''GET /livez'' then (\<lparr>Code = 200, ContentType = [], Content = Bytes []\<rparr>, s)
      else if Route req = ''GET /readyz'' then
        (if ready then \<lparr>Code = 200, ContentType = [], Content = Bytes []\<rparr> else http_error ''not ready'' 503, s)
      else case map_of (routes lib r cd) (Route req) of
          None \<Rightarrow> (http_error ''404 page not found'' 404, s)
        | Some (permission, status, fn) \<Rightarrow> (case Require lib r req ''management'' [permission] of
            Some refusal \<Rightarrow> (refusal, s)
          | None \<Rightarrow> (case fn req s of
              (Inl e, s') \<Rightarrow> (managementErrorResponse e, s')
            | (Inr result, s') \<Rightarrow> (managementResult status result, s'))))"

end
