(* ===== verification/Privilege.thy ===== *)
theory Privilege
  imports Management
begin

text \<open>
  What a management request may change: every table that a request of the management API has
  changed when it returns is one for which the credential of the request has a permission.
\<close>

section \<open>What the permissions allow\<close>

definition money_views :: "world \<Rightarrow> ledger_transaction list \<times> ledger_entry list \<times> ((account \<times> string \<times> string) \<times> string) list" where
  "money_views s = (ledger_transactions s, ledger_entries s, account_balances s)"

definition summary_views ::
  "world \<Rightarrow> ((string \<times> string) \<times> string) list \<times> ((string \<times> string \<times> string) \<times> int) list \<times> ((account \<times> string \<times> string) \<times> string \<times> string) list" where
  "summary_views s = (metric_amounts s, metric_counts s, metric_balances s)"

definition permits :: "(string \<Rightarrow> bool) \<Rightarrow> world \<Rightarrow> world \<Rightarrow> bool" where
  "permits can s s' \<longleftrightarrow>
     (grants s' = grants s \<or> can ''grants.create'' \<or> can ''grants.fund'' \<or> can ''grants.status'') \<and>
     (allocations s' = allocations s \<or> can ''allocations.create'' \<or> can ''allocations.fund'' \<or> can ''allocations.status'' \<or>
        can ''allocations.revoke'') \<and>
     (api_keys s' = api_keys s \<or> can ''api_keys.create'' \<or> can ''api_keys.revoke'') \<and>
     (sessions s' = sessions s \<or> can ''sessions.revoke'') \<and>
     (money_views s' = money_views s \<or> can ''grants.fund'' \<or> can ''allocations.fund'' \<or> can ''allocations.revoke'') \<and>
     (summary_views s' = summary_views s \<or> can ''grants.create'' \<or> can ''grants.fund'' \<or> can ''grants.status'' \<or>
        can ''allocations.create'' \<or> can ''allocations.fund'' \<or> can ''allocations.status'' \<or> can ''allocations.revoke'') \<and>
     (management_idempotency s' = management_idempotency s \<or> can ''allocations.create'' \<or> can ''allocations.fund'' \<or>
        can ''grants.fund'' \<or> can ''api_keys.create'') \<and>
     usage_events s' = usage_events s \<and> signing_authorizations s' = signing_authorizations s \<and> settlements s' = settlements s \<and>
     escrow_snapshots s' = escrow_snapshots s \<and> ticket_broker_events s' = ticket_broker_events s \<and>
     ingestion_checkpoints s' = ingestion_checkpoints s \<and> chain_blocks s' = chain_blocks s \<and> kafka_lags s' = kafka_lags s"

lemma changed_or: "y = x \<or> c \<Longrightarrow> z = y \<or> c \<Longrightarrow> z = x \<or> c"
  by blast

lemma permits_trans: "permits can s t \<Longrightarrow> permits can t u \<Longrightarrow> permits can s u"
  unfolding permits_def by (elim conjE, intro conjI) ((rule changed_or, assumption, assumption) | (rule trans, assumption, assumption))+

interpretation permit: preorder_frame "permits can" for can
  by unfold_locales (simp add: permits_def, rule permits_trans)

lemma permits_fields:
  "permits can s (s\<lparr>tick := n\<rparr>)"
  "can ''grants.create'' \<or> can ''grants.fund'' \<or> can ''grants.status'' \<Longrightarrow> permits can s (s\<lparr>grants := g\<rparr>)"
  "can ''allocations.create'' \<or> can ''allocations.fund'' \<or> can ''allocations.status'' \<or> can ''allocations.revoke'' \<Longrightarrow>
    permits can s (s\<lparr>allocations := a\<rparr>)"
  "can ''api_keys.create'' \<or> can ''api_keys.revoke'' \<Longrightarrow> permits can s (s\<lparr>api_keys := k\<rparr>)"
  "can ''sessions.revoke'' \<Longrightarrow> permits can s (s\<lparr>sessions := e\<rparr>)"
  "can ''allocations.create'' \<or> can ''allocations.fund'' \<or> can ''grants.fund'' \<or> can ''api_keys.create'' \<Longrightarrow>
    permits can s (s\<lparr>management_idempotency := i\<rparr>)"
  by (simp_all add: permits_def money_views_def summary_views_def)

definition manages :: "(string \<Rightarrow> bool) \<Rightarrow> bool" where
  "manages can \<longleftrightarrow> can ''grants.create'' \<or> can ''grants.fund'' \<or> can ''grants.status'' \<or>
     can ''allocations.create'' \<or> can ''allocations.fund'' \<or> can ''allocations.status'' \<or> can ''allocations.revoke''"

definition moves_money :: "(string \<Rightarrow> bool) \<Rightarrow> bool" where
  "moves_money can \<longleftrightarrow> can ''grants.fund'' \<or> can ''allocations.fund'' \<or> can ''allocations.revoke''"

lemma permits_nonledger:
  assumes "nonledger s' = nonledger s" "money_views s' = money_views s \<or> moves_money can" "manages can"
  shows "permits can s s'"
  using nonledger_fields [OF assms(1)] assms(2,3) by (auto simp: permits_def moves_money_def manages_def)

lemma within_inventory: "manages can \<Longrightarrow> within (permits can) (changeInventory kind cur old new)"
proof (rule withinI)
  fix s x s' assume m: "manages can" and r: "changeInventory kind cur old new s = (Inr x, s')"
  note f = nonmetric_fields [OF changeInventory_frame [OF r]]
  show "permits can s s'" by (rule permits_nonledger) (use f m in \<open>simp_all add: money_views_def\<close>)
qed

lemma within_transfer: "moves_money can \<Longrightarrow> within (permits can) (TransferCurrency key rsn rt ri d di c ci cur n)"
proof (rule withinI)
  fix s x s' assume m: "moves_money can" and r: "TransferCurrency key rsn rt ri d di c ci cur n s = (Inr x, s')"
  from m have "manages can" by (auto simp: moves_money_def manages_def)
  then show "permits can s s'" using TransferCurrency_basic [OF r] m by (intro permits_nonledger) simp_all
qed

lemma within_transfer_zero: "within (permits can) (TransferCurrency key rsn rt ri d di c ci cur 0)"
  by (auto intro!: withinI permit.R_refl simp: TransferCurrency_def split: if_splits)

lemma within_balance: "within (permits can) (BalanceCurrency acct owner cur)"
  by (auto intro!: withinI permit.R_refl simp: BalanceCurrency_Inr)

lemmas permit_intros = permit.within_intros within_inventory within_transfer within_transfer_zero within_balance within_sql_write
  within_modify within_ID within_NowMs within_rand_read within_select_row permits_fields permit.R_refl

section \<open>The store operations\<close>

lemma Amount_zero: "Amount ''0'' = Inr 0"
  by code_simp

lemma bindE_liftE_Inr [simp]: "bindE (liftE (Inr x)) f = f x"
  by (rule ext) (simp add: bindE_def liftE_simp)

lemma createGrant_permits:
  assumes "can ''grants.create''" "c_Amount p \<noteq> ''0'' \<Longrightarrow> can ''grants.fund''"
  shows "within (permits can) (createGrant p)"
proof (cases "c_Amount p = ''0''")
  case True
  then show ?thesis unfolding createGrant_def insert_grant_def Let_def Amount_zero True bindE_liftE_Inr
    by (intro permit_intros) (simp_all add: assms(1) manages_def)
next
  case False
  then show ?thesis unfolding createGrant_def insert_grant_def Let_def
    by (intro permit_intros) (simp_all add: assms manages_def moves_money_def)
qed

lemma createAllocation_permits:
  assumes "can ''allocations.create''" "c_Amount p \<noteq> ''0'' \<Longrightarrow> can ''allocations.fund''"
  shows "within (permits can) (createAllocation p)"
proof (cases "c_Amount p = ''0''")
  case True
  have z: "allocationAmount ''0'' b = Inr 0" for b by (simp add: allocationAmount_def Amount_zero)
  show ?thesis unfolding createAllocation_def insert_allocation_def Let_def True z bindE_liftE_Inr
    by (intro permit_intros) (simp_all add: assms(1) manages_def)
next
  case False
  then show ?thesis unfolding createAllocation_def insert_allocation_def Let_def
    by (intro permit_intros) (simp_all add: assms manages_def moves_money_def)
qed

lemma fundCurrency_permits:
  "can ''grants.fund'' \<Longrightarrow> within (permits can) (fundCurrency ''grant'' i amount currency)"
  "can ''allocations.fund'' \<Longrightarrow> within (permits can) (fundCurrency ''allocation'' i amount currency)"
proof -
  show "can ''grants.fund'' \<Longrightarrow> within (permits can) (fundCurrency ''grant'' i amount currency)"
    unfolding fundCurrency_def fundGrant_def update_grant_total_def Let_def
    by simp (intro permit_intros; simp add: manages_def moves_money_def)
  show "can ''allocations.fund'' \<Longrightarrow> within (permits can) (fundCurrency ''allocation'' i amount currency)"
    unfolding fundCurrency_def fundAllocation_def update_allocation_def Let_def
    by simp (intro permit_intros; simp add: manages_def moves_money_def)
qed

lemma setGrantStatus_permits: "can ''grants.status'' \<Longrightarrow> within (permits can) (setGrantStatus i status)"
  unfolding setGrantStatus_def by (intro permit_intros) (simp_all add: manages_def)

lemma setAllocationStatus_permits:
  "can ''allocations.revoke'' \<or> can ''allocations.status'' \<and> status \<noteq> ''revoked'' \<Longrightarrow>
    within (permits can) (setAllocationStatus i status)"
proof (elim disjE conjE)
  assume "can ''allocations.revoke''"
  then show ?thesis unfolding setAllocationStatus_def returnUnused_def update_allocation_def Let_def
    by (intro permit_intros) (simp_all add: manages_def moves_money_def)
next
  assume a: "can ''allocations.status''" "status \<noteq> ''revoked''"
  have u: "returnUnused i x status b = ret (a_allocated_units x)" for x b using a(2) by (simp add: returnUnused_def)
  show ?thesis unfolding setAllocationStatus_def u update_allocation_def Let_def
    by (intro permit_intros) (simp_all add: a(1) manages_def)
qed

lemma revoke_permits:
  "can ''api_keys.revoke'' \<Longrightarrow> within (permits can) (revokeKey i)"
  "can ''sessions.revoke'' \<Longrightarrow> within (permits can) (revokeSession i)"
  unfolding revokeKey_def revokeSession_def affected_def by (intro permit_intros; simp)+

lemma createKey_permits: "can ''api_keys.create'' \<Longrightarrow> within (permits can) (createKey allocation name)"
  unfolding createKey_def newKeyRecord_def insertKey_def insert_api_key_def Let_def by (intro permit_intros) simp_all

lemma createKeyForGrant_permits:
  "can ''api_keys.create'' \<Longrightarrow> can ''allocations.create'' \<Longrightarrow> can ''allocations.fund'' \<Longrightarrow> within (permits can) (createKeyForGrant p)"
  unfolding createKeyForGrant_def by (intro permit_intros createAllocation_permits createKey_permits)

section \<open>Requests, successful or not\<close>

text \<open>\<open>effect can m\<close>: whatever \<open>m\<close> returns, it leaves everything alone that \<open>can\<close> does not allow.\<close>

definition effect :: "(string \<Rightarrow> bool) \<Rightarrow> (world \<Rightarrow> 'b \<times> world) \<Rightarrow> bool" where
  "effect can m \<longleftrightarrow> (\<forall>s. permits can s (snd (m s)))"

lemma effectD: "effect can m \<Longrightarrow> m s = (r, s') \<Longrightarrow> permits can s s'"
  by (metis effect_def snd_conv)

lemma effect_Write: "within (permits can) m \<Longrightarrow> effect can (Write m)"
proof (unfold effect_def, intro allI)
  fix s assume w: "within (permits can) m"
  show "permits can s (snd (Write m s))"
  proof (cases "m s")
    case (Pair r t)
    then show ?thesis
      by (cases r) (simp_all add: Write_def rollback_def permits_fields(1) withinD [OF w])
  qed
qed

lemma effect_same: "effect can (\<lambda>s. (f s, s))" "effect can (fail e)"
  by (simp_all add: effect_def permit.R_refl)

lemma effect_bindE_liftE: "(\<And>x. r = Inr x \<Longrightarrow> effect can (f x)) \<Longrightarrow> effect can (bindE (liftE r) f)"
  by (cases r) (simp_all add: effect_def bindE_def liftE_simp permit.R_refl)

lemma effect_if: "(c \<Longrightarrow> effect can m) \<Longrightarrow> (\<not> c \<Longrightarrow> effect can k) \<Longrightarrow> effect can (if c then m else k)"
  by simp

lemma effect_andThen: "(\<And>x. a = Inr x \<Longrightarrow> effect can (f x)) \<Longrightarrow> effect can (andThen a f)"
  by (cases a) (simp_all add: effect_def andThen_def permit.R_refl)

lemma effect_andThen_state: "(\<And>x s. a s = Inr x \<Longrightarrow> effect can (f x)) \<Longrightarrow> effect can (\<lambda>s. andThen (a s) f s)"
proof (unfold effect_def, intro allI)
  fix s assume f: "\<And>x s. a s = Inr x \<Longrightarrow> \<forall>t. permits can t (snd (f x t))"
  show "permits can s (snd (andThen (a s) f s))"
    by (cases "a s") (use f in \<open>auto simp: andThen_def permit.R_refl\<close>)
qed

lemma effect_call: "effect can m \<Longrightarrow> effect can (call m f)"
  by (simp add: effect_def call_def case_prod_unfold)

lemma effect_writeIdempotent: "within (permits can) mutate \<Longrightarrow>
    can ''allocations.create'' \<or> can ''allocations.fund'' \<or> can ''grants.fund'' \<or> can ''api_keys.create'' \<Longrightarrow>
    effect can (writeIdempotent kind i status request mutate)"
  unfolding writeIdempotent_def scope_grant_def execute_def replay_def insert_idempotency_def Let_def
  by (intro effect_bindE_liftE effect_Write permit_intros)

lemmas effect_intros = effect_same effect_if effect_andThen effect_andThen_state effect_call effect_bindE_liftE effect_Write
  effect_writeIdempotent

lemma SetStatus_effect:
  "can ''grants.status'' \<Longrightarrow> effect can (SetStatus ''grant'' i status)"
  "can ''allocations.revoke'' \<or> can ''allocations.status'' \<and> status \<noteq> ''revoked'' \<Longrightarrow> effect can (SetStatus ''allocation'' i status)"
  "can ''api_keys.revoke'' \<Longrightarrow> effect can (SetStatus ''api-key'' i status)"
  "can ''sessions.revoke'' \<Longrightarrow> effect can (SetStatus ''session'' i status)"
  unfolding SetStatus_def
  by (simp_all add: effect_Write setGrantStatus_permits setAllocationStatus_permits revoke_permits)

lemma create_effect:
  "can ''grants.create'' \<Longrightarrow> (c_Amount p \<noteq> ''0'' \<Longrightarrow> can ''grants.fund'') \<Longrightarrow> effect can (Create_tx ''grant'' p)"
  "can ''allocations.create'' \<Longrightarrow> (c_Amount p \<noteq> ''0'' \<Longrightarrow> can ''allocations.fund'') \<Longrightarrow>
    effect can (CreateAllocationIdempotent p request)"
  unfolding Create_tx_def CreateAllocationIdempotent_def
  by simp_all (intro effect_intros permit_intros createGrant_permits createAllocation_permits; simp)+

lemma fund_effect:
  "can ''grants.fund'' \<Longrightarrow> effect can (FundCurrencyIdempotent ''grant'' i amount currency request)"
  "can ''allocations.fund'' \<Longrightarrow> effect can (FundCurrencyIdempotent ''allocation'' i amount currency request)"
  unfolding FundCurrencyIdempotent_def
  by (intro effect_intros permit_intros fundCurrency_permits; simp)+

lemma key_effect:
  "can ''api_keys.create'' \<Longrightarrow> effect can (CreateKeyIdempotent allocation name request)"
  "can ''api_keys.create'' \<Longrightarrow> can ''allocations.create'' \<Longrightarrow> can ''allocations.fund'' \<Longrightarrow>
    effect can (CreateKeyForGrantCurrencyIdempotent grant name amount currency request)"
  unfolding CreateKeyIdempotent_def CreateKeyForGrantCurrencyIdempotent_def Let_def
  by (intro effect_intros permit_intros createKey_permits createKeyForGrant_permits; simp)+

section \<open>The handlers\<close>

text \<open>The permissions of a request: what the registry says to each of them alone.\<close>

definition may :: "'m library \<Rightarrow> Registry option \<Rightarrow> http_request \<Rightarrow> string \<Rightarrow> bool" where
  "may lib r req q \<longleftrightarrow> Check lib r req ''management'' [q] = 200"

lemma Check_each: "Check lib r req i ps = 200 \<Longrightarrow> q \<in> set ps \<Longrightarrow> Check lib r req i [q] = 200"
  by (auto simp: Check_def split: option.splits list.splits if_splits)

lemma read_effect:
  "effect can (list_handler cd kind filters req)" "effect can (item_handler kind req)" "effect can (report_handler f req)"
proof -
  show "effect can (list_handler cd kind filters req)"
    unfolding list_handler_def [abs_def] by (rule effect_andThen) (rule effect_same)
  show "effect can (item_handler kind req)" "effect can (report_handler f req)"
    unfolding item_handler_def [abs_def] report_handler_def [abs_def] by (rule effect_same)+
qed

lemma guarded_Inr: "guard ok e = Inr x \<longleftrightarrow> ok"
  by (simp add: guard_def)

lemma create_handler_effect:
  "may lib r req ''grants.create'' \<Longrightarrow> effect (may lib r req) (create_handler lib r cd ''grants'' ''grant'' req)"
  "may lib r req ''allocations.create'' \<Longrightarrow> effect (may lib r req) (create_handler lib r cd ''allocations'' ''allocation'' req)"
  unfolding create_handler_def Let_def case_prod_unfold
  by ((intro effect_intros create_effect; (clarsimp simp: guarded_Inr may_def)?) | simp)+

lemma fund_handler_effect:
  "may lib r req ''grants.fund'' \<Longrightarrow> effect (may lib r req) (fund_handler cd ''grant'' req)"
  "may lib r req ''allocations.fund'' \<Longrightarrow> effect (may lib r req) (fund_handler cd ''allocation'' req)"
  unfolding fund_handler_def case_prod_unfold by (intro effect_intros fund_effect; simp)+

lemma status_handler_effect:
  "may lib r req ''grants.status'' \<Longrightarrow> effect (may lib r req) (status_handler cd ''grant'' req)"
  "may lib r req ''allocations.status'' \<Longrightarrow> effect (may lib r req) (status_handler cd ''allocation'' req)"
  unfolding status_handler_def Let_def by (intro effect_intros SetStatus_effect; simp add: guarded_Inr)+

lemma revoke_handler_effect:
  "may lib r req ''allocations.revoke'' \<Longrightarrow> effect (may lib r req) (revoke_handler ''allocation'' req)"
  "may lib r req ''api_keys.revoke'' \<Longrightarrow> effect (may lib r req) (revoke_handler ''api-key'' req)"
  "may lib r req ''sessions.revoke'' \<Longrightarrow> effect (may lib r req) (revoke_handler ''session'' req)"
  unfolding revoke_handler_def by (intro effect_intros SetStatus_effect; simp)+

lemma key_handler_effect:
  assumes "may lib r req ''api_keys.create''"
  shows "effect (may lib r req) (key_handler lib r cd req)"
proof -
  have both: "may lib r req ''allocations.create'' \<and> may lib r req ''allocations.fund''"
    if "Check lib r req ''management'' [''allocations.create'', ''allocations.fund''] = 200"
    using Check_each [OF that] by (simp add: may_def)
  show ?thesis
    unfolding key_handler_def Let_def case_prod_unfold
    by (intro effect_intros key_effect) (use assms both in \<open>auto simp: guarded_Inr\<close>)
qed

lemma read_routes_effect:
  "(pattern, permission, status, fn) \<in> set (read_routes cd path name kind item filters) \<Longrightarrow> effect can (fn req)"
  by (auto simp: read_routes_def read_effect split: if_splits)

lemma resource_routes_effect:
  "(pattern, permission, status, fn) \<in> set (resource_routes lib r cd ''grants'' ''grant'') \<Longrightarrow>
    may lib r req permission \<Longrightarrow> effect (may lib r req) (fn req)"
  "(pattern, permission, status, fn) \<in> set (resource_routes lib r cd ''allocations'' ''allocation'') \<Longrightarrow>
    may lib r req permission \<Longrightarrow> effect (may lib r req) (fn req)"
  by (auto simp: resource_routes_def create_handler_effect fund_handler_effect status_handler_effect)

lemma other_routes_effect:
  "(pattern, permission, status, fn) \<in> set [(''POST /v1/api-keys'', ''api_keys.create'', 201, key_handler lib r cd),
      revoke_route ''allocations'' ''allocations'' ''allocation'', revoke_route ''api-keys'' ''api_keys'' ''api-key'',
      revoke_route ''sessions'' ''sessions'' ''session'',
      (''GET /v1/ledger/report'', ''ledger.read'', 200, report_handler Report),
      (''GET /v1/escrow/report'', ''escrow.read'', 200, report_handler report_rows),
      (''GET /v1/escrow/activity'', ''escrow.read'', 200, report_handler (\<lambda>s. Inr (EscrowActivity s)))] \<Longrightarrow>
    may lib r req permission \<Longrightarrow> effect (may lib r req) (fn req)"
  by (auto simp: revoke_route_def key_handler_effect revoke_handler_effect read_effect)

lemma route_effect:
  assumes "(pattern, permission, status, fn) \<in> set (routes lib r cd)" "may lib r req permission"
  shows "effect (may lib r req) (fn req)"
  using assms(1) unfolding routes_def set_append Un_iff
  by (elim disjE) (erule read_routes_effect [where fn = fn and req = req] resource_routes_effect [where fn = fn, OF _ assms(2)]
      other_routes_effect [where fn = fn, OF _ assms(2)])+

section \<open>The property\<close>

text \<open>
  C34: the management API has least privilege: whatever the request and however it ends, every table
  that has changed is one that the credential of the request has a permission for: grants, allocations,
  keys and sessions need a permission of that resource, postings and balances need the permission to
  fund or to revoke an allocation, stored responses and summaries follow, and no request changes
  usage, settlements, escrow, checkpoints or the lag.  Without a credential nothing changes.
\<close>

theorem management_least_privilege:
  assumes "managementHandler lib r cd ready req s = (answer, s')"
  shows "permits (\<lambda>q. Check lib r req ''management'' [q] = 200) s s'"
proof -
  have can: "(\<lambda>q. Check lib r req ''management'' [q] = 200) = may lib r req" by (simp add: may_def [abs_def])
  show ?thesis
  proof (cases "s' = s")
    case True
    then show ?thesis by (simp add: permit.R_refl)
  next
    case False
    then obtain permission status fn where route: "map_of (routes lib r cd) (Route req) = Some (permission, status, fn)"
      and require: "Require lib r req ''management'' [permission] = None" and run: "snd (fn req s) = s'"
      using assms by (auto simp: managementHandler_def split: if_splits option.splits prod.splits sum.splits)
    have "may lib r req permission" using require by (simp add: Require_def may_def Let_def split: if_splits)
    from route_effect [OF map_of_SomeD [OF route] this] run show ?thesis by (auto simp: can effect_def)
  qed
qed

text \<open>A manager pauses a grant through a form.\<close>

definition sample_codecs :: codecs where
  "sample_codecs = \<lparr>ParseMediaType = Some, UnmarshalFields = (\<lambda>b. Inr None), ParseMultipartForm = (\<lambda>r. Inl Malformed),
     ParseRFC3339 = (\<lambda>t. None), MarshalParameters = (\<lambda>a b c d. Some (a @ b @ c)), UnmarshalCursor = (\<lambda>t. None)\<rparr>"

definition sample_pause :: http_request where
  "sample_pause = (sample_request ''s1'')\<lparr>Method := ''PATCH'', Route := ''PATCH /v1/grants/{id}/status'', PathID := sample_grant_id,
     Header := [(token_header, [''s1'']), (''Content-Type'', [''application/x-www-form-urlencoded''])], RequestBody := ''status=paused''\<rparr>"

lemma sample_pause_run:
  "managementHandler sample_library (Some sample_registry) sample_codecs True sample_pause sample_ready =
     (json_reply 200 (Encoded (JObject [(''id'', JString sample_grant_id), (''status'', JString ''paused'')])),
      snd (SetStatus ''grant'' sample_grant_id ''paused'' sample_ready))"
proof -
  have route: "map_of (routes sample_library (Some sample_registry) sample_codecs) (Route sample_pause) =
      Some (''grants.status'', 200, status_handler sample_codecs ''grant'')"
    by (simp add: sample_pause_def routes_def read_routes_def resource_routes_def revoke_route_def)
  have "Require sample_library (Some sample_registry) sample_pause ''management'' [''grants.status''] = None" by code_simp
  moreover have vals: "managementFields sample_codecs sample_pause [''status''] = Inr [(''status'', ''paused'')]" by code_simp
  have "\<not> isl (fst (SetStatus ''grant'' sample_grant_id ''paused'' sample_ready))" by code_simp
  then have "status_handler sample_codecs ''grant'' sample_pause sample_ready =
      (Inr (string_map [(''id'', sample_grant_id), (''status'', ''paused'')]), snd (SetStatus ''grant'' sample_grant_id ''paused'' sample_ready))"
    unfolding status_handler_def vals andThen_def
    by (auto simp: field_def guard_def call_def sample_pause_def map_sum_def Let_def split: prod.splits sum.splits)
  moreover have "managementResult 200 (string_map [(''id'', sample_grant_id), (''status'', ''paused'')]) =
      json_reply 200 (Encoded (JObject [(''id'', JString sample_grant_id), (''status'', JString ''paused'')]))" by code_simp
  moreover have "Route sample_pause \<noteq> ''GET /livez''" "Route sample_pause \<noteq> ''GET /readyz''" by (simp_all add: sample_pause_def)
  ultimately show ?thesis using route by (simp add: managementHandler_def)
qed

lemma management_least_privilege_witness:
  "\<exists>s'. managementHandler sample_library (Some sample_registry) sample_codecs True sample_pause sample_ready =
       (json_reply 200 (Encoded (JObject [(''id'', JString sample_grant_id), (''status'', JString ''paused'')])), s') \<and>
     allocations s' = allocations sample_ready \<and> sessions s' = sessions sample_ready"
proof -
  let ?s = "snd (SetStatus ''grant'' sample_grant_id ''paused'' sample_ready)"
  have no: "\<forall>q \<in> set [''allocations.create'', ''allocations.fund'', ''allocations.status'', ''allocations.revoke'', ''sessions.revoke''].
      Check sample_library (Some sample_registry) sample_pause ''management'' [q] \<noteq> 200" by code_simp
  have "permits (\<lambda>q. Check sample_library (Some sample_registry) sample_pause ''management'' [q] = 200) sample_ready ?s"
    by (rule management_least_privilege [OF sample_pause_run])
  then have "allocations ?s = allocations sample_ready" "sessions ?s = sessions sample_ready" using no by (simp_all add: permits_def)
  then show ?thesis using sample_pause_run by blast
qed

end
