(* ===== verification/Backfill.thy ===== *)
theory Backfill
  imports Reorg Idempotency
begin

text \<open>
  \<open>migrations/metric_amounts.go\<close>: the sums of the monetary summaries, recomputed from the balances, the
  tracked escrow accounts and the settled redemptions, and the invariant \<open>summarised\<close> under which
  that recomputation changes nothing.
\<close>

section \<open>The recomputation\<close>

text \<open>Name, currency, value and paid amount: the rows of the query.\<close>

type_synonym metric_row = "string \<times> string \<times> string \<times> string"

definition counted :: "allocation list \<Rightarrow> account \<times> string \<times> string \<Rightarrow> bool" where
  "counted as k \<longleftrightarrow> (case k of (t, i, c) \<Rightarrow>
     t = GrantUnallocated \<or> (t = AllocationAvailable \<or> t = AllocationSpent) \<and> allocation_account as i c)"

definition is_escrow :: "account \<Rightarrow> bool" where
  "is_escrow t \<longleftrightarrow> t = EscrowDeposit \<or> t = EscrowReserve"

definition metric_rows :: "world \<Rightarrow> metric_row list" where
  "metric_rows s =
     map (\<lambda>((t, i, c), v). (account_name t, c, v, [])) (filter (\<lambda>(k, v). counted (allocations s) k) (account_balances s)) @
     map (\<lambda>((t, src, c), o', v). (account_name t, c, v, [])) (filter (\<lambda>((t, src, c), o', v). is_escrow t) (metric_balances s)) @
     map (\<lambda>r. (''settlement'', ''eth'', st_face r, st_paid r)) (filter (\<lambda>r. st_status r = ''settled'') (settlements s))"

type_synonym totals = "((string \<times> string) \<times> int) list"

definition add_total :: "string \<Rightarrow> string \<Rightarrow> int \<Rightarrow> totals \<Rightarrow> totals" where
  "add_total name currency n totals = AList.update (name, currency) (tget id totals (name, currency) + n) totals"

definition invalid_amount :: "string \<Rightarrow> error" where
  "invalid_amount v = PlainError (''invalid metric amount '' @ [CHR 0x22] @ v @ [CHR 0x22])"

definition invalid_settlement :: "string \<Rightarrow> string \<Rightarrow> error" where
  "invalid_settlement v p = PlainError (''invalid settlement metric amounts '' @ [CHR 0x22] @ v @ [CHR 0x22] @ ''/'' @ [CHR 0x22] @ p @ [CHR 0x22])"

definition exact_int :: "string \<Rightarrow> int option" where
  "exact_int v = (case SetString v of None \<Rightarrow> None | Some n \<Rightarrow> if int_str n \<noteq> v then None else Some n)"

definition backfill_row :: "metric_row \<Rightarrow> totals \<Rightarrow> totals result" where
  "backfill_row row totals = (case row of (name, currency, v, paid) \<Rightarrow> (case exact_int v of
     None \<Rightarrow> Inl (invalid_amount v)
   | Some n \<Rightarrow>
       if name = ''settlement'' then (case exact_int paid of
           None \<Rightarrow> Inl (invalid_settlement v paid)
         | Some p \<Rightarrow>
             if p < 0 \<or> n < 0 then Inl (invalid_settlement v paid)
             else let totals = add_total ''settlement_paid'' currency p (add_total ''settlement_face_value'' currency n totals) in
               Inr (if p < n then add_total ''settlement_shortfall'' currency (n - p) totals else totals))
       else let totals = add_total name currency n totals in
         Inr (if name = ''allocation_available'' \<and> n < 0 then add_total ''allocation_overdraw'' currency (- n) totals else totals)))"

fun backfill_rows :: "metric_row list \<Rightarrow> totals \<Rightarrow> totals result" where
  "backfill_rows [] totals = Inr totals"
| "backfill_rows (row # rows) totals = (case backfill_row row totals of
     Inl e \<Rightarrow> Inl e | Inr totals \<Rightarrow> backfill_rows rows totals)"

text \<open>The updates meet only rows that exist; each key of the totals occurs once, so their order does not matter.\<close>

definition backfillMetricAmounts :: "(world, unit) tx" where
  "backfillMetricAmounts s = (case backfill_rows (metric_rows s) [] of
     Inl e \<Rightarrow> (Inl e, s)
   | Inr totals \<Rightarrow> (Inr (), s\<lparr>metric_amounts := map (\<lambda>(k, v). (k, case map_of totals k of None \<Rightarrow> v | Some n \<Rightarrow> int_str n))
       (metric_amounts s)\<rparr>))"

section \<open>What a row contributes\<close>

definition contribution :: "string \<times> string \<Rightarrow> metric_row \<Rightarrow> int" where
  "contribution k row = (case row of (n, c, v, paid) \<Rightarrow>
     if n = ''settlement'' then
       (if k = (''settlement_face_value'', c) then units_val v else 0) + (if k = (''settlement_paid'', c) then units_val paid else 0) +
       (if k = (''settlement_shortfall'', c) \<and> units_val paid < units_val v then units_val v - units_val paid else 0)
     else (if k = (n, c) then units_val v else 0) +
       (if n = ''allocation_available'' \<and> k = (''allocation_overdraw'', c) then overdraw (units_val v) else 0))"

definition exact_row :: "metric_row \<Rightarrow> bool" where
  "exact_row row \<longleftrightarrow> (case row of (name, currency, v, paid) \<Rightarrow>
     v \<in> range int_str \<and> (name = ''settlement'' \<longrightarrow> paid \<in> range int_str \<and> 0 \<le> units_val v \<and> 0 \<le> units_val paid))"

lemma exact_int_text: "v \<in> range int_str \<Longrightarrow> exact_int v = Some (units_val v)"
  by (auto simp: exact_int_def)

lemma tget_add_total: "tget id (add_total name cur n t) = (\<lambda>k. tget id t k + (if k = (name, cur) then n else 0))"
  by (rule ext) (simp add: add_total_def tget_update)

lemma backfill_row_exact:
  assumes "exact_row row"
  obtains t' where "backfill_row row t = Inr t'" "tget id t' = (\<lambda>k. tget id t k + contribution k row)"
proof -
  obtain name cur v paid where row: "row = (name, cur, v, paid)" by (cases row)
  have v: "exact_int v = Some (units_val v)" using assms by (auto simp: exact_row_def row intro!: exact_int_text)
  have p: "exact_int paid = Some (units_val paid) \<and> 0 \<le> units_val v \<and> 0 \<le> units_val paid" if "name = ''settlement''"
    using assms that by (auto simp: exact_row_def row intro!: exact_int_text)
  let ?face = "add_total ''settlement_paid'' cur (units_val paid) (add_total ''settlement_face_value'' cur (units_val v) t)"
  let ?named = "add_total name cur (units_val v) t"
  define t' where "t' = (if name = ''settlement'' then
      (if units_val paid < units_val v then add_total ''settlement_shortfall'' cur (units_val v - units_val paid) ?face else ?face)
      else if name = ''allocation_available'' \<and> units_val v < 0 then add_total ''allocation_overdraw'' cur (- units_val v) ?named else ?named)"
  have "backfill_row row t = Inr t'"
    using v p by (auto simp: backfill_row_def row t'_def Let_def)
  moreover have "tget id t' = (\<lambda>k. tget id t k + contribution k row)"
    by (rule ext) (simp add: t'_def tget_add_total contribution_def row overdraw_def)
  ultimately show thesis by (rule that)
qed

lemma backfill_rows_exact:
  assumes "\<forall>row \<in> set rows. exact_row row"
  shows "\<exists>t'. backfill_rows rows t = Inr t' \<and> tget id t' = (\<lambda>k. tget id t k + sum_list (map (contribution k) rows))"
  using assms
proof (induction rows arbitrary: t)
  case (Cons row rows)
  obtain t1 where t1: "backfill_row row t = Inr t1" "tget id t1 = (\<lambda>k. tget id t k + contribution k row)"
    using backfill_row_exact [of row t] Cons.prems by auto
  obtain t2 where t2: "backfill_rows rows t1 = Inr t2" "tget id t2 = (\<lambda>k. tget id t1 k + sum_list (map (contribution k) rows))"
    using Cons.IH [of t1] Cons.prems by (metis list.set_intros(2))
  have "backfill_rows (row # rows) t = Inr t2" using t1(1) t2(1) by simp
  moreover have "tget id t2 = (\<lambda>k. tget id t k + sum_list (map (contribution k) (row # rows)))"
    unfolding t2(2) t1(2) by (simp add: add.assoc)
  ultimately show ?case by blast
qed simp

section \<open>The sums of a state\<close>

definition balance_total :: "allocation list \<Rightarrow> ((account \<times> string \<times> string) \<times> string) list \<Rightarrow> string \<times> string \<Rightarrow> int" where
  "balance_total as t k = (\<Sum>(a, v)\<leftarrow>t. if counted as a then contribution k (account_name (fst a), snd (snd a), v, []) else 0)"

definition escrow_total :: "((account \<times> string \<times> string) \<times> string \<times> string) list \<Rightarrow> string \<times> string \<Rightarrow> int" where
  "escrow_total t k = (\<Sum>(a, x)\<leftarrow>t. if is_escrow (fst a) then contribution k (account_name (fst a), snd (snd a), snd x, []) else 0)"

definition settled_total :: "settlement_row list \<Rightarrow> string \<times> string \<Rightarrow> int" where
  "settled_total rows k = (\<Sum>r\<leftarrow>rows. if st_status r = ''settled'' then contribution k (''settlement'', ''eth'', st_face r, st_paid r) else 0)"

definition total :: "world \<Rightarrow> string \<times> string \<Rightarrow> int" where
  "total s k = balance_total (allocations s) (account_balances s) k + escrow_total (metric_balances s) k + settled_total (settlements s) k"

lemma sum_list_if_filter: "(\<Sum>x\<leftarrow>xs. if P x then f x else (0 :: int)) = sum_list (map f (filter P xs))"
  by (induction xs) auto

lemma total_rows: "total s k = sum_list (map (contribution k) (metric_rows s))"
  unfolding total_def metric_rows_def balance_total_def escrow_total_def settled_total_def
  by (simp add: sum_list_if_filter [symmetric] comp_def case_prod_unfold)

text \<open>Amounts are canonical; a tracked escrow account is in ether and shows its balance.\<close>

definition amounts_text :: "world \<Rightarrow> bool" where
  "amounts_text s \<longleftrightarrow> distinct (map fst (account_balances s)) \<and> (\<forall>x \<in> set (account_balances s). snd x \<in> range int_str) \<and>
     (\<forall>r \<in> set (settlements s). canonical (st_face r) \<and> canonical (st_paid r)) \<and> distinct (map st_id (settlements s))"

definition tracked_ok :: "world \<Rightarrow> bool" where
  "tracked_ok s \<longleftrightarrow> (\<forall>((t, src, c), o', v) \<in> set (metric_balances s). is_escrow t \<longrightarrow> c = ''eth'' \<and> v = int_str (bal s (t, o', ''eth'')))"

definition stored :: "(string \<times> string \<Rightarrow> int) \<Rightarrow> world \<Rightarrow> bool" where
  "stored g s \<longleftrightarrow> distinct (map fst (metric_amounts s)) \<and> (\<forall>x \<in> set (metric_amounts s). snd x = int_str (g (fst x)))"

definition summarised :: "world \<Rightarrow> bool" where
  "summarised s \<longleftrightarrow> amounts_text s \<and> tracked_ok s \<and> stored (total s) s"

lemma canonical_exact: "canonical v \<Longrightarrow> v \<in> range int_str \<and> 0 \<le> units_val v"
  by (auto simp: canonical_iff_nat_str units_val_def image_iff int_str_def intro: exI [of _ "int n" for n])

lemma metric_rows_exact:
  assumes "amounts_text s" "tracked_ok s"
  shows "\<forall>row \<in> set (metric_rows s). exact_row row"
proof
  fix row assume "row \<in> set (metric_rows s)"
  then consider (bal) t i c v where "((t, i, c), v) \<in> set (account_balances s)" "row = (account_name t, c, v, [])"
    | (esc) t src c o' v where "((t, src, c), o', v) \<in> set (metric_balances s)" "is_escrow t" "row = (account_name t, c, v, [])"
    | (st) r where "r \<in> set (settlements s)" "row = (''settlement'', ''eth'', st_face r, st_paid r)"
    by (auto simp: metric_rows_def)
  then show "exact_row row"
  proof cases
    case bal
    then show ?thesis using assms(1) by (cases t) (force simp: amounts_text_def exact_row_def)+
  next
    case esc
    then have "v \<in> range int_str" using assms(2) by (auto simp: tracked_ok_def)
    then show ?thesis using esc by (auto simp: exact_row_def is_escrow_def)
  next
    case st
    then show ?thesis using assms(1) canonical_exact by (auto simp: amounts_text_def exact_row_def)
  qed
qed

text \<open>The invariant makes the recomputation a no-op.\<close>

lemma summarised_backfill:
  assumes "summarised s"
  shows "backfillMetricAmounts s = (Inr (), s)"
proof -
  from assms have st: "stored (total s) s" and ex: "\<forall>row \<in> set (metric_rows s). exact_row row"
    using metric_rows_exact by (auto simp: summarised_def)
  from backfill_rows_exact [OF ex, of "[]"] obtain t where t: "backfill_rows (metric_rows s) [] = Inr t"
    and g: "tget id t = total s" by (auto simp: total_rows [abs_def] tget_def [of id "[]"])
  have "(case map_of t (fst x) of None \<Rightarrow> snd x | Some n \<Rightarrow> int_str n) = snd x" if "x \<in> set (metric_amounts s)" for x
  proof -
    have "snd x = int_str (tget id t (fst x))" using st that by (simp add: stored_def g)
    then show ?thesis by (simp add: tget_def split: option.splits)
  qed
  then have "map (\<lambda>(k, v). (k, case map_of t k of None \<Rightarrow> v | Some n \<Rightarrow> int_str n)) (metric_amounts s) = metric_amounts s"
    by (intro map_idI) (simp add: case_prod_beta)
  then show ?thesis by (simp add: backfillMetricAmounts_def t)
qed

end
