(* ===== verification/Upkeep.thy ===== *)
theory Upkeep
  imports Backfill
begin

text \<open>
  How the store keeps the monetary summaries up to date: every posting, every settlement and every
  opened escrow account changes the stored sums by exactly what it changes in the tables they sum
  up, so that the bodies of the store's transactions keep the invariant of \<open>Backfill\<close>.
\<close>

section \<open>What the steps do\<close>

text \<open>The tables that the sums are made of.\<close>

definition core :: "world \<Rightarrow> allocation list \<times> ((account \<times> string \<times> string) \<times> string) list \<times>
    ((account \<times> string \<times> string) \<times> string \<times> string) list \<times> settlement_row list" where
  "core s = (allocations s, account_balances s, metric_balances s, settlements s)"

lemma core_cong: "core s' = core s \<Longrightarrow> total s' = total s \<and> amounts_text s' = amounts_text s \<and> tracked_ok s' = tracked_ok s"
  by (simp add: core_def total_def [abs_def] amounts_text_def tracked_ok_def bal_def)

lemma summarised_cong: "core s' = core s \<Longrightarrow> metric_amounts s' = metric_amounts s \<Longrightarrow> summarised s' = summarised s"
  using core_cong [of s' s] by (simp add: summarised_def stored_def)

lemma core_simps [simp]:
  "core (s\<lparr>tick := n\<rparr>) = core s" "core (s\<lparr>grants := g\<rparr>) = core s" "core (s\<lparr>api_keys := a\<rparr>) = core s"
  "core (s\<lparr>sessions := p\<rparr>) = core s" "core (s\<lparr>usage_events := u\<rparr>) = core s" "core (s\<lparr>signing_authorizations := z\<rparr>) = core s"
  "core (s\<lparr>ledger_transactions := t\<rparr>) = core s" "core (s\<lparr>ledger_entries := e\<rparr>) = core s"
  "core (s\<lparr>escrow_snapshots := w\<rparr>) = core s" "core (s\<lparr>ticket_broker_events := b\<rparr>) = core s"
  "core (s\<lparr>ingestion_checkpoints := c\<rparr>) = core s" "core (s\<lparr>chain_blocks := h\<rparr>) = core s"
  "core (s\<lparr>management_idempotency := i\<rparr>) = core s" "core (s\<lparr>metric_amounts := m\<rparr>) = core s"
  "core (s\<lparr>metric_counts := r\<rparr>) = core s" "core (s\<lparr>kafka_lags := k\<rparr>) = core s"
  by (simp_all add: core_def)

lemma changeMetricCount_core:
  "changeMetricCount kind a b d s = (Inr x, s') \<Longrightarrow> core s' = core s \<and> metric_amounts s' = metric_amounts s"
  by (auto simp: changeMetricCount_def txs split: if_splits)

lemma set_update_distinct:
  "distinct (map fst t) \<Longrightarrow> x \<in> set (AList.update k v t) \<Longrightarrow> x = (k, v) \<or> x \<in> set t \<and> fst x \<noteq> k"
  by (induction t) (auto split: if_splits)

lemma stored_cong: "metric_amounts s' = metric_amounts s \<Longrightarrow> stored g s' = stored g s"
  by (simp add: stored_def)

lemma changeMetricAmount_stored:
  assumes "changeMetricAmount name cur d s = (Inr x, s')" "stored g s"
  shows "core s' = core s \<and> stored (\<lambda>k. g k + (if k = (name, cur) then d else 0)) s'"
proof (cases "d = 0")
  case True
  then show ?thesis using assms by (auto simp: changeMetricAmount_def stored_def)
next
  case False
  then obtain v n where row: "map_of (metric_amounts s) (name, cur) = Some v" and n: "v = int_str n"
    and s': "s' = s\<lparr>metric_amounts := AList.update (name, cur) (int_str (n + d)) (metric_amounts s)\<rparr>"
    using assms(1) by (auto simp: changeMetricAmount_def txs signedBalance_Inr)
  have dist: "distinct (map fst (metric_amounts s))" using assms(2) by (simp add: stored_def)
  have "v = int_str (g (name, cur))" using assms(2) map_of_SomeD [OF row] by (auto simp: stored_def)
  then have "g (name, cur) = n" using n by simp
  then have "stored (\<lambda>k. g k + (if k = (name, cur) then d else 0)) s'"
    using assms(2) by (auto simp: stored_def s' distinct_update dest!: set_update_distinct [OF dist])
  then show ?thesis by (simp add: s')
qed

text \<open>What a balance stands for in the sums.\<close>

definition amount_part :: "account \<Rightarrow> string \<Rightarrow> int \<Rightarrow> string \<times> string \<Rightarrow> int" where
  "amount_part t cur n k = (if k = (account_name t, cur) then n else 0) +
     (if t = AllocationAvailable \<and> k = (''allocation_overdraw'', cur) then overdraw n else 0)"

lemma contribution_part: "contribution k (account_name t, cur, v, []) = amount_part t cur (units_val v) k"
  by (cases t) (simp_all add: contribution_def amount_part_def)

lemma amount_part_zero [simp]: "amount_part t cur 0 k = 0"
  by (simp add: amount_part_def overdraw_def)

lemma balance_total_Cons [simp]:
  "balance_total as ((a, v) # t) k = (if counted as a then amount_part (fst a) (snd (snd a)) (units_val v) k else 0) + balance_total as t k"
  by (simp add: balance_total_def contribution_part)

lemma balance_total_Nil [simp]: "balance_total as [] k = 0"
  by (simp add: balance_total_def)

lemma balance_total_update:
  "balance_total as (AList.update a (int_str n) t) k = balance_total as t k +
     (if counted as a then amount_part (fst a) (snd (snd a)) n k - amount_part (fst a) (snd (snd a)) (tget units_val t a) k else 0)"
  by (induction t) (auto simp: tget_def)

lemma escrow_total_Cons [simp]:
  "escrow_total ((a, x) # t) k = (if is_escrow (fst a) then amount_part (fst a) (snd (snd a)) (units_val (snd x)) k else 0) + escrow_total t k"
  by (simp add: escrow_total_def contribution_part)

lemma escrow_total_Nil [simp]: "escrow_total [] k = 0"
  by (simp add: escrow_total_def)

definition escrow_rows :: "((account \<times> string \<times> string) \<times> string \<times> string) list \<Rightarrow> ((account \<times> string \<times> string) \<times> string \<times> string) list" where
  "escrow_rows t = filter (\<lambda>x. is_escrow (fst (fst x))) t"

lemma escrow_total_rows: "escrow_total (escrow_rows t) k = escrow_total t k"
  by (induction t) (auto simp: escrow_rows_def)

lemma escrow_rows_update: "\<not> is_escrow (fst a) \<Longrightarrow> escrow_rows (AList.update a x t) = escrow_rows t"
  by (induction t) (auto simp: escrow_rows_def)

lemma escrow_rows_delete: "\<not> is_escrow (fst a) \<Longrightarrow> escrow_rows (AList.delete a t) = escrow_rows t"
  by (induction t) (auto simp: escrow_rows_def)

lemma tracked_rows: "tracked_ok s \<longleftrightarrow> (\<forall>x \<in> set (escrow_rows (metric_balances s)).
    snd (snd (fst x)) = ''eth'' \<and> snd (snd x) = int_str (bal s (fst (fst x), fst (snd x), ''eth'')))"
  unfolding tracked_ok_def escrow_rows_def by force

text \<open>The rows of one escrow account, before and after its balance has changed.\<close>

definition owned_by :: "account \<Rightarrow> string \<Rightarrow> string \<Rightarrow> (account \<times> string \<times> string) \<times> string \<times> string \<Rightarrow> bool" where
  "owned_by t o' c x \<longleftrightarrow> fst (fst x) = t \<and> fst (snd x) = o' \<and> snd (snd (fst x)) = c"

definition set_balance :: "account \<Rightarrow> string \<Rightarrow> string \<Rightarrow> int \<Rightarrow> (account \<times> string \<times> string) \<times> string \<times> string \<Rightarrow>
    (account \<times> string \<times> string) \<times> string \<times> string" where
  "set_balance t o' c n x = (fst x, fst (snd x), if owned_by t o' c x then int_str n else snd (snd x))"

lemma escrow_total_set_balance:
  assumes "is_escrow t" "\<forall>x \<in> set rows. owned_by t o' c x \<longrightarrow> snd (snd x) = int_str old"
  shows "escrow_total (map (set_balance t o' c new) rows) k =
    escrow_total rows k + int (length (filter (owned_by t o' c) rows)) * (amount_part t c new k - amount_part t c old k)"
  using assms by (induction rows) (auto simp: set_balance_def owned_by_def algebra_simps)

lemma changeMetricAmount_steps:
  assumes "changeMetricAmount name cur d s = (Inr x, s')" "stored g s"
  shows "stored (\<lambda>k. g k + (if k = (name, cur) then d else 0)) s'" "allocations s' = allocations s"
    "account_balances s' = account_balances s" "metric_balances s' = metric_balances s" "settlements s' = settlements s"
  using changeMetricAmount_stored [OF assms] by (simp_all add: core_def)

lemma changeMetricCount_steps:
  assumes "changeMetricCount kind a b d s = (Inr x, s')"
  shows "stored g s' = stored g s" "allocations s' = allocations s"
    "account_balances s' = account_balances s" "metric_balances s' = metric_balances s" "settlements s' = settlements s"
  using changeMetricCount_core [OF assms] stored_cong [of s' s] by (simp_all add: core_def)

text \<open>A balance of a grant or an allocation changes.\<close>

lemma updateBalanceMetrics_funds:
  assumes "updateBalanceMetrics t o' cur old new s = (Inr x, s')" "stored g s" "\<not> is_escrow t"
  shows "stored (\<lambda>k. g k + (if counted (allocations s) (t, o', cur) then amount_part t cur new k - amount_part t cur old k else 0)) s' \<and>
    escrow_rows (metric_balances s') = escrow_rows (metric_balances s)"
proof -
  have eligible: "(\<exists>a \<in> set (allocations s). a_id a = o' \<and> a_currency a = cur) = allocation_account (allocations s) o' cur"
    by (simp add: allocation_account_def)
  consider (grant) "t = GrantUnallocated" | (skip) "t \<noteq> GrantUnallocated" "\<not> counted (allocations s) (t, o', cur)"
    | (spent) "t = AllocationSpent" "counted (allocations s) (t, o', cur)"
    | (available) "t = AllocationAvailable" "counted (allocations s) (t, o', cur)"
    by (auto simp: counted_def)
  then show ?thesis
  proof cases
    case grant
    then show ?thesis using assms changeMetricAmount_steps
      by (fastforce simp: updateBalanceMetrics_def counted_def amount_part_def elim: back_subst [where P = "\<lambda>g. stored g s'"])
  next
    case skip
    then have "s' = s" using assms(1,3)
      by (cases t) (auto simp: updateBalanceMetrics_def Let_def counted_def is_escrow_def eligible split: if_splits)
    then show ?thesis using assms(2) skip by simp
  next
    case spent
    then have "changeMetricAmount ''allocation_spent'' cur (new - old) s = (Inr x, s')"
      using assms(1) by (auto simp: updateBalanceMetrics_def counted_def eligible txs)
    from changeMetricAmount_steps [OF this assms(2)] spent show ?thesis
      by (auto simp: amount_part_def elim!: back_subst [where P = "\<lambda>g. stored g s'"])
  next
    case available
    then obtain s1 s2 s3 where m: "changeMetricAmount ''allocation_available'' cur (new - old) s = (Inr (), s1)"
      "changeMetricAmount ''allocation_overdraw'' cur (overdraw new - overdraw old) s1 = (Inr (), s2)"
      "changeMetricCount ''allocations_overdrawn'' cur [] (boolCount (new < 0) - boolCount (old < 0)) s2 = (Inr (), s3)"
      and fin: "s' = s3 \<or> s' = s3\<lparr>metric_balances := AList.update (t, o', cur) (o', int_str new) (metric_balances s3)\<rparr> \<or>
        s' = s3\<lparr>metric_balances := AList.delete (t, o', cur) (metric_balances s3)\<rparr>"
      using assms(1) by (simp add: updateBalanceMetrics_def counted_def eligible tx_success split: if_splits) blast+
    have s': "s' = s3 \<or> (\<exists>m. s' = s3\<lparr>metric_balances := m\<rparr> \<and> escrow_rows m = escrow_rows (metric_balances s3))"
      using fin available assms(3) by (metis escrow_rows_update escrow_rows_delete fst_conv)
    note m1 = changeMetricAmount_steps [OF m(1) assms(2)]
    note m2 = changeMetricAmount_steps [OF m(2) m1(1)]
    note m3 = changeMetricCount_steps [OF m(3)]
    have "stored (\<lambda>k. g k + (amount_part t cur new k - amount_part t cur old k)) s3"
      using m2(1) unfolding m3(1) by (rule back_subst [where P = "\<lambda>g. stored g s2"]) (auto simp: amount_part_def available)
    then show ?thesis using s' available m1 m2 m3 by (auto simp: stored_def)
  qed
qed

text \<open>A balance of an escrow account changes, with every tracked row of the account.\<close>

lemma updateBalanceMetrics_escrow:
  assumes "updateBalanceMetrics t o' ''eth'' old new s = (Inr x, s')" "stored g s" "is_escrow t"
  shows "metric_balances s' = map (set_balance t o' ''eth'' new) (metric_balances s) \<and>
    stored (\<lambda>k. g k + int (length (filter (owned_by t o' ''eth'') (metric_balances s))) * (amount_part t ''eth'' new k - amount_part t ''eth'' old k)) s'"
proof -
  let ?n = "int (length (filter (owned_by t o' ''eth'') (metric_balances s)))"
  let ?s1 = "s\<lparr>metric_balances := map (set_balance t o' ''eth'' new) (metric_balances s)\<rparr>"
  have sb: "(\<lambda>((t', src, c), p, v). ((t', src, c), p, if t' = t \<and> p = o' \<and> c = ''eth'' then int_str new else v)) = set_balance t o' ''eth'' new"
    by (rule ext) (auto simp: set_balance_def owned_by_def)
  have ob: "(\<lambda>((t', src, c), p, v). t' = t \<and> p = o' \<and> c = ''eth'') = owned_by t o' ''eth''"
    by (rule ext) (auto simp: owned_by_def)
  have nt: "t \<noteq> GrantUnallocated" "\<not> (t = AllocationAvailable \<or> t = AllocationSpent)" "t = EscrowDeposit \<or> t = EscrowReserve"
    using assms(3) by (auto simp: is_escrow_def)
  have run: "(if ?n = 0 then ret () else thenE (changeMetricAmount (account_name t) ''eth'' ((new - old) * ?n))
      (changeMetricCount ''escrow_unfunded_signers'' (drop 7 (account_name t)) [] (?n * (boolCount (new = 0) - boolCount (old = 0))))) ?s1 = (Inr x, s')"
    using assms(1) nt unfolding updateBalanceMetrics_def Let_def sb ob by (simp cong: if_cong)
  have st: "stored g ?s1" using assms(2) by (simp add: stored_def)
  have amount_part: "amount_part t ''eth'' n k = (if k = (account_name t, ''eth'') then n else 0)" for n k using nt by (auto simp: amount_part_def)
  show ?thesis
  proof (cases "?n = 0")
    case True
    then have "s' = ?s1" using run by simp
    then show ?thesis using st True by (simp only:) simp
  next
    case False
    then obtain s2 where m: "changeMetricAmount (account_name t) ''eth'' ((new - old) * ?n) ?s1 = (Inr (), s2)"
      "changeMetricCount ''escrow_unfunded_signers'' (drop 7 (account_name t)) [] (?n * (boolCount (new = 0) - boolCount (old = 0))) s2 = (Inr x, s')"
      using run by (auto simp: txs)
    note m1 = changeMetricAmount_steps [OF m(1) st] and m2 = changeMetricCount_steps [OF m(2)]
    have "stored (\<lambda>k. g k + ?n * (amount_part t ''eth'' new k - amount_part t ''eth'' old k)) s'"
      unfolding m2(1) using m1(1) by (rule back_subst [where P = "\<lambda>g. stored g s2"]) (auto simp: amount_part algebra_simps)
    then show ?thesis using m1 m2 by simp
  qed
qed

subsection \<open>Postings\<close>

lemma upsert_text:
  "\<forall>x \<in> set t. snd x \<in> range int_str \<Longrightarrow> \<forall>x \<in> set (AList.update a (int_str n) t). snd x \<in> range int_str"
  by (auto dest!: set_updateD)

text \<open>A new balance with the update of its summaries, from a state in which both agreed.\<close>

lemma balance_step:
  assumes run: "updateBalanceMetrics t o' cur old new (s\<lparr>account_balances := AList.update (t, o', cur) (int_str new) (account_balances s)\<rparr>) = (Inr x, s')"
    and old: "old = bal s (t, o', cur)" and sm: "summarised s"
  shows "summarised s'"
proof -
  let ?b = "AList.update (t, o', cur) (int_str new) (account_balances s)" and ?s1 = "s\<lparr>account_balances := AList.update (t, o', cur) (int_str new) (account_balances s)\<rparr>"
  note nm = nonmetric_fields [OF updateBalanceMetrics_frame [OF run]]
  have frame: "allocations s' = allocations s" "account_balances s' = ?b" "settlements s' = settlements s"
    using nm [THEN conjunct2, THEN conjunct2, THEN conjunct1] nonledger_fields [OF nm [THEN conjunct2, THEN conjunct2, THEN conjunct2]]
    by simp_all
  have st: "stored (total s) ?s1" and wf: "amounts_text s" and tr: "tracked_ok s"
    using sm by (simp_all add: summarised_def stored_def)
  have bs: "bal s' k = (if k = (t, o', cur) then new else bal s k)" for k by (simp add: bal_def frame tget_update)
  have wf': "amounts_text s'" using wf upsert_text [of "account_balances s"] by (simp add: amounts_text_def frame distinct_update)
  have bt: "balance_total (allocations s) ?b k = balance_total (allocations s) (account_balances s) k +
      (if counted (allocations s) (t, o', cur) then amount_part t cur new k - amount_part t cur old k else 0)" for k
    by (simp add: balance_total_update old bal_def)
  show ?thesis
  proof (cases "is_escrow t \<and> cur = ''eth''")
    case True
    then have esc: "is_escrow t" and cur: "cur = ''eth''" by simp_all
    note e = updateBalanceMetrics_escrow [OF run [unfolded cur] st [unfolded cur] esc, simplified]
    have rows: "metric_balances s' = map (set_balance t o' ''eth'' new) (metric_balances s)"
      and st': "stored (\<lambda>k. total s k + int (length (filter (owned_by t o' ''eth'') (metric_balances s))) * (amount_part t ''eth'' new k - amount_part t ''eth'' old k)) s'"
      using e by (simp_all add: cur)
    have "\<forall>x \<in> set (metric_balances s). owned_by t o' ''eth'' x \<longrightarrow> snd (snd x) = int_str old"
      using tr esc by (auto simp: tracked_ok_def owned_by_def old cur)
    note et = escrow_total_set_balance [OF esc this, of new]
    have "\<not> counted (allocations s) (t, o', cur)" using esc by (auto simp: counted_def is_escrow_def)
    then have "total s' = (\<lambda>k. total s k + int (length (filter (owned_by t o' ''eth'') (metric_balances s))) * (amount_part t ''eth'' new k - amount_part t ''eth'' old k))"
      by (intro ext) (simp add: total_def frame rows bt et)
    then have "stored (total s') s'" using st' by simp
    moreover have "tracked_ok s'"
      using tr by (auto simp: tracked_ok_def rows set_balance_def owned_by_def bs cur)
    ultimately show ?thesis using wf' by (simp add: summarised_def)
  next
    case False
    have "escrow_rows (metric_balances s') = escrow_rows (metric_balances s) \<and>
      stored (\<lambda>k. total s k + (if counted (allocations s) (t, o', cur) then amount_part t cur new k - amount_part t cur old k else 0)) s'"
    proof (cases "is_escrow t")
      case True
      then have "s' = ?s1" "\<not> counted (allocations s) (t, o', cur)" using run False
        by (auto simp: updateBalanceMetrics_def counted_def is_escrow_def)
      then show ?thesis using st by simp
    next
      case no: False
      from updateBalanceMetrics_funds [OF run st no] show ?thesis by simp
    qed
    then have rows: "escrow_rows (metric_balances s') = escrow_rows (metric_balances s)"
      and st': "stored (\<lambda>k. total s k + (if counted (allocations s) (t, o', cur) then amount_part t cur new k - amount_part t cur old k else 0)) s'"
      by blast+
    have "escrow_total (metric_balances s') k = escrow_total (metric_balances s) k" for k
      using escrow_total_rows [of "metric_balances s'" k] escrow_total_rows [of "metric_balances s" k] rows by simp
    then have "total s' = (\<lambda>k. total s k + (if counted (allocations s) (t, o', cur) then amount_part t cur new k - amount_part t cur old k else 0))"
      by (intro ext) (simp add: total_def frame bt)
    then have "stored (total s') s'" using st' by simp
    moreover have "bal s' (fst (fst x), fst (snd x), ''eth'') = bal s (fst (fst x), fst (snd x), ''eth'')"
      if "x \<in> set (escrow_rows (metric_balances s))" for x
      using that False by (auto simp: bs escrow_rows_def)
    then have "tracked_ok s'" using tr unfolding tracked_rows rows by simp
    ultimately show ?thesis using wf' by (simp add: summarised_def)
  qed
qed

lemma keeps_if: "keeps P m \<Longrightarrow> keeps P k \<Longrightarrow> keeps P (if c then m else k)"
  by simp

lemma keeps_case_option: "keeps P m \<Longrightarrow> (\<And>x. keeps P (f x)) \<Longrightarrow> keeps P (case r of None \<Rightarrow> m | Some x \<Rightarrow> f x)"
  by (cases r) simp_all

lemma keeps_case_prod: "(\<And>x y. keeps P (f x y)) \<Longrightarrow> keeps P (case p of (x, y) \<Rightarrow> f x y)"
  by (cases p) simp

lemma keeps_Write: "keeps P m \<Longrightarrow> keeps P (Write m)"
  by (auto simp: keeps_def txs)

lemma keeps_wrapE: "keeps P m \<Longrightarrow> keeps P (wrapE what m)"
  by (auto simp: keeps_def txs)

lemmas keeps_rules = keeps_intros keeps_forE keeps_if keeps_case_option keeps_case_prod keeps_Write keeps_wrapE

lemma keeps_core:
  assumes "\<And>s x s'. m s = (Inr x, s') \<Longrightarrow> core s' = core s \<and> metric_amounts s' = metric_amounts s"
  shows "keeps summarised m"
  by (rule keepsI) (use assms summarised_cong in blast)

lemma keeps_tick: "keeps summarised ID" "keeps summarised NowMs"
  by (rule keeps_core, auto simp: txs)+

lemma keeps_balance:
  "keeps summarised (bindE (BalanceCurrency t o' cur) (\<lambda>old. let balance = f old in
     thenE (upsert_balance t o' cur (int_str balance)) (updateBalanceMetrics t o' cur old balance)))"
proof (rule keepsI)
  fix s x s'
  assume sm: "summarised s" and run: "bindE (BalanceCurrency t o' cur) (\<lambda>old. let balance = f old in
     thenE (upsert_balance t o' cur (int_str balance)) (updateBalanceMetrics t o' cur old balance)) s = (Inr x, s')"
  from run have "updateBalanceMetrics t o' cur (bal s (t, o', cur)) (f (bal s (t, o', cur)))
      (s\<lparr>account_balances := AList.update (t, o', cur) (int_str (f (bal s (t, o', cur)))) (account_balances s)\<rparr>) = (Inr x, s')"
    by (auto simp: txs upsert_balance_def Let_def)
  from balance_step [OF this refl sm] show "summarised s'" .
qed

lemma keeps_post_entry: "keeps summarised (post_entry tid cur n now e)"
proof -
  have "keeps summarised (insert_ledger_entry r)" for r
    by (rule keeps_core) (auto simp: insert_ledger_entry_def txs)
  then show ?thesis unfolding post_entry_def
    by (intro keeps_case_prod keeps_bindE [OF keeps_tick(1)] keeps_thenE keeps_balance)
qed

lemma keeps_TransferCurrency: "keeps summarised (TransferCurrency key rsn rt ri d di c ci cur n)"
proof -
  have "keeps summarised (insert_ledger_transaction x)" for x
    by (rule keeps_core) (auto simp: insert_ledger_transaction_def txs)
  then show ?thesis unfolding TransferCurrency_def
    by (intro keeps_rules keeps_tick keeps_post_entry)
qed

subsection \<open>Grants, allocations and keys\<close>

lemma keeps_select_row: "keeps summarised (select_row q)" "keeps summarised (BalanceCurrency t o' cur)"
  by (auto simp: keeps_def txs)

lemma keeps_count: "keeps summarised (changeMetricCount kind a b d)"
  by (rule keeps_core) (rule changeMetricCount_core)

lemma keeps_inventory: "keeps summarised (changeInventory kind cur old new)"
  unfolding changeInventory_def by (intro keeps_rules keeps_count)

text \<open>A change of an allocation that leaves its identifier and currency alone changes no sum.\<close>

lemma counted_same: "(\<And>i c. allocation_account as' i c = allocation_account as i c) \<Longrightarrow> counted as' = counted as"
  by (rule ext) (simp add: counted_def)

lemma summarised_allocations:
  assumes "\<And>i c. allocation_account as i c = allocation_account (allocations s) i c"
  shows "summarised (s\<lparr>allocations := as\<rparr>) = summarised s"
proof -
  have "total (s\<lparr>allocations := as\<rparr>) = total s"
    by (rule ext) (simp add: total_def balance_total_def counted_same [OF assms])
  then show ?thesis by (simp add: summarised_def amounts_text_def tracked_ok_def bal_def stored_def)
qed

lemma keeps_update_allocation: "keeps summarised (update_allocation i units status)"
  by (rule keepsI) (auto simp: update_allocation_def txs summarised_allocations allocation_account_update)

lemma keeps_exhaust: "keeps summarised (exhaust_active i cur)"
proof -
  have "keeps summarised (modify (\<lambda>s. s\<lparr>allocations := update_rows P (\<lambda>a. a\<lparr>a_status := st\<rparr>) (allocations s)\<rparr>))" for P st
    by (rule keepsI) (auto simp: summarised_allocations allocation_account_update)
  then show ?thesis unfolding exhaust_active_def by (intro keeps_rules keeps_inventory)
qed

lemma keeps_fundCurrency: "keeps summarised (fundCurrency kind i v cur)"
proof -
  have "keeps summarised (update_grant_total i units)" for i units
    by (rule keeps_core) (auto simp: update_grant_total_def txs)
  then show ?thesis unfolding fundCurrency_def fundGrant_def fundAllocation_def Let_def
    by (intro keeps_rules keeps_tick keeps_TransferCurrency keeps_select_row keeps_inventory keeps_update_allocation)
qed

lemma keeps_SetStatus: "keeps summarised (SetStatus kind i status)"
proof -
  have "keeps summarised (modify (\<lambda>s. s\<lparr>grants := f s\<rparr>))" "keeps summarised (modify (\<lambda>s. s\<lparr>api_keys := k s\<rparr>))"
    "keeps summarised (modify (\<lambda>s. s\<lparr>sessions := p s\<rparr>))" for f k p
    by (auto intro!: keeps_core)
  then show ?thesis unfolding SetStatus_def setGrantStatus_def setAllocationStatus_def returnUnused_def revokeKey_def
      revokeSession_def affected_def Let_def
    by (intro keeps_rules keeps_tick keeps_TransferCurrency keeps_select_row keeps_inventory keeps_update_allocation)
qed

lemma keeps_createKey: "keeps summarised (createKey a name)"
proof -
  have "keeps summarised rand_read" "keeps summarised (insert_api_key k)" for k
    by (auto intro!: keeps_core simp: txs insert_api_key_def)
  then show ?thesis unfolding createKey_def newKeyRecord_def insertKey_def Let_def
    by (intro keeps_rules keeps_tick keeps_select_row)
qed

lemma keeps_createGrant: "keeps summarised (createGrant p)"
proof -
  have "keeps summarised (insert_grant g)" for g
    by (rule keeps_core) (auto simp: insert_grant_def txs)
  then show ?thesis unfolding createGrant_def Let_def
    by (intro keeps_rules keeps_tick keeps_inventory keeps_TransferCurrency)
qed

text \<open>The accounts of a new allocation are empty, because its identifier is new.\<close>

lemma createAllocation_summarised:
  assumes "createAllocation p s = (Inr i, s')" "accounts_ok s" "summarised s"
  shows "summarised s'"
  using assms(1)
proof (cases rule: createAllocation_Inr)
  case (1 g st n a now s2)
  have id: "a_id a = i" by (simp add: 1(10) new_allocation_def)
  have zero: "balance_total (allocations s @ [a]) (account_balances s) k = balance_total (allocations s) (account_balances s) k" for k
  proof -
    have "(if counted (allocations s @ [a]) x then amount_part (fst x) (snd (snd x)) (units_val v) k else 0) =
        (if counted (allocations s) x then amount_part (fst x) (snd (snd x)) (units_val v) k else 0)"
      if row: "(x, v) \<in> set (account_balances s)" for x v
    proof -
      have "map_of (account_balances s) x = Some v" using assms(3) row by (simp add: summarised_def amounts_text_def)
      then have v: "bal s x = units_val v" by (simp add: bal_def tget_def)
      have "units_val v = 0" if "fst (snd x) = i" "fst x = AllocationAvailable \<or> fst x = AllocationSpent"
      proof -
        have "\<not> allocation_account (allocations s) i (snd (snd x))" using 1(11) by (rule fresh_allocation_account)
        then have "bal s (AllocationAvailable, i, snd (snd x)) = 0 \<and> bal s (AllocationSpent, i, snd (snd x)) = 0"
          using assms(2) by (auto simp: accounts_ok_def funds_def no_stray_def)
        with that v show ?thesis by (cases x) auto
      qed
      then show ?thesis by (cases x) (auto simp: counted_def id)
    qed
    note same = this
    show ?thesis unfolding balance_total_def contribution_part
      by (rule arg_cong [where f = sum_list], rule map_cong [OF refl]) (use same in \<open>auto split del: if_split\<close>)
  qed
  have "summarised (s\<lparr>tick := Suc (Suc (tick s)), allocations := allocations s @ [a]\<rparr>)"
    using assms(3) zero by (simp add: summarised_def amounts_text_def tracked_ok_def bal_def stored_def total_def [abs_def])
  then show ?thesis
    using keepsD [OF keeps_TransferCurrency 1(14)] keepsD [OF keeps_inventory 1(13)] by blast
qed

subsection \<open>Settlements and tickets\<close>

definition settled_part :: "int \<Rightarrow> int \<Rightarrow> string \<times> string \<Rightarrow> int" where
  "settled_part face paid k = contribution k (''settlement'', ''eth'', int_str face, int_str paid)"

lemma updateSettlementMetrics_stored:
  assumes "updateSettlementMetrics old new match face paid s = (Inr u, s')" "stored g s" "old \<noteq> new"
  shows "core s' = core s \<and>
    stored (\<lambda>k. g k + (boolCount (new = ''settled'') - boolCount (old = ''settled'')) * settled_part face paid k) s'"
proof -
  let ?d = "boolCount (new = ''settled'') - boolCount (old = ''settled'')"
  let ?gap = "if paid < face then face - paid else 0"
  from assms(1,3) obtain s0 s1 s2 s3 s4
    where c0: "(if old \<noteq> [] then changeMetricCount ''settlements'' old match (- 1) else ret ()) s = (Inr (), s0)"
    and c1: "changeMetricCount ''settlements'' new match 1 s0 = (Inr (), s1)"
    and a: "changeMetricAmount ''settlement_face_value'' ''eth'' (face * ?d) s1 = (Inr (), s2)"
      "changeMetricAmount ''settlement_paid'' ''eth'' (paid * ?d) s2 = (Inr (), s3)"
      "changeMetricAmount ''settlement_shortfall'' ''eth'' (?gap * ?d) s3 = (Inr (), s4)"
    and c2: "changeMetricCount ''settlements_underpaid'' [] [] (?d * boolCount (0 < ?gap)) s4 = (Inr u, s')"
    unfolding updateSettlementMetrics_def Let_def settlement_amounts_def
    by (simp add: tx_success split del: if_split) blast
  from c0 have "core s0 = core s" "metric_amounts s0 = metric_amounts s"
    by (auto split: if_splits dest: changeMetricCount_core)
  then have st: "stored g s1" and cr: "core s1 = core s" using assms(2) changeMetricCount_core [OF c1] by (auto simp: stored_def)
  note m1 = changeMetricAmount_stored [OF a(1) st]
  note m2 = changeMetricAmount_stored [OF a(2) m1 [THEN conjunct2]]
  note m3 = changeMetricAmount_stored [OF a(3) m2 [THEN conjunct2]]
  have "stored (\<lambda>k. g k + ?d * settled_part face paid k) s4"
    using m3 [THEN conjunct2] by (rule back_subst [where P = "\<lambda>g. stored g s4"])
      (auto simp: settled_part_def contribution_def algebra_simps)
  then show ?thesis using m1 m2 m3 cr changeMetricCount_core [OF c2] by (simp add: stored_def)
qed

lemma settled_total_append [simp]: "settled_total (rows @ [r]) k = settled_total rows k +
    (if st_status r = ''settled'' then contribution k (''settlement'', ''eth'', st_face r, st_paid r) else 0)"
  by (simp add: settled_total_def)

text \<open>A change of the settlement rows, with the matching change of the sums.\<close>

lemma settled_step:
  assumes "summarised s" "amounts_text (s\<lparr>settlements := rows\<rparr>)"
    and "\<And>k. settled_total rows k = settled_total (settlements s) k + d * settled_part face paid k"
    and "updateSettlementMetrics old new match face paid s1 = (Inr u, s2)" "core s1 = core (s\<lparr>settlements := rows\<rparr>)"
    and "metric_amounts s1 = metric_amounts s" "old \<noteq> new" "d = boolCount (new = ''settled'') - boolCount (old = ''settled'')"
  shows "summarised s2"
proof -
  have "stored (total s) s1" using assms(1,6) by (simp add: summarised_def stored_def)
  note m = updateSettlementMetrics_stored [OF assms(4) this assms(7)]
  have "core s2 = core (s\<lparr>settlements := rows\<rparr>)" using m assms(5) by simp
  note c = core_cong [OF this]
  have "total s2 = (\<lambda>k. total s k + d * settled_part face paid k)"
    using c by (auto simp: total_def assms(3))
  then have "stored (total s2) s2" using m assms(8) by simp
  moreover have "tracked_ok (s\<lparr>settlements := rows\<rparr>)" using assms(1) by (simp add: summarised_def tracked_ok_def bal_def)
  ultimately show ?thesis using c assms(2) by (simp add: summarised_def)
qed

lemma settled_total_same:
  "(\<And>r. st_status (f r) = st_status r \<and> st_face (f r) = st_face r \<and> st_paid (f r) = st_paid r) \<Longrightarrow>
    settled_total (update_rows P f rows) = settled_total rows"
  by (rule ext) (auto simp: settled_total_def update_rows_def comp_def intro!: arg_cong [where f = sum_list])

lemma amounts_text_settlements:
  "(\<And>r. st_id (f r) = st_id r \<and> st_face (f r) = st_face r \<and> st_paid (f r) = st_paid r) \<Longrightarrow> amounts_text s \<Longrightarrow>
    amounts_text (s\<lparr>settlements := update_rows P f (settlements s)\<rparr>)"
  by (auto simp: amounts_text_def map_update_rows dest!: in_update_rows)

lemma summarised_settlements:
  assumes "summarised s" "amounts_text (s\<lparr>settlements := rows\<rparr>)" "settled_total rows = settled_total (settlements s)"
  shows "summarised (s\<lparr>settlements := rows\<rparr>)"
proof -
  have "total (s\<lparr>settlements := rows\<rparr>) = total s" by (rule ext) (simp add: total_def assms(3))
  moreover have "stored (total s) (s\<lparr>settlements := rows\<rparr>)" using assms(1) by (simp only: summarised_def stored_def) simp
  moreover have "tracked_ok (s\<lparr>settlements := rows\<rparr>)" using assms(1) by (simp add: summarised_def tracked_ok_def bal_def)
  ultimately show ?thesis using assms(2) by (simp add: summarised_def)
qed

lemma summarised_text: "summarised s \<Longrightarrow> amounts_text s"
  by (simp add: summarised_def)

lemma keeps_rematch: "keeps summarised (rematch pm orch)"
proof -
  have "keeps summarised (move_bucket status b)" for status b
    unfolding move_bucket_def by (intro keeps_rules keeps_count)
  moreover have "keeps summarised (modify (\<lambda>s. s\<lparr>settlements := update_rows P (\<lambda>r. r\<lparr>st_session := i, st_match := m\<rparr>) (settlements s)\<rparr>))" for P i m
    by (rule keepsI)
      (auto intro!: summarised_settlements amounts_text_settlements settled_total_same intro: summarised_text)
  ultimately show ?thesis unfolding rematch_def by (intro keeps_rules)
qed

lemma keeps_SetCheckpoint: "keeps summarised (SetCheckpoint source stream n h)"
  by (rule keeps_core) (auto simp: SetCheckpoint_def txs)

lemma keeps_Ingest: "keeps summarised (Ingest dec topic p offset raw)"
proof -
  have "keeps summarised (insert_signing_authorization a)" "keeps summarised (insert_usage_event u)" for a u
    by (auto intro!: keeps_core simp: insert_signing_authorization_def insert_usage_event_def txs)
  then show ?thesis unfolding Ingest_def ingest_next_def apply_verdict_def apply_ticket_def count_quarantine_def
    by (intro keeps_rules keeps_tick keeps_TransferCurrency keeps_select_row keeps_exhaust keeps_rematch keeps_count keeps_SetCheckpoint)
qed

subsection \<open>The chain\<close>

lemma keeps_Transfer: "keeps summarised (Transfer key rsn rt ri d di c ci n)"
  unfolding Transfer_def by (rule keeps_TransferCurrency)

lemma keeps_Balance: "keeps summarised (Balance t o')" "keeps summarised (requireBalance t o' n)" "keeps summarised (requireExactBalance t o' n)"
  unfolding requireBalance_def requireExactBalance_def Balance_def by (intro keeps_rules keeps_select_row)+

lemma register_bucket_summarised:
  assumes "register_bucket sid owner t s = (Inr u, s')" "is_escrow t" "summarised s"
  shows "summarised s'"
proof -
  let ?b = "bal s (t, owner, ''eth'')" and ?rows = "metric_balances s @ [((t, sid, ''eth''), owner, int_str (bal s (t, owner, ''eth'')))]"
  let ?s1 = "s\<lparr>metric_balances := ?rows\<rparr>"
  from assms(1) obtain s2 where a: "changeMetricAmount (account_name t) ''eth'' ?b ?s1 = (Inr (), s2)"
    and c: "changeMetricCount ''escrow_unfunded_signers'' (drop 7 (account_name t)) [] (boolCount (?b = 0)) s2 = (Inr u, s')"
    by (auto simp: register_bucket_def Balance_def txs tx_success)
  have "stored (total s) ?s1" using assms(3) by (simp only: summarised_def stored_def) simp
  note m = changeMetricAmount_stored [OF a this]
  have "escrow_total ?rows k = escrow_total (metric_balances s) k + amount_part t ''eth'' ?b k" for k
    using assms(2) by (simp add: escrow_total_def contribution_part)
  then have "total ?s1 = (\<lambda>k. total s k + (if k = (account_name t, ''eth'') then ?b else 0))"
    using assms(2) by (intro ext) (auto simp: total_def amount_part_def is_escrow_def)
  moreover have "amounts_text ?s1" "tracked_ok ?s1"
    using assms(3) unfolding summarised_def by (auto simp: amounts_text_def tracked_ok_def bal_def)
  ultimately have "summarised s2" using m core_cong [of s2 ?s1] by (simp add: summarised_def)
  then show ?thesis using keepsD [OF keeps_count c] by simp
qed

lemma keeps_BootstrapChain: "keeps summarised (BootstrapChain stream anchor snapshots)"
proof -
  have "keeps summarised (register_bucket sid owner t)" if "t \<in> set [EscrowDeposit, EscrowReserve]" for sid owner t
    using register_bucket_summarised that by (auto simp: keeps_def is_escrow_def)
  then have "keeps summarised (registerEscrowMetrics sid owner)" for sid owner
    unfolding registerEscrowMetrics_def by (intro keeps_forE)
  moreover have "keeps summarised (insert_chain_block stream b)" "keeps summarised (insert_escrow_snapshot r)" for b r
    by (auto intro!: keeps_core simp: insert_chain_block_def insert_escrow_snapshot_def txs)
  ultimately show ?thesis unfolding BootstrapChain_def anchor_block_def open_snapshot_def Let_def
    by (intro keeps_rules keeps_tick keeps_Transfer keeps_SetCheckpoint)
qed

text \<open>A redemption is settled: its row, new or revived, and its sums.\<close>

lemma settle_summarised:
  assumes "settle x face paid dp rp row s = (Inr u, s')" "summarised s" "row = find_settlement x s"
    and "Amount (se_FaceValue x) = Inr face" "Amount (se_PaidAmount x) = Inr paid"
    and "\<And>r. row = Some r \<Longrightarrow> \<not> settlement_differs x r \<and> st_status r \<noteq> ''settled''"
  shows "summarised s'"
proof -
  have units: "se_FaceValue x = int_str face" "se_PaidAmount x = int_str paid" using assms(4,5) Amount_text by auto
  have wf: "amounts_text s" using assms(2) by (rule summarised_text)
  from assms(1) obtain i g s1 s2
    where rec: "(case row of None \<Rightarrow> insert_new_settlement x | Some r \<Rightarrow> revive_settlement r x) s = (Inr (i, g), s1)"
      and met: "updateSettlementMetrics (case row of None \<Rightarrow> [] | Some r \<Rightarrow> st_status r) ''settled''
          (case row of None \<Rightarrow> ''unmatched'' | Some r \<Rightarrow> st_match r) face paid s1 = (Inr (), s2)"
      and p: "pay_settlement x face dp rp i g s2 = (Inr u, s')"
    by (auto simp: settle_def txs tx_success split: prod.splits)
  have "\<exists>rows. core s1 = core (s\<lparr>settlements := rows\<rparr>) \<and> metric_amounts s1 = metric_amounts s \<and> amounts_text (s\<lparr>settlements := rows\<rparr>) \<and>
      (\<forall>k. settled_total rows k = settled_total (settlements s) k + 1 * settled_part face paid k)"
  proof (cases row)
    case None
    then obtain now where r: "core s1 = core (s\<lparr>settlements := settlements s @ [new_settlement i now x]\<rparr>)" "metric_amounts s1 = metric_amounts s"
      and ok: "i \<notin> st_id ` set (settlements s)" "canonical (se_FaceValue x)" "canonical (se_PaidAmount x)"
      using rec by (auto simp: insert_new_settlement_def insert_settlement_def txs core_def new_settlement_def)
    have "amounts_text (s\<lparr>settlements := settlements s @ [new_settlement i now x]\<rparr>)"
      using wf ok by (simp add: amounts_text_def new_settlement_def)
    then show ?thesis using r units by (intro exI) (auto simp: new_settlement_def settled_part_def)
  next
    case (Some r)
    let ?f = "\<lambda>q. q\<lparr>st_status := ''settled'', st_generation := g, st_settled_at := se_Timestamp x\<rparr>"
    let ?rows = "update_rows (\<lambda>q. st_id q = st_id r) ?f (settlements s)"
    have r: "core s1 = core (s\<lparr>settlements := ?rows\<rparr>)" "metric_amounts s1 = metric_amounts s"
      using rec Some by (auto simp: revive_settlement_def txs core_def Let_def)
    have mem: "r \<in> set (settlements s)" using assms(3) [symmetric] Some by (auto simp: find_settlement_def dest!: find_row_Some)
    have same: "st_face r = int_str face" "st_paid r = int_str paid" "st_status r \<noteq> ''settled''"
      using assms(6) [OF Some] units by (auto simp: settlement_differs_def)
    have "distinct (map st_id (settlements s))" using wf by (simp add: amounts_text_def)
    from sum_update_rows [OF this mem, where f = ?f and g = "\<lambda>q. if st_status q = ''settled'' then contribution k (''settlement'', ''eth'', st_face q, st_paid q) else 0" for k]
    have "\<forall>k. settled_total ?rows k = settled_total (settlements s) k + 1 * settled_part face paid k"
      using same by (simp add: settled_total_def settled_part_def)
    moreover have "amounts_text (s\<lparr>settlements := ?rows\<rparr>)" using wf by (intro amounts_text_settlements) simp_all
    ultimately show ?thesis using r by blast
  qed
  then obtain rows where r: "core s1 = core (s\<lparr>settlements := rows\<rparr>)" "metric_amounts s1 = metric_amounts s"
    "amounts_text (s\<lparr>settlements := rows\<rparr>)" "\<And>k. settled_total rows k = settled_total (settlements s) k + 1 * settled_part face paid k" by blast
  have "(case row of None \<Rightarrow> [] | Some r \<Rightarrow> st_status r) \<noteq> ''settled''" using assms(6) by (cases row) auto
  from settled_step [OF assms(2) r(3,4) met r(1,2) this] this have "summarised s2" by (simp add: boolCount_def)
  moreover have "keeps summarised (pay_settlement x face dp rp i g)"
    unfolding pay_settlement_def Let_def by (intro keeps_rules keeps_Balance keeps_Transfer keeps_rematch)
  ultimately show ?thesis using p by (rule keepsD [rotated 2])
qed

lemma keeps_applySettlement: "keeps summarised (applySettlement x)"
proof (rule keepsI)
  fix s u s' assume sm: "summarised s" and run: "applySettlement x s = (Inr u, s')"
  then obtain face paid dp rp where a: "Amount (se_FaceValue x) = Inr face" "Amount (se_PaidAmount x) = Inr paid"
    and rest: "(case find_settlement x s of None \<Rightarrow> settle x face paid dp rp None
         | Some r \<Rightarrow> if settlement_differs x r then fail (PlainError ''settlement log identity reused with different data'')
             else if st_status r = ''settled'' then ret () else settle x face paid dp rp (Some r)) s = (Inr u, s')"
    by (auto simp: applySettlement_def txs tx_success)
  show "summarised s'"
  proof (cases "find_settlement x s")
    case None
    then have "settle x face paid dp rp None s = (Inr u, s')" using rest by simp
    from settle_summarised [OF this sm None [symmetric] a] show ?thesis by simp
  next
    case (Some r)
    show ?thesis
    proof (cases "st_status r = ''settled''")
      case True
      then show ?thesis using rest sm Some by (simp split: if_splits)
    next
      case False
      then have "settle x face paid dp rp (Some r) s = (Inr u, s')" "\<not> settlement_differs x r"
        using rest Some by (simp_all split: if_splits)
      then show ?thesis using settle_summarised [OF _ sm Some [symmetric] a] False by blast
    qed
  qed
qed

lemma keeps_ApplyChain: "keeps summarised (ApplyChain stream blocks events lookback)"
proof -
  have "keeps summarised (post_event i g x)" for i g x
    unfolding post_event_def redeem_def withdraw_def Let_def
    by (intro keeps_rules keeps_Balance keeps_Transfer keeps_applySettlement)
  moreover have "keeps summarised (redeem x)" for x
    unfolding redeem_def by (intro keeps_rules keeps_applySettlement)
  moreover have "keeps summarised (insert_broker_event r)" "keeps summarised (upsert_chain_block stream b)" "keeps summarised (delete_blocks stream P)" for r b P
    by (auto intro!: keeps_core simp: insert_broker_event_def upsert_chain_block_def delete_blocks_def txs)
  moreover have "keeps summarised (revive_event r x)" for r x
    unfolding revive_event_def Let_def by (rule keeps_core) (auto simp: txs)
  ultimately show ?thesis unfolding ApplyChain_def applyEscrowEvent_def insert_new_event_def
    by (intro keeps_rules keeps_tick keeps_SetCheckpoint)
qed

text \<open>A rewind takes the sums of every settlement back that it orphans.\<close>

lemma reverse_settlement_summarised:
  assumes "reverse_settlement chain contract r s = (Inr u, s')" "summarised s" "r \<in> set (settlements s)" "st_status r = ''settled''"
  shows "summarised s' \<and> settlements s' = update_rows (\<lambda>q. st_id q = st_id r) (\<lambda>q. q\<lparr>st_status := ''orphaned''\<rparr>) (settlements s)"
proof -
  let ?f = "\<lambda>q :: settlement_row. q\<lparr>st_status := ''orphaned''\<rparr>"
  from assms(1) obtain d v face paid k1 k2 d1 c1 d2 c2 s1 s2 s3 where
    t: "Transfer k1 ''orphaned deposit payment reversal'' ''settlement'' (st_id r) TreasurySettledSpend d1 EscrowDeposit c1 d s = (Inr (), s1)"
      "Transfer k2 ''orphaned reserve payment reversal'' ''settlement'' (st_id r) TreasurySettledSpend d2 EscrowReserve c2 v s1 = (Inr (), s2)"
    and a: "Amount (st_face r) = Inr face" "Amount (st_paid r) = Inr paid"
    and m: "updateSettlementMetrics ''settled'' ''orphaned'' (st_match r) face paid s2 = (Inr (), s3)"
    and s': "s' = orphan_settlement (st_id r) s3"
    by (auto simp: reverse_settlement_def txs Let_def)
  have sm2: "summarised s2" using keepsD [OF keeps_Transfer t(2) keepsD [OF keeps_Transfer t(1) assms(2)]] .
  have n2: "nonledger s2 = nonledger s" using Transfer_gap(3) [OF t(1)] Transfer_gap(3) [OF t(2)] by (rule trans [rotated])
  have "nonledger s3 = nonledger s2" using nonmetric_fields [OF updateSettlementMetrics_frame [OF m]] by blast
  note n = n2 trans [OF this n2]
  have st: "settlements s2 = settlements s" "settlements s3 = settlements s"
    using n [THEN nonledger_fields] by blast+
  let ?rows = "update_rows (\<lambda>q. st_id q = st_id r) ?f (settlements s2)"
  have wf: "amounts_text s2" using sm2 by (rule summarised_text)
  then have "distinct (map st_id (settlements s2))" by (simp add: amounts_text_def)
  from sum_update_rows [OF this assms(3) [folded st(1)], where f = ?f and g = "\<lambda>q. if st_status q = ''settled'' then contribution k (''settlement'', ''eth'', st_face q, st_paid q) else 0" for k]
  have sums: "settled_total ?rows k = settled_total (settlements s2) k + (- 1) * settled_part face paid k" for k
    using assms(4) a [THEN Amount_text] by (simp add: settled_total_def settled_part_def)
  have "stored (total s2) s2" using sm2 by (simp add: summarised_def)
  from updateSettlementMetrics_stored [OF m this] have m3: "core s3 = core s2"
    "stored (\<lambda>k. total s2 k - settled_part face paid k) s3" by (simp_all add: boolCount_def)
  have core: "core s' = core (s2\<lparr>settlements := ?rows\<rparr>)" and am: "metric_amounts s' = metric_amounts s3"
    using m3(1) by (simp_all add: s' orphan_settlement_def core_def)
  have "total (s2\<lparr>settlements := ?rows\<rparr>) = (\<lambda>k. total s2 k - settled_part face paid k)"
    by (rule ext) (simp add: total_def sums)
  then have "stored (total s') s'" using m3(2) core_cong [OF core] am by (simp add: stored_def)
  moreover have "amounts_text (s2\<lparr>settlements := ?rows\<rparr>)" using wf by (intro amounts_text_settlements) simp_all
  moreover have "tracked_ok (s2\<lparr>settlements := ?rows\<rparr>)" using sm2 by (simp add: summarised_def tracked_ok_def bal_def)
  ultimately have "summarised s'" using core_cong [OF core] by (simp add: summarised_def)
  moreover have "settlements s' = update_rows (\<lambda>q. st_id q = st_id r) ?f (settlements s)"
    by (simp add: s' orphan_settlement_def st)
  ultimately show ?thesis by blast
qed

lemma reverse_settlements_summarised:
  assumes "forE rs (reverse_settlement chain contract) s = (Inr u, s')" "summarised s" "distinct (map st_id rs)"
    and "\<And>r. r \<in> set rs \<Longrightarrow> r \<in> set (settlements s) \<and> st_status r = ''settled''"
  shows "summarised s'"
  using assms
proof (induction rs arbitrary: s)
  case (Cons r rs)
  from Cons.prems(1) obtain s1 where h: "reverse_settlement chain contract r s = (Inr (), s1)"
    and t: "forE rs (reverse_settlement chain contract) s1 = (Inr u, s')" by (auto simp: txs tx_success)
  have r: "r \<in> set (settlements s)" "st_status r = ''settled''" using Cons.prems(4) by simp_all
  note H = reverse_settlement_summarised [OF h Cons.prems(2) r]
  have "q \<in> set (settlements s1) \<and> st_status q = ''settled''" if q: "q \<in> set rs" for q
  proof -
    have "st_id q \<noteq> st_id r" using Cons.prems(3) q by (metis distinct.simps(2) image_eqI list.set_map list.simps(9))
    then show ?thesis using Cons.prems(4) [of q] q H by (force simp: set_update_rows)
  qed
  then show ?case using Cons.IH [OF t] H Cons.prems(3) by simp
qed simp

lemma keeps_Rewind: "keeps summarised (Rewind stream chain contract anc)"
proof -
  have first: "keeps summarised (bindE (gets (settlements_after chain contract n)) (\<lambda>rs. thenE (forE rs (reverse_settlement chain contract)) k))"
    if "keeps summarised k" for n and k :: "(world, unit) tx"
  proof (rule keepsI)
    fix s x s' assume sm: "summarised s"
      and run: "bindE (gets (settlements_after chain contract n)) (\<lambda>rs. thenE (forE rs (reverse_settlement chain contract)) k) s = (Inr x, s')"
    let ?rs = "settlements_after chain contract n s"
    from run obtain s1 where f: "forE ?rs (reverse_settlement chain contract) s = (Inr (), s1)" and k: "k s1 = (Inr x, s')"
      by (auto simp: tx_success)
    have "distinct (map st_id (settlements s))" using summarised_text [OF sm] by (simp add: amounts_text_def)
    then have "distinct (map st_id ?rs)"
      unfolding settlements_after_def newest_first_def by (simp add: distinct_map inj_on_def)
    from reverse_settlements_summarised [OF f sm this] have "summarised s1"
      by (auto simp: settlements_after_def newest_first_def)
    then show "summarised s'" by (rule keepsD [OF that k])
  qed
  have "keeps summarised (reverse_event chain contract r)" for r
  proof -
    have "keeps summarised (modify (orphan_event i))" for i by (rule keeps_core) (auto simp: orphan_event_def)
    then show ?thesis unfolding reverse_event_def unpost_event_def Let_def by (intro keeps_rules keeps_Transfer)
  qed
  moreover have "keeps summarised (delete_blocks stream P)" for P
    by (rule keeps_core) (auto simp: delete_blocks_def)
  ultimately have "keeps summarised (bindE (gets (events_after chain contract (Number anc))) (\<lambda>events.
      thenE (forE events (reverse_event chain contract)) (thenE (delete_blocks stream (\<lambda>n. Number anc < n))
        (SetCheckpoint ''chain'' stream (i64 (Number anc + 1)) (Hash anc)))))"
    by (intro keeps_rules keeps_SetCheckpoint)
  from first [OF this] have "keeps summarised (rewind_to stream chain contract anc)" unfolding rewind_to_def .
  then show ?thesis unfolding Rewind_def by (intro keeps_rules)
qed

end
