(* ===== verification/Migrations.thy ===== *)
theory Migrations
  imports GoText "HOL-Library.List_Lexorder" "HOL-Library.Char_ord"
begin

text \<open>
  \<open>migrations/migrations.go\<close>: the embedded schema files, the table that records which of them were
  applied, and the commands that bring a database up to date, take its latest migration back, and
  list where it stands.  What SQLite makes of a script, the arithmetic that completes the third
  migration, the hash and the clock are fields of the record \<open>engine\<close>; the rest of the database is
  whatever those work on.  \<open>Summaries\<close> puts the arithmetic of \<open>Backfill\<close> in its place.
\<close>

section \<open>The catalogue\<close>

record mig_status =
  Filename :: string
  SHA256 :: string
  AppliedAtMS :: "int option"
  Applied :: bool

record migration =
  m_status :: mig_status
  m_up :: string
  m_down :: string

text \<open>An entry of the embedded directory, in lexical order: its name, whether it is a directory, its contents.\<close>

type_synonym dir_entry = "string \<times> bool \<times> string"

record 'db engine =
  exec :: "string \<Rightarrow> 'db \<Rightarrow> 'db result"
  backfill :: "'db \<Rightarrow> 'db result"
  hash256 :: "string \<Rightarrow> string"
  unixepoch :: "nat \<Rightarrow> int"

text \<open>\<open>^[0-9]{3,}_[a-z0-9_]+\.sql$\<close>.  The underscore is not a digit, so the digits are a maximal run.\<close>

definition name_char :: "char \<Rightarrow> bool" where
  "name_char c \<longleftrightarrow> 97 \<le> code c \<and> code c \<le> 122 \<or> is_digit c \<or> c = CHR ''_''"

definition migrationName :: "string \<Rightarrow> bool" where
  "migrationName name =
     (let digits = takeWhile is_digit name; rest = dropWhile is_digit name; body = take (length rest - 5) (drop 1 rest) in
      3 \<le> length digits \<and> rest \<noteq> [] \<and> hd rest = CHR ''_'' \<and> 6 \<le> length rest \<and> suffix ''.sql'' rest \<and>
      (\<forall>c \<in> set body. name_char c))"

definition sections :: "string \<Rightarrow> string \<Rightarrow> (string \<times> string) result" where
  "sections name contents =
     (let (up, down, ok) = Cut (TrimSpace contents) ''-- DOWN'' in
      if \<not> ok \<or> \<not> prefix ''-- UP'' up \<or> Contains down ''-- DOWN''
      then Inl (PlainError (''invalid UP/DOWN migration '' @ name))
      else Inr (drop 5 up, down))"

definition load_migration :: "'db engine \<Rightarrow> string \<Rightarrow> string \<Rightarrow> migration result" where
  "load_migration en name contents =
     (if \<not> migrationName name then Inl (PlainError (''invalid migration filename '' @ name))
      else map_sum id (\<lambda>(up, down).
        \<lparr>m_status = \<lparr>Filename = name, SHA256 = hex_encode (hash256 en contents), AppliedAtMS = None, Applied = False\<rparr>,
         m_up = up, m_down = down\<rparr>) (sections name contents))"

fun catalog :: "'db engine \<Rightarrow> dir_entry list \<Rightarrow> migration list result" where
  "catalog en [] = Inr []"
| "catalog en ((name, isDir, contents) # entries) =
     (if isDir \<or> \<not> suffix ''.sql'' name then catalog en entries
      else case load_migration en name contents of
          Inl e \<Rightarrow> Inl e
        | Inr m \<Rightarrow> map_sum id (\<lambda>ms. m # ms) (catalog en entries))"

section \<open>The history of a database\<close>

text \<open>The migrations table, if there is one, by file name; and the rest of the database.\<close>

record 'db mig_db =
  history :: "(string \<times> string \<times> int) list option"
  content :: 'db
  ticks :: nat

definition initTable :: "('db mig_db, unit) tx" where
  "initTable = modify (\<lambda>s. case history s of None \<Rightarrow> s\<lparr>history := Some []\<rparr> | Some _ \<Rightarrow> s)"

text \<open>The loop over the recorded rows, in the order of their names.\<close>

fun read_history :: "mig_status list \<Rightarrow> (string \<times> string \<times> int) list \<Rightarrow> (string \<times> mig_status) list \<Rightarrow>
    (string \<times> mig_status) list result" where
  "read_history specs [] applied = Inr applied"
| "read_history specs ((name, hash, at) # rows) applied =
     (case find (\<lambda>x. Filename x = name) specs of
        None \<Rightarrow> Inl (PlainError (''database has unknown migration '' @ name))
      | Some expected \<Rightarrow>
          if hash \<noteq> SHA256 expected then Inl (PlainError (''migration '' @ name @ '' checksum mismatch''))
          else if map_of applied name \<noteq> None then Inl (PlainError (''duplicate migration '' @ name))
          else read_history specs rows
            ((name, \<lparr>Filename = name, SHA256 = hash, AppliedAtMS = Some at, Applied = True\<rparr>) # applied))"

text \<open>The loop over the catalogue: nothing may be applied after something missing.\<close>

fun list_statuses :: "(string \<times> mig_status) list \<Rightarrow> bool \<Rightarrow> mig_status list \<Rightarrow> mig_status list result" where
  "list_statuses applied missing [] = Inr []"
| "list_statuses applied missing (st # specs) =
     (case map_of applied (Filename st) of
        None \<Rightarrow> map_sum id (\<lambda>r. st # r) (list_statuses applied True specs)
      | Some saved \<Rightarrow>
          if missing then Inl (PlainError (''database migration history has a gap before '' @ Filename st))
          else map_sum id (\<lambda>r. st\<lparr>Applied := True, AppliedAtMS := AppliedAtMS saved\<rparr> # r) (list_statuses applied missing specs))"

definition List :: "migration list \<Rightarrow> 'db mig_db \<Rightarrow> mig_status list result" where
  "List specs s = (case history s of
     None \<Rightarrow> Inr (map m_status specs)
   | Some rows \<Rightarrow> (case read_history (map m_status specs) (sort_key fst rows) [] of
       Inl e \<Rightarrow> Inl e
     | Inr applied \<Rightarrow> list_statuses applied False (map m_status specs)))"

section \<open>Applying and reverting\<close>

definition history_rows :: "'db mig_db \<Rightarrow> (string \<times> string \<times> int) list" where
  "history_rows s = (case history s of None \<Rightarrow> [] | Some rows \<Rightarrow> rows)"

text \<open>The INSERT has the constraints of the table; the name is known to be absent.\<close>

definition record_applied :: "'db engine \<Rightarrow> mig_status \<Rightarrow> ('db mig_db, unit) tx" where
  "record_applied en st s =
     (if history s = None \<or> Filename st \<in> fst ` set (history_rows s) \<or> length (SHA256 st) \<noteq> 64 \<or>
         \<not> (\<forall>c \<in> set (SHA256 st). is_lower_hex c)
      then (Inl (SqliteError ''migrations''), s)
      else (Inr (), s\<lparr>history := Some (history_rows s @ [(Filename st, SHA256 st, unixepoch en (ticks s))]), ticks := Suc (ticks s)\<rparr>))"

definition remove_applied :: "mig_status \<Rightarrow> ('db mig_db, unit) tx" where
  "remove_applied st = modify (\<lambda>s. s\<lparr>history := map_option (filter (\<lambda>r. fst r \<noteq> Filename st)) (history s)\<rparr>)"

definition run_content :: "('db \<Rightarrow> 'db result) \<Rightarrow> ('db mig_db, unit) tx" where
  "run_content f s = (case f (content s) of Inl e \<Rightarrow> (Inl e, s) | Inr c \<Rightarrow> (Inr (), s\<lparr>content := c\<rparr>))"

definition migrate_one :: "'db engine \<Rightarrow> migration \<Rightarrow> bool \<Rightarrow> ('db mig_db, unit) tx" where
  "migrate_one en item down =
     (let st = m_status item; name = Filename st in
      bindE (gets (\<lambda>s. name \<in> fst ` set (history_rows s))) (\<lambda>present.
        if present \<noteq> down then ret ()
        else thenE (wrapE (''migration '' @ name) (run_content (exec en (if down then m_down item else m_up item))))
          (thenE (if \<not> down \<and> name = ''003_metric_summaries.sql'' then wrapE (''migration '' @ name) (run_content (backfill en)) else ret ())
            (if down then remove_applied st else record_applied en st))))"

text \<open>\<open>apply\<close>: the transaction, taken back on every error.\<close>

definition mig_apply :: "'db engine \<Rightarrow> migration \<Rightarrow> bool \<Rightarrow> ('db mig_db, unit) tx" where
  "mig_apply en item down s = (case migrate_one en item down s of
     (Inl e, s') \<Rightarrow> (Inl e, s\<lparr>ticks := ticks s'\<rparr>) | (Inr x, s') \<Rightarrow> (Inr x, s'))"

text \<open>The catalogue cannot change between the two readings of it, which is one argument here.\<close>

definition Up :: "'db engine \<Rightarrow> dir_entry list \<Rightarrow> ('db mig_db, unit) tx" where
  "Up en files =
     thenE initTable
       (bindE (liftE (catalog en files)) (\<lambda>specs.
        bindE (gets (List specs)) (\<lambda>listed.
        bindE (liftE listed) (\<lambda>statuses.
          forE (zip specs statuses) (\<lambda>(item, st). if Applied st then ret () else mig_apply en item False)))))"

definition Down :: "'db engine \<Rightarrow> dir_entry list \<Rightarrow> ('db mig_db, unit) tx" where
  "Down en files =
     thenE initTable
       (bindE (liftE (catalog en files)) (\<lambda>specs.
        bindE (gets (List specs)) (\<lambda>listed.
        bindE (liftE listed) (\<lambda>statuses.
          case find (\<lambda>(item, st). Applied st) (rev (zip specs statuses)) of
            None \<Rightarrow> ret ()
          | Some (item, st) \<Rightarrow> mig_apply en item True))))"

section \<open>Where a database stands\<close>

text \<open>What a script, or a list of them in order, makes of the database; \<open>None\<close> when one fails.\<close>

definition script_up :: "'db engine \<Rightarrow> migration \<Rightarrow> 'db \<Rightarrow> 'db option" where
  "script_up en m c = (case exec en (m_up m) c of Inl e \<Rightarrow> None
     | Inr c1 \<Rightarrow> if Filename (m_status m) = ''003_metric_summaries.sql''
         then (case backfill en c1 of Inl e \<Rightarrow> None | Inr c2 \<Rightarrow> Some c2) else Some c1)"

fun scripts_up :: "'db engine \<Rightarrow> migration list \<Rightarrow> 'db \<Rightarrow> 'db option" where
  "scripts_up en [] c = Some c"
| "scripts_up en (m # ms) c = (case script_up en m c of None \<Rightarrow> None | Some c1 \<Rightarrow> scripts_up en ms c1)"

definition spec_key :: "migration \<Rightarrow> string \<times> string" where
  "spec_key m = (Filename (m_status m), SHA256 (m_status m))"

text \<open>The first \<open>k\<close> migrations are the recorded ones.\<close>

definition recorded :: "migration list \<Rightarrow> nat \<Rightarrow> 'db mig_db \<Rightarrow> bool" where
  "recorded specs k s \<longleftrightarrow> k \<le> length specs \<and> map (\<lambda>(n, h, t). (n, h)) (history_rows s) = map spec_key (take k specs)"

definition standing :: "migration list \<Rightarrow> nat \<Rightarrow> 'db mig_db \<Rightarrow> bool" where
  "standing specs k s \<longleftrightarrow> recorded specs k s \<and>
     (\<exists>sts. List specs s = Inr sts \<and> map Applied sts = replicate k True @ replicate (length specs - k) False)"

text \<open>What the loaded catalogue guarantees: increasing names, nothing applied, hashes that fit the table.\<close>

definition catalog_ok :: "migration list \<Rightarrow> bool" where
  "catalog_ok specs \<longleftrightarrow> sorted_wrt (<) (map (Filename \<circ> m_status) specs) \<and>
     (\<forall>m \<in> set specs. \<not> Applied (m_status m) \<and> length (SHA256 (m_status m)) = 64 \<and>
        (\<forall>c \<in> set (SHA256 (m_status m)). is_lower_hex c))"

lemma hex_encode_ok: "length (hex_encode b) = 2 * length b" "c \<in> set (hex_encode b) \<Longrightarrow> is_lower_hex c"
proof -
  have d: "is_lower_hex (hex_digit n)" if "n < 16" for n
  proof -
    have "n \<in> set [0..<16]" using that by simp
    moreover have "\<forall>n \<in> set [0..<16]. is_lower_hex (hex_digit n)" by code_simp
    ultimately show ?thesis by blast
  qed
  have q: "code x div 16 < 16" for x using code_less [of x] by simp
  show "length (hex_encode b) = 2 * length b" by (induction b) (simp_all add: hex_encode_def)
  show "c \<in> set (hex_encode b) \<Longrightarrow> is_lower_hex c" by (auto simp: hex_encode_def d q)
qed

definition hash_fits :: "'db engine \<Rightarrow> bool" where
  "hash_fits en \<longleftrightarrow> (\<forall>c. length (hash256 en c) = 32)"

lemma load_migration_Inr:
  assumes "load_migration en name contents = Inr m" "hash_fits en"
  shows "Filename (m_status m) = name \<and> \<not> Applied (m_status m) \<and> length (SHA256 (m_status m)) = 64 \<and>
    (\<forall>c \<in> set (SHA256 (m_status m)). is_lower_hex c)"
  using assms by (auto simp: load_migration_def map_sum_def hex_encode_ok hash_fits_def split: if_splits sum.splits)

lemma catalog_names:
  assumes "hash_fits en" "catalog en files = Inr specs"
  shows "subseq (map (Filename \<circ> m_status) specs) (map fst files) \<and> (\<forall>m \<in> set specs. \<not> Applied (m_status m) \<and>
    length (SHA256 (m_status m)) = 64 \<and> (\<forall>c \<in> set (SHA256 (m_status m)). is_lower_hex c))"
  using assms
proof (induction en files arbitrary: specs rule: catalog.induct)
  case (2 en name isDir contents entries)
  show ?case
  proof (cases "isDir \<or> \<not> suffix ''.sql'' name")
    case True
    then have "catalog en entries = Inr specs" using 2(4) by simp
    from 2(1) [OF True 2(3) this] show ?thesis by auto
  next
    case False
    then obtain m ms where m: "load_migration en name contents = Inr m" and ms: "catalog en entries = Inr ms" and sp: "specs = m # ms"
      using 2(4) by (auto simp: map_sum_def split: sum.splits)
    show ?thesis using 2(2) [OF False m 2(3) ms] load_migration_Inr [OF m 2(3)] sp by simp
  qed
qed auto

lemma subseq_in: "subseq xs ys \<Longrightarrow> x \<in> set xs \<Longrightarrow> x \<in> set ys"
  by (erule list_emb_set) auto

lemma sorted_wrt_subseq: "subseq xs ys \<Longrightarrow> sorted_wrt P ys \<Longrightarrow> sorted_wrt P xs"
  by (induction rule: list_emb.induct) (auto dest: subseq_in)

lemma catalog_ok: "catalog en files = Inr specs \<Longrightarrow> hash_fits en \<Longrightarrow> sorted_wrt (<) (map fst files) \<Longrightarrow> catalog_ok specs"
  using catalog_names [of en files specs] sorted_wrt_subseq by (auto simp: catalog_ok_def)

section \<open>Reading the history\<close>

lemma find_name:
  assumes "distinct (map f specs)" "m \<in> set specs"
  shows "find (\<lambda>x. f x = f m) specs = Some m"
  using assms by (induction specs) auto

lemma read_history_ok:
  assumes "distinct (map Filename specs)" "distinct (map fst rows)" "fst ` set rows \<inter> fst ` set applied = {}"
    and "\<forall>(n, h, t) \<in> set rows. \<exists>st \<in> set specs. Filename st = n \<and> SHA256 st = h"
  shows "\<exists>applied'. read_history specs rows applied = Inr applied' \<and>
    (\<forall>n. map_of applied' n = None \<longleftrightarrow> n \<notin> fst ` set rows \<and> map_of applied n = None)"
  using assms(2-4)
proof (induction rows arbitrary: applied)
  case (Cons row rows)
  obtain n h t where row: "row = (n, h, t)" by (cases row) auto
  then obtain st where st: "st \<in> set specs" "Filename st = n" "SHA256 st = h" using Cons.prems(3) by auto
  have "find (\<lambda>x. Filename x = n) specs = Some st" using find_name [OF assms(1) st(1)] st(2) by simp
  moreover have "map_of applied n = None" using Cons.prems(2) row by (auto simp: map_of_eq_None_iff)
  moreover let ?applied = "(n, \<lparr>Filename = n, SHA256 = h, AppliedAtMS = Some t, Applied = True\<rparr>) # applied"
  have "\<exists>applied'. read_history specs rows ?applied = Inr applied' \<and>
      (\<forall>n'. map_of applied' n' = None \<longleftrightarrow> n' \<notin> fst ` set rows \<and> map_of ?applied n' = None)"
    using Cons.prems row by (intro Cons.IH) auto
  ultimately show ?case using st(3) row by auto
qed simp

lemma list_statuses_missing:
  "\<forall>st \<in> set specs. map_of applied (Filename st) = None \<and> \<not> Applied st \<Longrightarrow>
    \<exists>sts. list_statuses applied missing specs = Inr sts \<and> map Applied sts = replicate (length specs) False"
proof (induction specs arbitrary: missing)
  case (Cons st specs)
  then obtain sts where "list_statuses applied True specs = Inr sts" "map Applied sts = replicate (length specs) False"
    by (metis list.set_intros(2))
  then show ?case using Cons.prems by simp
qed simp

lemma list_statuses_ok:
  assumes "\<forall>st \<in> set old. map_of applied (Filename st) \<noteq> None"
    "\<forall>st \<in> set todo. map_of applied (Filename st) = None \<and> \<not> Applied st"
  shows "\<exists>sts. list_statuses applied False (old @ todo) = Inr sts \<and>
    map Applied sts = replicate (length old) True @ replicate (length todo) False"
  using assms(1)
proof (induction old)
  case Nil
  then show ?case using list_statuses_missing [OF assms(2)] by simp
qed fastforce

lemma catalog_ok_names:
  assumes "catalog_ok specs"
  shows "distinct (map Filename (map m_status specs))" "sorted (map Filename (map m_status specs))"
  using assms strict_sorted_iff [of "map (Filename \<circ> m_status) specs"] by (simp_all add: catalog_ok_def)

lemma recorded_standing:
  assumes "catalog_ok specs" "recorded specs k s"
  shows "standing specs k s"
proof (cases "history s")
  case None
  then have "k = 0 \<or> specs = []" using assms(2) by (auto simp: recorded_def history_rows_def)
  then have "k = 0" using assms(2) by (auto simp: recorded_def)
  moreover have "map Applied (map m_status specs) = replicate (length specs) False"
    using assms(1) by (auto simp: catalog_ok_def intro!: nth_equalityI)
  ultimately show ?thesis using assms(2) None by (simp add: standing_def List_def)
next
  case (Some rows)
  let ?sts = "map m_status specs"
  have k: "k \<le> length specs" and rows: "map (\<lambda>(n, h, t). (n, h)) rows = map spec_key (take k specs)"
    using assms(2) Some by (simp_all add: recorded_def history_rows_def)
  have "map fst (map (\<lambda>(n, h, t). (n, h)) rows) = map fst (map spec_key (take k specs))" using rows by simp
  then have names: "map fst rows = map Filename (take k ?sts)"
    by (simp add: comp_def case_prod_unfold spec_key_def take_map)
  have dist: "distinct (map Filename ?sts)" and srt: "sorted (map Filename ?sts)" using catalog_ok_names [OF assms(1)] by auto
  have "sorted (map fst rows)" unfolding names take_map [symmetric] using srt by (rule sorted_wrt_take)
  then have sk: "sort_key fst rows = rows" by (rule sort_key_id_if_sorted)
  have d: "distinct (map fst rows)" unfolding names take_map [symmetric] using dist by (rule distinct_take)
  have specs: "\<forall>(n, h, t) \<in> set rows. \<exists>st \<in> set ?sts. Filename st = n \<and> SHA256 st = h"
  proof (intro ballI, clarify)
    fix n h t assume "(n, h, t) \<in> set rows"
    then have "(n, h) \<in> set (map (\<lambda>(n, h, t). (n, h)) rows)" by force
    then obtain m where "m \<in> set (take k specs)" "(n, h) = spec_key m" unfolding rows by auto
    then show "\<exists>st \<in> set ?sts. Filename st = n \<and> SHA256 st = h"
      by (auto simp: spec_key_def dest: in_set_takeD)
  qed
  from read_history_ok [OF dist d _ specs, of "[]"] obtain applied where
    r: "read_history ?sts rows [] = Inr applied" and dom: "\<And>n. map_of applied n = None \<longleftrightarrow> n \<notin> fst ` set rows" by auto
  have rn: "fst ` set rows = Filename ` set (take k ?sts)" using names by (metis set_map)
  have "distinct (map Filename (take k ?sts @ drop k ?sts))" using dist by simp
  then have disj: "Filename ` set (take k ?sts) \<inter> Filename ` set (drop k ?sts) = {}" by (simp only: map_append distinct_append set_map)
  have "\<exists>sts. list_statuses applied False (take k ?sts @ drop k ?sts) = Inr sts \<and>
      map Applied sts = replicate (length (take k ?sts)) True @ replicate (length (drop k ?sts)) False"
  proof (rule list_statuses_ok)
    show "\<forall>st \<in> set (take k ?sts). map_of applied (Filename st) \<noteq> None" using dom rn by blast
    have "\<forall>st \<in> set ?sts. \<not> Applied st" using assms(1) by (auto simp: catalog_ok_def)
    then show "\<forall>st \<in> set (drop k ?sts). map_of applied (Filename st) = None \<and> \<not> Applied st"
      using disj dom rn by (blast dest: in_set_dropD)
  qed
  then show ?thesis using assms(2) k r by (simp add: standing_def List_def Some sk min.absorb2 [OF k])
qed

section \<open>One migration\<close>

lemma run_content_cases:
  "run_content f s = (r, s') \<Longrightarrow> (case f (content s) of Inl e \<Rightarrow> r = Inl e \<and> s' = s | Inr c \<Rightarrow> r = Inr () \<and> s' = s\<lparr>content := c\<rparr>)"
  by (auto simp: run_content_def split: sum.splits)

lemma history_rows_content [simp]: "history_rows (s\<lparr>content := c\<rparr>) = history_rows s"
  by (simp add: history_rows_def)

text \<open>Applying a migration that is not recorded: either its script ran and it is recorded, or nothing happened.\<close>

lemma mig_apply_up:
  assumes "mig_apply en m False s = (r, s')" "Filename (m_status m) \<notin> fst ` set (history_rows s)" "history s \<noteq> None"
    and "length (SHA256 (m_status m)) = 64" "\<forall>c \<in> set (SHA256 (m_status m)). is_lower_hex c"
  shows "case script_up en m (content s) of
      None \<Rightarrow> isl r \<and> history s' = history s \<and> content s' = content s
    | Some c \<Rightarrow> r = Inr () \<and> content s' = c \<and>
        (\<exists>t. history s' = Some (history_rows s @ [(Filename (m_status m), SHA256 (m_status m), t)]))"
proof -
  let ?name = "Filename (m_status m)"
  have run: "mig_apply en m False s = (case thenE (wrapE (''migration '' @ ?name) (run_content (exec en (m_up m))))
        (thenE (if ?name = ''003_metric_summaries.sql'' then wrapE (''migration '' @ ?name) (run_content (backfill en)) else ret ())
          (record_applied en (m_status m))) s of
      (Inl e, s') \<Rightarrow> (Inl e, s\<lparr>ticks := ticks s'\<rparr>) | (Inr x, s') \<Rightarrow> (Inr x, s'))"
    using assms(2) by (simp add: mig_apply_def migrate_one_def Let_def)
  have rec: "record_applied en (m_status m) (s\<lparr>content := c\<rparr>) =
      (Inr (), s\<lparr>content := c, history := Some (history_rows s @ [(?name, SHA256 (m_status m), unixepoch en (ticks s))]), ticks := Suc (ticks s)\<rparr>)" for c
    using assms(2-5) by (simp add: record_applied_def)
  show ?thesis
  proof (cases "exec en (m_up m) (content s)")
    case (Inl e)
    then show ?thesis using assms(1) by (auto simp: run thenE_def bindE_def wrapE_def run_content_def script_up_def)
  next
    case (Inr c1)
    show ?thesis
    proof (cases "?name = ''003_metric_summaries.sql''")
      case True
      then show ?thesis using assms(1) rec Inr
        by (cases "backfill en c1") (auto simp: run thenE_def bindE_def wrapE_def run_content_def script_up_def)
    next
      case False
      then show ?thesis using assms(1) rec Inr by (auto simp: run thenE_def bindE_def wrapE_def run_content_def script_up_def)
    qed
  qed
qed

lemma mig_apply_down:
  assumes "mig_apply en m True s = (r, s')" "Filename (m_status m) \<in> fst ` set (history_rows s)"
  shows "case exec en (m_down m) (content s) of
      Inl e \<Rightarrow> isl r \<and> history s' = history s \<and> content s' = content s
    | Inr c \<Rightarrow> r = Inr () \<and> content s' = c \<and>
        history s' = map_option (filter (\<lambda>x. fst x \<noteq> Filename (m_status m))) (history s)"
  using assms
  by (auto simp: mig_apply_def migrate_one_def Let_def thenE_def bindE_def wrapE_def run_content_def
      remove_applied_def split: sum.splits prod.splits if_splits)

section \<open>The commands\<close>

lemma recorded_names:
  assumes "recorded specs k s"
  shows "fst ` set (history_rows s) = (Filename \<circ> m_status) ` set (take k specs)"
proof -
  have "map fst (map (\<lambda>(n, h, t). (n, h)) (history_rows s)) = map fst (map spec_key (take k specs))"
    using assms by (simp add: recorded_def)
  then have "map fst (history_rows s) = map (Filename \<circ> m_status) (take k specs)"
    by (simp add: comp_def case_prod_unfold spec_key_def)
  then show ?thesis by (metis set_map)
qed

lemma recorded_fresh:
  assumes "catalog_ok specs" "recorded specs k s" "k \<le> j" "j < length specs"
  shows "Filename (m_status (specs ! j)) \<notin> fst ` set (history_rows s)"
proof -
  let ?f = "Filename \<circ> m_status"
  have "distinct (map ?f (take k specs @ drop k specs))" using catalog_ok_names(1) [OF assms(1)] by simp
  then have disj: "?f ` set (take k specs) \<inter> ?f ` set (drop k specs) = {}" by (simp only: map_append distinct_append set_map)
  have "specs ! j \<in> set (drop k specs)" using assms(3,4) by (auto simp: in_set_conv_nth intro!: exI [of _ "j - k"])
  then have "?f (specs ! j) \<in> ?f ` set (drop k specs)" by (rule imageI)
  then have "?f (specs ! j) \<notin> fst ` set (history_rows s)" using disj unfolding recorded_names [OF assms(2)] by blast
  then show ?thesis by simp
qed

lemma catalog_ok_nth:
  "catalog_ok specs \<Longrightarrow> k < length specs \<Longrightarrow>
    length (SHA256 (m_status (specs ! k))) = 64 \<and> (\<forall>c \<in> set (SHA256 (m_status (specs ! k))). is_lower_hex c)"
  unfolding catalog_ok_def using nth_mem by blast

lemma initTable_run:
  assumes "recorded specs k s"
  obtains s1 where "initTable s = (Inr (), s1)" "recorded specs k s1" "history s1 = Some (history_rows s)" "content s1 = content s"
  using assms by (auto simp: initTable_def recorded_def history_rows_def split: option.splits)

lemma forE_skip: "\<forall>x \<in> set xs. f x = ret () \<Longrightarrow> forE (xs @ ys) f s = forE ys f s"
  by (induction xs) (simp_all add: thenE_def bindE_def)

lemma Up_loop:
  assumes "catalog_ok specs" "length sts = length specs - k" "\<forall>st \<in> set sts. \<not> Applied st" "recorded specs k s" "history s \<noteq> None"
    and "forE (zip (drop k specs) sts) (\<lambda>(item, st). if Applied st then ret () else mig_apply en item False) s = (r, s')"
  shows "\<exists>k'. k \<le> k' \<and> recorded specs k' s' \<and> scripts_up en (drop k (take k' specs)) (content s) = Some (content s') \<and>
    (r = Inr () \<longleftrightarrow> k' = length specs)"
  using assms(2-6)
proof (induction sts arbitrary: k s)
  case Nil
  then have "k = length specs" by (simp add: recorded_def)
  then show ?case using Nil by auto
next
  case (Cons st sts)
  then have k: "k < length specs" by simp
  let ?m = "specs ! k"
  let ?f = "\<lambda>(item, st). if Applied st then ret () else mig_apply en item False"
  have "drop k specs = ?m # drop (Suc k) specs" using k by (rule Cons_nth_drop_Suc [symmetric])
  then have run: "thenE (mig_apply en ?m False) (forE (zip (drop (Suc k) specs) sts) ?f) s = (r, s')"
    using Cons.prems(2,5) by simp
  obtain r1 s1 where m: "mig_apply en ?m False s = (r1, s1)" by fastforce
  note up = mig_apply_up [OF m recorded_fresh [OF assms(1) Cons.prems(3) order_refl k] Cons.prems(4)]
  show ?case
  proof (cases "script_up en ?m (content s)")
    case None
    then have "isl r1" "history s1 = history s" "content s1 = content s" using up catalog_ok_nth [OF assms(1) k] by auto
    moreover from this(1) have "r = r1" "isl r" "s' = s1" using run m by (auto simp: thenE_def bindE_def split: sum.splits)
    ultimately show ?thesis using Cons.prems(3) k by (intro exI [of _ k]) (auto simp: recorded_def history_rows_def)
  next
    case (Some c)
    then obtain t where r1: "r1 = Inr ()" "content s1 = c" and
      h: "history s1 = Some (history_rows s @ [(Filename (m_status ?m), SHA256 (m_status ?m), t)])"
      using up catalog_ok_nth [OF assms(1) k] by auto
    have rec: "recorded specs (Suc k) s1"
      using Cons.prems(3) k h by (simp add: recorded_def history_rows_def spec_key_def take_Suc_conv_app_nth)
    have rest: "forE (zip (drop (Suc k) specs) sts) ?f s1 = (r, s')"
      using run m r1(1) by (simp add: thenE_def bindE_def)
    have "length sts = length specs - Suc k" "\<forall>st \<in> set sts. \<not> Applied st" "history s1 \<noteq> None" using Cons.prems(1,2) h by simp_all
    from Cons.IH [OF this(1,2) rec this(3) rest] obtain k' where k': "Suc k \<le> k'" "recorded specs k' s'"
      "scripts_up en (drop (Suc k) (take k' specs)) (content s1) = Some (content s')" "r = Inr () \<longleftrightarrow> k' = length specs" by blast
    have "drop k (take k' specs) = ?m # drop (Suc k) (take k' specs)"
      using k'(1) k Cons_nth_drop_Suc [of k "take k' specs"] by simp
    then have "scripts_up en (drop k (take k' specs)) (content s) = Some (content s')" using k'(3) Some r1(2) by simp
    then show ?thesis using k' by (intro exI [of _ k']) auto
  qed
qed

lemma Applied_parts:
  assumes "map Applied sts = replicate k True @ replicate j False"
  shows "\<forall>st \<in> set (take k sts). Applied st" "\<forall>st \<in> set (drop k sts). \<not> Applied st" "length sts = k + j"
proof -
  have "map Applied (take k sts) = replicate k True" "map Applied (drop k sts) = replicate j False"
    unfolding take_map [symmetric] drop_map [symmetric] assms by simp_all
  then show "\<forall>st \<in> set (take k sts). Applied st" "\<forall>st \<in> set (drop k sts). \<not> Applied st"
    by (metis in_set_replicate imageI set_map)+
  show "length sts = k + j" using assms by (metis length_append length_map length_replicate)
qed

lemma Up_effect:
  assumes "catalog_ok specs" "catalog en files = Inr specs" "recorded specs k s" "Up en files s = (r, s')"
  shows "\<exists>k'. k \<le> k' \<and> recorded specs k' s' \<and> scripts_up en (drop k (take k' specs)) (content s) = Some (content s') \<and>
    (r = Inr () \<longleftrightarrow> k' = length specs)"
proof -
  from assms(3) obtain s1 where s1: "initTable s = (Inr (), s1)" "recorded specs k s1" "history s1 = Some (history_rows s)"
    "content s1 = content s" by (rule initTable_run)
  from recorded_standing [OF assms(1) s1(2)] obtain sts where sts: "List specs s1 = Inr sts"
    "map Applied sts = replicate k True @ replicate (length specs - k) False" by (auto simp: standing_def)
  note ap = Applied_parts [OF sts(2)]
  let ?f = "\<lambda>(item, st). if Applied st then ret () else mig_apply en item False"
  have k: "k \<le> length specs" using s1(2) by (simp add: recorded_def)
  have zip: "zip specs sts = zip (take k specs) (take k sts) @ zip (drop k specs) (drop k sts)"
    using k ap(3) by (metis append_take_drop_id length_take zip_append add_diff_inverse_nat min.absorb2 le_add1 not_less)
  have "Up en files s = forE (zip specs sts) ?f s1"
    by (simp add: Up_def thenE_def bindE_def s1(1) assms(2) liftE_simp sts(1))
  also have "\<dots> = forE (zip (drop k specs) (drop k sts)) ?f s1"
    unfolding zip by (rule forE_skip) (use ap(1) in \<open>auto dest!: set_zip_rightD\<close>)
  finally have "forE (zip (drop k specs) (drop k sts)) ?f s1 = (r, s')" using assms(4) by simp
  from Up_loop [OF assms(1) _ ap(2) s1(2) _ this] ap(3) s1(3,4) show ?thesis by simp
qed

lemma find_skip: "\<forall>x \<in> set xs. \<not> P x \<Longrightarrow> find P (xs @ ys) = find P ys"
  by (induction xs) auto

lemma recorded_remove:
  assumes "catalog_ok specs" "recorded specs (Suc j) s"
  shows "map (\<lambda>(n, h, t). (n, h)) (filter (\<lambda>x. fst x \<noteq> Filename (m_status (specs ! j))) (history_rows s)) =
    map spec_key (take j specs)"
proof -
  let ?nm = "Filename (m_status (specs ! j))"
  have j: "j < length specs" using assms(2) by (simp add: recorded_def)
  have "map (\<lambda>(n, h, t). (n, h)) (filter (\<lambda>x. fst x \<noteq> ?nm) (history_rows s)) =
      filter (\<lambda>y. fst y \<noteq> ?nm) (map (\<lambda>(n, h, t). (n, h)) (history_rows s))"
    by (induction "history_rows s") (auto simp: filter_map comp_def case_prod_unfold)
  also have "\<dots> = filter (\<lambda>y. fst y \<noteq> ?nm) (map spec_key (take j specs) @ [spec_key (specs ! j)])"
    using assms(2) j by (simp add: recorded_def take_Suc_conv_app_nth)
  also have "\<dots> = filter (\<lambda>y. fst y \<noteq> ?nm) (map spec_key (take j specs))" by (simp add: spec_key_def)
  also have "\<dots> = map spec_key (take j specs)"
  proof (rule filter_True, rule ballI)
    fix y assume "y \<in> set (map spec_key (take j specs))"
    then obtain i where i: "i < j" "y = spec_key (specs ! i)" using j by (auto simp: in_set_conv_nth)
    have "distinct (map (Filename \<circ> m_status) specs)" using catalog_ok_names(1) [OF assms(1)] by simp
    from nth_eq_iff_index_eq [OF this, of i j] i j show "fst y \<noteq> ?nm" by (simp add: spec_key_def)
  qed
  finally show ?thesis .
qed

lemma Down_effect:
  assumes "catalog_ok specs" "catalog en files = Inr specs" "recorded specs k s" "Down en files s = (r, s')"
  shows "(case k of
      0 \<Rightarrow> r = Inr () \<and> recorded specs 0 s' \<and> content s' = content s
    | Suc j \<Rightarrow> (case exec en (m_down (specs ! j)) (content s) of
          Inl e \<Rightarrow> isl r \<and> recorded specs k s' \<and> content s' = content s
        | Inr c \<Rightarrow> r = Inr () \<and> recorded specs j s' \<and> content s' = c))"
proof -
  from assms(3) obtain s1 where s1: "initTable s = (Inr (), s1)" "recorded specs k s1" "history s1 = Some (history_rows s)"
    "content s1 = content s" by (rule initTable_run)
  from recorded_standing [OF assms(1) s1(2)] obtain sts where sts: "List specs s1 = Inr sts"
    "map Applied sts = replicate k True @ replicate (length specs - k) False" by (auto simp: standing_def)
  note ap = Applied_parts [OF sts(2)]
  let ?P = "\<lambda>(item, st). Applied st"
  let ?go = "case find ?P (rev (zip specs sts)) of None \<Rightarrow> ret () | Some (item, st) \<Rightarrow> mig_apply en item True"
  have k: "k \<le> length specs" using s1(2) by (simp add: recorded_def)
  have zip: "zip specs sts = zip (take k specs) (take k sts) @ zip (drop k specs) (drop k sts)"
    using k ap(3) by (metis append_take_drop_id length_take zip_append add_diff_inverse_nat min.absorb2 le_add1 not_less)
  have found: "find ?P (rev (zip specs sts)) = find ?P (rev (zip (take k specs) (take k sts)))"
    unfolding zip rev_append by (rule find_skip) (use ap(2) in \<open>auto dest!: set_zip_rightD\<close>)
  have run: "?go s1 = (r, s')"
    using assms(4) by (simp add: Down_def thenE_def bindE_def s1(1) assms(2) liftE_simp sts(1))
  show ?thesis
  proof (cases k)
    case 0
    then show ?thesis using run s1(2,4) by (simp add: found)
  next
    case (Suc j)
    have j: "j < length specs" "j < length sts" using k Suc ap(3) by simp_all
    have "sts ! j \<in> set (take k sts)" using Suc j(2) by (auto simp: in_set_conv_nth)
    then have "find ?P (rev (zip (take k specs) (take k sts))) = Some (specs ! j, sts ! j)"
      using Suc j ap(1) by (simp add: take_Suc_conv_app_nth)
    then have m: "mig_apply en (specs ! j) True s1 = (r, s')" using run found by simp
    have "specs ! j \<in> set (take k specs)" using Suc j(1) by (auto simp: in_set_conv_nth)
    then have "Filename (m_status (specs ! j)) \<in> fst ` set (history_rows s1)"
      unfolding recorded_names [OF s1(2)] by force
    note down = mig_apply_down [OF m this]
    show ?thesis
    proof (cases "exec en (m_down (specs ! j)) (content s)")
      case (Inl e)
      then show ?thesis using down s1(2,4) Suc by (simp add: recorded_def history_rows_def)
    next
      case (Inr c)
      then have c: "r = Inr ()" "content s' = c"
        and h: "history s' = Some (filter (\<lambda>x. fst x \<noteq> Filename (m_status (specs ! j))) (history_rows s1))"
        using down s1(3,4) by (simp_all add: history_rows_def)
      have "recorded specs j s'"
        using recorded_remove [OF assms(1) s1(2) [unfolded Suc]] j(1) h by (simp add: recorded_def history_rows_def)
      then show ?thesis using Inr c Suc by simp
    qed
  qed
qed

section \<open>Every history\<close>

text \<open>
  A database that started without a migrations table and has since been migrated up and down any
  number of times, with whatever outcome, and used in between.
\<close>

inductive managed :: "'db engine \<Rightarrow> dir_entry list \<Rightarrow> 'db mig_db \<Rightarrow> bool" for en files where
  fresh: "history s = None \<Longrightarrow> managed en files s"
| up: "managed en files s \<Longrightarrow> Up en files s = (r, s') \<Longrightarrow> managed en files s'"
| down: "managed en files s \<Longrightarrow> Down en files s = (r, s') \<Longrightarrow> managed en files s'"
| used: "managed en files s \<Longrightarrow> history s' = history s \<Longrightarrow> managed en files s'"

lemma managed_recorded:
  assumes "managed en files s" "catalog en files = Inr specs" "catalog_ok specs"
  shows "\<exists>k. recorded specs k s"
  using assms(1)
proof (induction rule: managed.induct)
  case (fresh s)
  then show ?case by (intro exI [of _ 0]) (simp add: recorded_def history_rows_def)
next
  case (up s r s')
  then show ?case using Up_effect [OF assms(3,2)] by blast
next
  case (down s r s')
  then obtain k where "recorded specs k s" by blast
  from Down_effect [OF assms(3,2) this down(2)] show ?case by (auto split: nat.splits sum.splits)
next
  case (used s s')
  then show ?case by (simp add: recorded_def history_rows_def)
qed

text \<open>
  C31: the migration history is always a prefix of the catalogue that the listing accepts; bringing
  the database up runs exactly the missing scripts, once each and in order, and records each of them
  with its script: it succeeds exactly when all are recorded, and after a failure it can be resumed
  where it stopped; taking it down reverts exactly the latest recorded script, or nothing.
\<close>

theorem migrations_exact:
  assumes "managed en files s" "catalog en files = Inr specs" "sorted_wrt (<) (map fst files)" "hash_fits en"
  shows "\<exists>k. standing specs k s \<and>
    (\<forall>r s'. Up en files s = (r, s') \<longrightarrow> (\<exists>k'. k \<le> k' \<and> standing specs k' s' \<and>
       scripts_up en (drop k (take k' specs)) (content s) = Some (content s') \<and> (r = Inr () \<longleftrightarrow> k' = length specs))) \<and>
    (\<forall>r s'. Down en files s = (r, s') \<longrightarrow> (case k of
        0 \<Rightarrow> r = Inr () \<and> standing specs 0 s' \<and> content s' = content s
      | Suc j \<Rightarrow> (case exec en (m_down (specs ! j)) (content s) of
            Inl e \<Rightarrow> isl r \<and> standing specs k s' \<and> content s' = content s
          | Inr c \<Rightarrow> r = Inr () \<and> standing specs j s' \<and> content s' = c)))"
proof -
  have ok: "catalog_ok specs" using assms(2,3,4) by (blast intro: catalog_ok)
  note st = recorded_standing [OF ok]
  obtain k where k: "recorded specs k s" using managed_recorded [OF assms(1,2) ok] by blast
  show ?thesis
  proof (rule exI [of _ k], intro conjI allI impI)
    show "standing specs k s" by (rule st [OF k])
    fix r s' assume "Up en files s = (r, s')"
    from Up_effect [OF ok assms(2) k this] st show "\<exists>k'. k \<le> k' \<and> standing specs k' s' \<and>
       scripts_up en (drop k (take k' specs)) (content s) = Some (content s') \<and> (r = Inr () \<longleftrightarrow> k' = length specs)" by blast
  next
    fix r s' assume "Down en files s = (r, s')"
    from Down_effect [OF ok assms(2) k this] st show "case k of
        0 \<Rightarrow> r = Inr () \<and> standing specs 0 s' \<and> content s' = content s
      | Suc j \<Rightarrow> (case exec en (m_down (specs ! j)) (content s) of
            Inl e \<Rightarrow> isl r \<and> standing specs k s' \<and> content s' = content s
          | Inr c \<Rightarrow> r = Inr () \<and> standing specs j s' \<and> content s' = c)" by (auto split: nat.splits sum.splits)
  qed
qed

text \<open>Two scripts, the second with the arithmetic of the third migration, applied to an empty database.\<close>

definition sample_file :: "string \<Rightarrow> string \<Rightarrow> string \<Rightarrow> dir_entry" where
  "sample_file name up down = (name, False, ''-- UP'' @ up @ [CHR 0x0A] @ ''-- DOWN'' @ down @ [CHR 0x0A])"

definition sample_files :: "dir_entry list" where
  "sample_files = [sample_file ''001_initial.sql'' ''create'' ''drop'', sample_file ''003_metric_summaries.sql'' ''add'' ''remove'',
     (''README.md'', False, ''text'')]"

definition sample_engine :: "string list engine" where
  "sample_engine = \<lparr>exec = (\<lambda>script db. Inr (db @ [script])), backfill = (\<lambda>db. Inr (db @ [''backfill''])),
     hash256 = (\<lambda>c. take 32 (c @ replicate 32 (CHR ''0''))), unixepoch = int\<rparr>"

definition sample_fresh :: "string list mig_db" where
  "sample_fresh = \<lparr>history = None, content = [], ticks = 0\<rparr>"

definition sample_upgraded :: "string list mig_db" where
  "sample_upgraded = snd (Up sample_engine sample_files sample_fresh)"

definition sample_specs :: "migration list" where
  "sample_specs = (case catalog sample_engine sample_files of Inl e \<Rightarrow> [] | Inr specs \<Rightarrow> specs)"

lemma sample_catalog: "catalog sample_engine sample_files = Inr sample_specs" "length sample_specs = 2"
proof -
  have "\<not> isl (catalog sample_engine sample_files)" by code_simp
  then show "catalog sample_engine sample_files = Inr sample_specs"
    by (cases "catalog sample_engine sample_files") (simp_all add: sample_specs_def)
  show "length sample_specs = 2" by code_simp
qed

lemma migrations_exact_witness:
  "standing sample_specs 2 sample_upgraded \<and> content sample_upgraded = [''create'' @ [CHR 0x0A], ''add'' @ [CHR 0x0A], ''backfill'']"
proof -
  have m: "managed sample_engine sample_files sample_fresh" by (rule managed.fresh) (simp add: sample_fresh_def)
  have "sorted_wrt (<) (map fst sample_files)" "hash_fits sample_engine"
    by (simp_all add: sample_files_def sample_file_def sample_engine_def hash_fits_def min_def)
  from migrations_exact [OF m sample_catalog(1) this] obtain k where k: "standing sample_specs k sample_fresh"
    and up: "\<forall>r s'. Up sample_engine sample_files sample_fresh = (r, s') \<longrightarrow> (\<exists>k'. k \<le> k' \<and> standing sample_specs k' s' \<and>
       scripts_up sample_engine (drop k (take k' sample_specs)) (content sample_fresh) = Some (content s') \<and>
       (r = Inr () \<longleftrightarrow> k' = length sample_specs))" by blast
  have "fst (Up sample_engine sample_files sample_fresh) = Inr ()" by code_simp
  then have "Up sample_engine sample_files sample_fresh = (Inr (), sample_upgraded)" by (simp add: sample_upgraded_def prod_eq_iff)
  then have "standing sample_specs 2 sample_upgraded" using up sample_catalog(2) by auto
  moreover have "content sample_upgraded = [''create'' @ [CHR 0x0A], ''add'' @ [CHR 0x0A], ''backfill'']" by code_simp
  ultimately show ?thesis by blast
qed

end
