(* ===== verification/Summaries.thy ===== *)
theory Summaries
  imports Upkeep Migrations
begin

text \<open>
  The monetary summaries of a running installation: from the third migration on, whatever operations
  of the store run, in any order and with any outcome, the stored sums are the ones the migration
  would compute.
\<close>

section \<open>The operations of the store\<close>

definition consistent :: "world \<Rightarrow> bool" where
  "consistent s \<longleftrightarrow> accounts_ok s \<and> summarised s"

definition upholds :: "(world, 'a) tx \<Rightarrow> bool" where
  "upholds m \<longleftrightarrow> (\<forall>s r s'. consistent s \<longrightarrow> m s = (r, s') \<longrightarrow> consistent s')"

lemma consistent_cong:
  assumes "grants s' = grants s" "core s' = core s" "metric_amounts s' = metric_amounts s"
    and "ledger_transactions s' = ledger_transactions s" "ledger_entries s' = ledger_entries s"
  shows "consistent s' = consistent s"
proof -
  have "accounts_ok s' = accounts_ok s" using assms by (simp add: core_def accounts_ok_def ledger_ok_def net_def bal_def [abs_def])
  then show ?thesis using summarised_cong [OF assms(2,3)] by (simp add: consistent_def)
qed

lemma tables_consistent: "tables.truncate s' = tables.truncate s \<Longrightarrow> consistent s' = consistent s"
  by (rule consistent_cong) (simp_all add: tables.defs core_def)

lemma keeps_consistent: "keeps accounts_ok m \<Longrightarrow> keeps summarised m \<Longrightarrow> keeps consistent m"
  unfolding keeps_def consistent_def by blast

lemma upholds_Write:
  assumes "keeps consistent m"
  shows "upholds (Write m)"
  unfolding upholds_def
proof (intro allI impI)
  fix s r s' assume c: "consistent s" and run: "Write m s = (r, s')"
  show "consistent s'"
  proof (cases r)
    case (Inl e)
    then show ?thesis using tables_consistent Write_Inl run c by blast
  next
    case (Inr x)
    then show ?thesis using run c assms by (auto simp: txs keeps_def)
  qed
qed

lemma upholds_intros:
  "upholds (fail e)" "\<And>c m. (\<not> c \<Longrightarrow> upholds m) \<Longrightarrow> upholds (if c then fail e else m)"
  "\<And>f r. (\<And>x. r = Inr x \<Longrightarrow> upholds (f x)) \<Longrightarrow> upholds (bindE (liftE r) f)"
  by (auto simp: upholds_def bindE_liftE split: sum.splits)

lemma accounts_ok_other [simp]:
  "accounts_ok (s\<lparr>tick := n\<rparr>) = accounts_ok s" "accounts_ok (s\<lparr>api_keys := k\<rparr>) = accounts_ok s"
  "accounts_ok (s\<lparr>sessions := p\<rparr>) = accounts_ok s" "accounts_ok (s\<lparr>management_idempotency := i\<rparr>) = accounts_ok s"
  by (simp_all add: accounts_ok_def ledger_ok_def net_def bal_def [abs_def])

lemma summarised_other [simp]:
  "summarised (s\<lparr>tick := n\<rparr>) = summarised s" "summarised (s\<lparr>management_idempotency := i\<rparr>) = summarised s"
  "summarised (s\<lparr>kafka_lags := k\<rparr>) = summarised s"
  by (rule summarised_cong, simp_all)+

lemma keeps_accounts:
  "keeps accounts_ok (createGrant p)" "keeps accounts_ok (createAllocation p)" "keeps accounts_ok (fundCurrency kind i v cur)"
  "keeps accounts_ok (setGrantStatus i st)" "keeps accounts_ok (setAllocationStatus i st)" "keeps accounts_ok (createKey a name)"
  "keeps accounts_ok (revokeKey i)" "keeps accounts_ok (revokeSession i)"
proof -
  show "keeps accounts_ok (createGrant p)" "keeps accounts_ok (createAllocation p)" "keeps accounts_ok (setGrantStatus i st)"
    "keeps accounts_ok (setAllocationStatus i st)"
    using createGrant_accounts createAllocation_accounts setGrantStatus_accounts setAllocationStatus_accounts by (blast intro: keepsI)+
  show "keeps accounts_ok (fundCurrency kind i v cur)"
    using fundGrant_accounts fundAllocation_accounts Amount_text by (fastforce simp: fundCurrency_def keeps_def txs)
  show "keeps accounts_ok (createKey a name)" by (rule keepsI) (auto elim!: createKey_Inr)
  show "keeps accounts_ok (revokeKey i)" "keeps accounts_ok (revokeSession i)"
    by (auto intro!: keepsI simp: revokeKey_def revokeSession_def affected_def txs)
qed

lemma keeps_createAllocation: "keeps consistent (createAllocation p)"
  using createAllocation_summarised createAllocation_accounts unfolding keeps_def consistent_def by blast

lemma keeps_bodies:
  "keeps consistent (createGrant p)" "keeps consistent (fundCurrency kind i v cur)" "keeps consistent (createKey a name)"
  by (intro keeps_consistent keeps_accounts keeps_createGrant keeps_fundCurrency keeps_createKey)+

lemma keeps_createKeyForGrant: "keeps consistent (createKeyForGrant p)"
  unfolding createKeyForGrant_def by (intro keeps_rules keeps_createAllocation keeps_bodies)

lemma keeps_execute: "keeps consistent m \<Longrightarrow> keeps consistent (execute grant status request m)"
proof -
  have "keeps consistent NowMs" "keeps consistent (insert_idempotency g k r)" for g k r
    by (auto simp: keeps_def consistent_def insert_idempotency_def txs)
  then show "keeps consistent m \<Longrightarrow> keeps consistent (execute grant status request m)"
    unfolding execute_def Let_def by (intro keeps_rules)
qed

lemma upholds_writeIdempotent: "keeps consistent m \<Longrightarrow> upholds (writeIdempotent kind i status request m)"
proof -
  have "keeps consistent (select_row q)" for q by (auto simp: keeps_def txs)
  then show "keeps consistent m \<Longrightarrow> upholds (writeIdempotent kind i status request m)"
    unfolding writeIdempotent_def scope_grant_def replay_def by (intro upholds_intros upholds_Write keeps_rules keeps_execute)
qed

lemma chain_consistent: "within chain_frame m \<Longrightarrow> keeps summarised m \<Longrightarrow> keeps consistent m"
  using chain_frame_accounts by (intro keeps_consistent) (unfold keeps_def within_def, blast)

lemma upholdsI:
  assumes "keeps consistent m" "\<And>s e s'. m s = (Inl e, s') \<Longrightarrow> tables.truncate s' = tables.truncate s"
  shows "upholds m"
  unfolding upholds_def
proof (intro allI impI)
  fix s r s' assume c: "consistent s" and run: "m s = (r, s')"
  show "consistent s'"
  proof (cases r)
    case (Inl e)
    then show ?thesis using tables_consistent assms(2) run c by blast
  next
    case (Inr x)
    then show ?thesis using run c keepsD [OF assms(1)] by blast
  qed
qed

lemma upholds_chain:
  "upholds (BootstrapChain stream anchor snapshots)" "upholds (ApplyChain stream blocks events lookback)" "upholds (Rewind stream chain contract anc)"
proof -
  have "tables.truncate s' = tables.truncate s" if "(if c then fail e else Write m) s = (Inl e', s')" for c e e' s s' and m :: "(world, unit) tx"
    using that by (auto dest: Write_Inl split: if_splits)
  then show "upholds (BootstrapChain stream anchor snapshots)" "upholds (ApplyChain stream blocks events lookback)"
    by (intro upholdsI chain_consistent BootstrapChain_chain keeps_BootstrapChain ApplyChain_chain keeps_ApplyChain;
        unfold BootstrapChain_def ApplyChain_def, blast)+
  show "upholds (Rewind stream chain contract anc)"
    by (intro upholdsI chain_consistent Rewind_chain keeps_Rewind) (unfold Rewind_def, rule Write_Inl)
qed

lemma upholds_Ingest: "upholds (Ingest dec topic p offset raw)"
proof (rule upholdsI)
  have "keeps accounts_ok (ingest_next dec topic p offset raw)" using ingest_next_fields(1) by (blast intro: keepsI)
  then have "keeps accounts_ok (Ingest dec topic p offset raw)" unfolding Ingest_def by (intro keeps_rules)
  then show "keeps consistent (Ingest dec topic p offset raw)" by (rule keeps_consistent [OF _ keeps_Ingest])
  show "tables.truncate s' = tables.truncate s" if "Ingest dec topic p offset raw s = (Inl e, s')" for s e s'
    using that by (auto simp: Ingest_def dest: Write_Inl split: if_splits)
qed

lemma upholds_SetStatus: "upholds (SetStatus kind i status)"
proof (rule upholdsI)
  have "keeps accounts_ok (SetStatus kind i status)" unfolding SetStatus_def by (intro keeps_rules keeps_accounts)
  then show "keeps consistent (SetStatus kind i status)" by (rule keeps_consistent [OF _ keeps_SetStatus])
  show "tables.truncate s' = tables.truncate s" if "SetStatus kind i status s = (Inl e, s')" for s e s'
    using that unfolding SetStatus_def by (rule Write_Inl)
qed

lemma upholds_management:
  "upholds (Create_tx kind p)" "upholds (FundCurrency kind i v cur)" "upholds (CreateKey a name)" "upholds (CreateKeyForGrantCurrency g name amount cur)"
  unfolding Create_tx_def FundCurrency_def CreateKey_def CreateKeyForGrantCurrency_def Let_def
  by (intro upholds_intros upholds_Write keeps_rules keeps_bodies keeps_createAllocation keeps_createKeyForGrant)+

lemma upholds_idempotent:
  "upholds (CreateAllocationIdempotent p request)" "upholds (FundCurrencyIdempotent kind i v cur request)"
  "upholds (CreateKeyIdempotent a name request)" "upholds (CreateKeyForGrantCurrencyIdempotent g name amount cur request)"
  unfolding CreateAllocationIdempotent_def FundCurrencyIdempotent_def CreateKeyIdempotent_def CreateKeyForGrantCurrencyIdempotent_def Let_def
  by (intro upholds_intros upholds_writeIdempotent keeps_rules keeps_bodies keeps_createAllocation keeps_createKeyForGrant)+

lemma upholds_Authorize: "upholds (Authorize topic maxAge req)"
  unfolding upholds_def
proof (intro allI impI)
  fix s r s' assume c: "consistent s" and run: "Authorize topic maxAge req s = (r, s')"
  note f = nonsession_fields [OF Authorize_frame [OF run]]
  have "consistent s' = consistent s" by (rule consistent_cong) (use f in \<open>simp_all add: core_def\<close>)
  then show "consistent s'" using c by simp
qed

lemma upholds_SetKafkaLag: "upholds (SetKafkaLag topic h)"
  unfolding SetKafkaLag_def
  by (rule upholds_Write) (auto simp: keeps_def txs consistent_def accounts_ok_def ledger_ok_def net_def bal_def [abs_def])

text \<open>
  Where an installation can get to: the third migration completes a database whose accounts are in
  order and whose sums are all zero, as the SQL part of that migration leaves them; from then on the
  operations run in any order and with any outcome.
\<close>

definition unsummed :: "world \<Rightarrow> bool" where
  "unsummed s \<longleftrightarrow> accounts_ok s \<and> amounts_text s \<and> tracked_ok s \<and> distinct (map fst (metric_amounts s)) \<and>
     (\<forall>x \<in> set (metric_amounts s). snd x = ''0'')"

inductive served :: "world \<Rightarrow> bool" where
  upgrade: "unsummed s \<Longrightarrow> backfillMetricAmounts s = (r, s') \<Longrightarrow> served s'"
| create: "served s \<Longrightarrow> Create_tx kind p s = (r1, s') \<Longrightarrow> served s'"
| fund: "served s \<Longrightarrow> FundCurrency kind i v cur s = (r2, s') \<Longrightarrow> served s'"
| status: "served s \<Longrightarrow> SetStatus kind i st s = (r2, s') \<Longrightarrow> served s'"
| key: "served s \<Longrightarrow> CreateKey a name s = (r3, s') \<Longrightarrow> served s'"
| key_for_grant: "served s \<Longrightarrow> CreateKeyForGrantCurrency g name v cur s = (r4, s') \<Longrightarrow> served s'"
| allocation_once: "served s \<Longrightarrow> CreateAllocationIdempotent p request s = (r5, s') \<Longrightarrow> served s'"
| fund_once: "served s \<Longrightarrow> FundCurrencyIdempotent kind i v cur request s = (r5, s') \<Longrightarrow> served s'"
| key_once: "served s \<Longrightarrow> CreateKeyIdempotent a name request s = (r5, s') \<Longrightarrow> served s'"
| key_for_grant_once: "served s \<Longrightarrow> CreateKeyForGrantCurrencyIdempotent g name v cur request s = (r5, s') \<Longrightarrow> served s'"
| authorize: "served s \<Longrightarrow> Authorize topic maxAge auth s = (r6, s') \<Longrightarrow> served s'"
| ingest: "served s \<Longrightarrow> Ingest dec topic p offset raw s = (r2, s') \<Longrightarrow> served s'"
| lag: "served s \<Longrightarrow> SetKafkaLag topic h s = (r2, s') \<Longrightarrow> served s'"
| open_chain: "served s \<Longrightarrow> BootstrapChain stream anchor snapshots s = (r2, s') \<Longrightarrow> served s'"
| apply_chain: "served s \<Longrightarrow> ApplyChain stream blocks events lookback s = (r2, s') \<Longrightarrow> served s'"
| rewind_chain: "served s \<Longrightarrow> Rewind stream chain contract anc s = (r2, s') \<Longrightarrow> served s'"

lemma unsummed_consistent:
  assumes "unsummed s" "backfillMetricAmounts s = (r, s')"
  shows "consistent s'"
proof -
  have "\<forall>row \<in> set (metric_rows s). exact_row row" using assms(1) metric_rows_exact unfolding unsummed_def by blast
  from backfill_rows_exact [OF this, of "[]"] obtain t where t: "backfill_rows (metric_rows s) [] = Inr t" and g: "tget id t = total s"
    by (auto simp: total_rows [abs_def] tget_def [of id "[]"])
  let ?m = "map (\<lambda>(k, v). (k, case map_of t k of None \<Rightarrow> v | Some n \<Rightarrow> int_str n)) (metric_amounts s)"
  have s': "s' = s\<lparr>metric_amounts := ?m\<rparr>" using assms(2) by (simp add: backfillMetricAmounts_def t)
  have zero: "''0'' = int_str 0" by code_simp
  have "(case map_of t k of None \<Rightarrow> v | Some n \<Rightarrow> int_str n) = int_str (total s k)" if "(k, v) \<in> set (metric_amounts s)" for k v
    using assms(1) that unfolding g [symmetric] by (auto simp: unsummed_def tget_def zero split: option.splits)
  then have "stored (total s) s'"
    using assms(1) by (auto simp: stored_def s' unsummed_def comp_def case_prod_unfold simp del: split_paired_All)
  moreover have "core s' = core s" by (simp add: s')
  ultimately have "summarised s'" using core_cong [of s' s] assms(1) by (simp add: summarised_def unsummed_def)
  moreover have "accounts_ok s'" using assms(1) by (simp add: s' unsummed_def accounts_ok_def ledger_ok_def net_def bal_def [abs_def])
  ultimately show ?thesis by (simp add: consistent_def)
qed

lemma upholdsD: "m s = (r, s') \<Longrightarrow> upholds m \<Longrightarrow> consistent s \<Longrightarrow> consistent s'"
  unfolding upholds_def by blast

lemmas upholds_operations = upholds_management upholds_SetStatus upholds_idempotent upholds_Authorize upholds_Ingest
  upholds_SetKafkaLag upholds_chain

lemma served_consistent: "served s \<Longrightarrow> consistent s"
proof (induction rule: served.induct)
  case upgrade
  then show ?case by (rule unsummed_consistent)
qed (rule upholdsD, assumption, rule upholds_operations, assumption)+

text \<open>
  The migration runner on the database of the store: its engine runs the backfill after the script
  of the third migration, and the database is then in service.
\<close>

definition store_engine :: "(string \<Rightarrow> world \<Rightarrow> world result) \<Rightarrow> (string \<Rightarrow> string) \<Rightarrow> (nat \<Rightarrow> int) \<Rightarrow> world engine" where
  "store_engine run hash now = \<lparr>exec = run,
     backfill = (\<lambda>s. map_sum id (\<lambda>_. snd (backfillMetricAmounts s)) (fst (backfillMetricAmounts s))),
     hash256 = hash, unixepoch = now\<rparr>"

lemma third_migration_served:
  assumes "script_up (store_engine run hash now) m s = Some s'" "Filename (m_status m) = ''003_metric_summaries.sql''"
    and "\<And>s1. run (m_up m) s = Inr s1 \<Longrightarrow> unsummed s1"
  shows "served s'"
  using assms served.upgrade [OF _ surjective_pairing]
  by (auto simp: script_up_def store_engine_def map_sum_def split: sum.splits)

section \<open>The property\<close>

text \<open>
  C32: the monetary summaries never drift: in every state that the operations of the store reach from
  an upgraded database, in any order and with any outcome, each stored sum is the sum that the
  migration would compute from the balances, the tracked escrow accounts and the settled
  redemptions, so that recomputing them changes nothing.
\<close>

theorem summaries_exact:
  assumes "served s"
  shows "backfillMetricAmounts s = (Inr (), s) \<and>
    (\<forall>x \<in> set (metric_amounts s). snd x = int_str (sum_list (map (contribution (fst x)) (metric_rows s))))"
proof -
  have "summarised s" using served_consistent [OF assms] by (simp add: consistent_def)
  then show ?thesis using summarised_backfill by (simp add: summarised_def stored_def total_rows)
qed

text \<open>A new installation is such a database; a grant is created and funded in it.\<close>

lemma migrated_unsummed: "unsummed (migrated u c r h)"
  using migrated_accounts [of u c r h] by (simp add: unsummed_def amounts_text_def tracked_ok_def migrated_def)

definition sample_granted :: world where
  "sample_granted = snd (Create_tx ''grant'' sample_request sample)"

lemma sample_granted_served: "served sample_granted"
proof -
  have "unsummed sample" using migrated_unsummed by (simp add: sample_def)
  moreover have "backfillMetricAmounts sample = (Inr (), sample)"
    by (simp add: backfillMetricAmounts_def metric_rows_def sample_def migrated_def)
  ultimately have "served sample" by (rule served.upgrade)
  then show ?thesis unfolding sample_granted_def by (rule served.create [OF _ surjective_pairing])
qed

lemma summaries_exact_witness:
  "backfillMetricAmounts sample_granted = (Inr (), sample_granted) \<and>
    map_of (metric_amounts sample_granted) (''grant_unallocated'', ''eth'') = Some ''1000''"
proof -
  have "map_of (metric_amounts sample_granted) (''grant_unallocated'', ''eth'') = Some ''1000''" by code_simp
  then show ?thesis using summaries_exact [OF sample_granted_served] by blast
qed

end
