(* ===== verification/Snapshot.thy ===== *)
theory Snapshot
  imports Summaries "HOL-Library.Product_Lexorder"
begin

text \<open>
  The reader of \<open>internal/store/metrics.go\<close>: the gauges of the accounting and of the chain listener,
  computed from the summary tables and from the extreme balances, which SQLite finds by comparing
  the texts of the amounts.  A gauge carries the exact number that the code then rounds to a
  \<open>float64\<close>.
\<close>

section \<open>Gauges\<close>

text \<open>\<open>float64(n)\<close>, \<open>MetricAmount\<close> of a number of units, a time in milliseconds divided by 1000, and a duration.\<close>

datatype reading = Number int | Currency int | Millis int | Nanos int

type_synonym gauge = "string \<times> (string \<times> string) list \<times> reading"

definition MetricAmount :: "string \<Rightarrow> reading" where
  "MetricAmount v = Currency (case SetString v of None \<Rightarrow> 0 | Some n \<Rightarrow> n)"

section \<open>Extreme balances\<close>

text \<open>The first row of a result that is ordered by \<open>before\<close>; equal rows have equal texts.\<close>

definition first_row :: "('a \<Rightarrow> 'a \<Rightarrow> bool) \<Rightarrow> 'a list \<Rightarrow> 'a option" where
  "first_row before rows = (case rows of [] \<Rightarrow> None
     | v # vs \<Rightarrow> Some (foldl (\<lambda>b w. if before w b then w else b) v vs))"

definition metric_texts :: "account \<Rightarrow> string \<Rightarrow> world \<Rightarrow> string list" where
  "metric_texts account currency s =
     map (\<lambda>(k, o', v). v) (filter (\<lambda>((t, src, c), o', v). t = account \<and> c = currency) (metric_balances s))"

definition signed_text :: "string \<Rightarrow> bool" where
  "signed_text v \<longleftrightarrow> take 1 v = ''-''"

definition longer :: "string \<Rightarrow> string \<Rightarrow> bool" where
  "longer v w \<longleftrightarrow> (length w, w) < (length v, v)"

definition negativeExtreme :: "string list \<Rightarrow> string option" where
  "negativeExtreme vs = first_row longer (filter signed_text vs)"

definition nonnegativeExtreme :: "string list \<Rightarrow> string option" where
  "nonnegativeExtreme vs = first_row (\<lambda>v w. longer w v) (filter (\<lambda>v. \<not> signed_text v) vs)"

definition metricExtreme :: "account \<Rightarrow> string \<Rightarrow> bool \<Rightarrow> (world, int option) tx" where
  "metricExtreme account currency minimum =
     bindE (gets (metric_texts account currency)) (\<lambda>vs. case negativeExtreme vs of
       Some v \<Rightarrow> liftE (map_sum id Some (signedBalance v))
     | None \<Rightarrow>
         if \<not> minimum then ret None
         else (case nonnegativeExtreme vs of
             Some v \<Rightarrow> liftE (map_sum id Some (signedBalance v))
           | None \<Rightarrow> ret None))"

section \<open>The snapshot\<close>

text \<open>The map of the stored sums by name and currency; a row with a bad text fails.\<close>

fun read_amounts :: "((string \<times> string) \<times> string) list \<Rightarrow> (string \<times> int) list result" where
  "read_amounts [] = Inr []"
| "read_amounts (((name, currency), v) # rows) = (case signedBalance v of
     Inl e \<Rightarrow> Inl e
   | Inr n \<Rightarrow> map_sum id (\<lambda>amounts. (name @ ''_'' @ currency, n) # amounts) (read_amounts rows))"

definition amount_of :: "(string \<times> int) list \<Rightarrow> string \<Rightarrow> reading" where
  "amount_of amounts name = Currency (case map_of (rev amounts) name of None \<Rightarrow> 0 | Some n \<Rightarrow> n)"

definition count_of :: "world \<Rightarrow> string \<times> string \<times> string \<Rightarrow> reading" where
  "count_of s b = Number (tget id (metric_counts s) b)"

definition currencies :: "string list" where
  "currencies = [''eth'', ''usd'']"

definition balance_kinds :: "string list" where
  "balance_kinds = [''grant_unallocated'', ''allocation_available'', ''allocation_spent'', ''allocation_overdraw'']"

definition settlement_kinds :: "string list" where
  "settlement_kinds = [''settlement_face_value'', ''settlement_paid'', ''settlement_shortfall'']"

definition escrow_buckets :: "(string \<times> account) list" where
  "escrow_buckets = [(''deposit'', EscrowDeposit), (''reserve'', EscrowReserve)]"

definition currency_gauges :: "(string \<times> int) list \<Rightarrow> string \<Rightarrow> (world, gauge list) tx" where
  "currency_gauges amounts currency =
     bindE (gets (\<lambda>s. (''allocations_overdrawn'', [(''currency'', currency)], count_of s (''allocations_overdrawn'', currency, [])))) (\<lambda>g.
     bindE (metricExtreme AllocationAvailable currency False) (\<lambda>largest.
       ret ([g] @
         map (\<lambda>kind. (kind @ ''_'' @ currency, [], amount_of amounts (kind @ ''_'' @ currency)))
           balance_kinds @
         [(''allocation_largest_overdraw_'' @ currency, [], case largest of None \<Rightarrow> Currency 0 | Some n \<Rightarrow> MetricAmount (int_str (- n)))])))"

text \<open>The inventory: a bucket that is not empty is one gauge, in the order of the map.\<close>

definition count_gauge :: "(string \<times> string \<times> string) \<times> int \<Rightarrow> gauge list" where
  "count_gauge row = (case row of ((kind, first, second), n) \<Rightarrow>
     if n = 0 then []
     else if kind = ''quarantines'' then [(''quarantined_events'', [(''reason'', first)], Number n)]
     else if kind = ''grants'' \<or> kind = ''allocations'' then [(kind, [(''currency'', first), (''status'', second)], Number n)]
     else [])"

definition accounting_gauges :: "(string \<times> int) list \<Rightarrow> (world, gauge list) tx" where
  "accounting_gauges amounts =
     bindE (mapE currencies (currency_gauges amounts)) (\<lambda>gs.
     bindE (gets (\<lambda>s. concat (map count_gauge (metric_counts s)))) (\<lambda>counts. ret (concat gs @ counts)))"

definition settlement_gauges :: "(string \<times> int) list \<Rightarrow> world \<Rightarrow> gauge list" where
  "settlement_gauges amounts s =
     concat (map (\<lambda>status. map (\<lambda>match. (''settlements'', [(''status'', status), (''match_status'', match)],
         count_of s (''settlements'', status, match))) [''matched'', ''unmatched'', ''ambiguous'']) [''settled'', ''orphaned'']) @
     map (\<lambda>name. (name @ ''_eth'', [], amount_of amounts (name @ ''_eth'')))
       settlement_kinds @
     [(''settlements_underpaid'', [], count_of s (''settlements_underpaid'', [], []))]"

text \<open>\<open>ORDER BY created_at_ms LIMIT 1\<close> over the settled redemptions without a session.\<close>

definition oldestUnmatched :: "world \<Rightarrow> int option" where
  "oldestUnmatched s = first_row (<) (map st_created
     (filter (\<lambda>r. st_status r = ''settled'' \<and> st_match r = ''unmatched'') (settlements s)))"

definition oldest_gauge :: "world \<Rightarrow> gauge list" where
  "oldest_gauge s = (case oldestUnmatched s of
     Some n \<Rightarrow> if 0 < n then [(''settlement_oldest_unmatched_timestamp_seconds'', [], Millis n)] else []
   | None \<Rightarrow> [])"

definition bucket_gauges :: "(string \<times> int) list \<Rightarrow> string \<times> account \<Rightarrow> (world, gauge list) tx" where
  "bucket_gauges amounts b = (case b of (name, account) \<Rightarrow>
     bindE (metricExtreme account ''eth'' True) (\<lambda>minimum. case minimum of
       None \<Rightarrow> ret []
     | Some n \<Rightarrow> gets (\<lambda>s.
         [(''escrow_balance_eth'', [(''bucket'', name)], amount_of amounts (''escrow_'' @ name @ ''_eth'')),
          (''escrow_min_balance_eth'', [(''bucket'', name)], MetricAmount (int_str n)),
          (''escrow_unfunded_signers'', [(''bucket'', name)], count_of s (''escrow_unfunded_signers'', name, []))])))"

text \<open>\<open>SELECT min(block_number)+1 FROM escrow_snapshots\<close>\<close>

definition start_gauge :: "world \<Rightarrow> gauge list" where
  "start_gauge s = (case first_row (<) (map es_block_number (escrow_snapshots s)) of
     None \<Rightarrow> [] | Some n \<Rightarrow> [(''chain_start_block'', [], Number (n + 1))])"

definition chain_gauges :: "(string \<times> int) list \<Rightarrow> (world, gauge list) tx" where
  "chain_gauges amounts =
     bindE (gets (settlement_gauges amounts)) (\<lambda>settled.
     bindE (gets oldest_gauge) (\<lambda>oldest.
     bindE (mapE escrow_buckets (bucket_gauges amounts)) (\<lambda>buckets.
     bindE (gets start_gauge) (\<lambda>start. ret (settled @ oldest @ concat buckets @ start)))))"

text \<open>The first query only proves that the tables are there.\<close>

definition MetricSnapshot :: "bool \<Rightarrow> bool \<Rightarrow> (world, gauge list) tx" where
  "MetricSnapshot accounting chain =
     (if \<not> accounting \<and> \<not> chain then ret []
      else
        bindE (gets (\<lambda>s. read_amounts (metric_amounts s))) (\<lambda>read.
        bindE (liftE read) (\<lambda>amounts.
        bindE (if accounting then accounting_gauges amounts else ret []) (\<lambda>a.
        bindE (if chain then chain_gauges amounts else ret []) (\<lambda>c. ret (a @ c))))))"

section \<open>Texts in the order of their values\<close>

lemma digits_less:
  assumes "all_digits v" "all_digits w" "length v = length w"
  shows "v < w \<longleftrightarrow> dec_val v < dec_val w"
  using assms
proof (induction v arbitrary: w)
  case (Cons c v)
  then obtain d w' where w: "w = d # w'" and dig: "is_digit c" "is_digit d" "all_digits v" "all_digits w'" "length v = length w'"
    by (cases w) auto
  have lex: "c < d \<longleftrightarrow> digit_val c < digit_val d"
    using dig(1,2) by (auto simp: digit_val_def is_digit_def code_def less_char_def)
  have b: "dec_val v < 10 ^ length w'" "dec_val w' < 10 ^ length w'" using dec_val_bound dig by metis+
  have lead: "digit_val x * 10 ^ length w' + dec_val a < digit_val y * 10 ^ length w' + dec_val e"
    if "digit_val x < digit_val y" "dec_val a < 10 ^ length w'" for x y a e
  proof -
    have "Suc (digit_val x) * 10 ^ length w' \<le> digit_val y * 10 ^ length w'" using that(1) by (intro mult_le_mono1) simp
    then show ?thesis using that(2) by simp
  qed
  have "digit_val c = digit_val d \<Longrightarrow> c = d" using dig(1,2) by (metis digit_char_digit_val)
  then consider "digit_val c < digit_val d" | "digit_val d < digit_val c" | "c = d" by linarith
  then show ?case
  proof cases
    case 1
    then show ?thesis using lead [OF 1 b(1)] lex by (simp add: w dec_val_Cons dig(5))
  next
    case 2
    then have "\<not> c < d" "c \<noteq> d" using lex by auto
    then show ?thesis using lead [OF 2 b(2), of v] by (simp add: w dec_val_Cons dig(5))
  next
    case 3
    then show ?thesis using Cons.IH [OF dig(3,4,5)] by (simp add: w dec_val_Cons dig(5))
  qed
qed simp

lemma nat_str_order: "(length (nat_str m), nat_str m) < (length (nat_str n), nat_str n) \<longleftrightarrow> m < n"
proof -
  have short: "m < n" if l: "length (nat_str m) < length (nat_str n)" for m n
  proof -
    have "nat_str n \<noteq> ''0''" using l by (metis length_greater_0_conv length_Cons list.size(3) nat_str_nonempty less_Suc0 neq0_conv)
    then have "hd (nat_str n) \<noteq> CHR ''0''" using canonical_hd [OF canonical_nat_str] by blast
    then have "10 ^ (length (nat_str n) - 1) \<le> n" using dec_val_lower [of "nat_str n"] by simp
    moreover have "m < 10 ^ length (nat_str m)" using dec_val_bound [of "nat_str m"] by simp
    moreover have "(10 :: nat) ^ length (nat_str m) \<le> 10 ^ (length (nat_str n) - 1)" using l by (intro power_increasing) auto
    ultimately show ?thesis by linarith
  qed
  show ?thesis
  proof (cases "length (nat_str m) = length (nat_str n)")
    case True
    then show ?thesis using digits_less [of "nat_str m" "nat_str n"] by simp
  next
    case False
    then show ?thesis using short [of m n] short [of n m] by (auto simp: less_prod_def)
  qed
qed

lemma longer_int_str:
  "0 \<le> m \<Longrightarrow> 0 \<le> n \<Longrightarrow> longer (int_str m) (int_str n) \<longleftrightarrow> n < m"
  "m < 0 \<Longrightarrow> n < 0 \<Longrightarrow> longer (int_str m) (int_str n) \<longleftrightarrow> m < n"
proof -
  show "0 \<le> m \<Longrightarrow> 0 \<le> n \<Longrightarrow> longer (int_str m) (int_str n) \<longleftrightarrow> n < m"
    using nat_str_order [of "nat n" "nat m"] by (auto simp: longer_def int_str_def simp del: nat_str.simps less_prod_simp)
  have "longer (int_str m) (int_str n) \<longleftrightarrow>
      (length (nat_str (nat (- n))), nat_str (nat (- n))) < (length (nat_str (nat (- m))), nat_str (nat (- m)))" if "m < 0" "n < 0"
    using that by (simp add: longer_def int_str_def less_prod_def del: nat_str.simps)
  then show "m < 0 \<Longrightarrow> n < 0 \<Longrightarrow> longer (int_str m) (int_str n) \<longleftrightarrow> m < n" unfolding nat_str_order by auto
qed

lemma signed_int_str: "signed_text (int_str n) \<longleftrightarrow> n < 0"
proof -
  have "take 1 (nat_str k) \<noteq> ''-''" for k using nat_str_no_sign [of k] by (cases "nat_str k") auto
  then show ?thesis by (auto simp: signed_text_def int_str_def simp del: nat_str.simps)
qed

text \<open>Over texts of numbers, the first row by a text order is the least number of the matching order.\<close>

lemma first_row_least:
  assumes "\<And>m n. m \<in> set ns \<Longrightarrow> n \<in> set ns \<Longrightarrow> before (int_str m) (int_str n) \<longleftrightarrow> m < n"
  shows "first_row before (map int_str ns) = (if ns = [] then None else Some (int_str (Min (set ns))))"
proof (cases ns)
  case (Cons n ns')
  have "foldl (\<lambda>b w. if before w b then w else b) (int_str m) (map int_str xs) = int_str (Min (insert m (set xs)))"
    if "insert m (set xs) \<subseteq> set ns" for m xs
    using that
  proof (induction xs arbitrary: m)
    case (Cons x xs)
    have "(if before (int_str x) (int_str m) then int_str x else int_str m) = int_str (min m x)"
      using assms [of x m] Cons.prems by (auto simp: min_def)
    moreover have "insert (min m x) (set xs) \<subseteq> set ns" using Cons.prems by (auto simp: min_def)
    moreover have "Min (insert (min m x) (set xs)) = Min (insert m (insert x (set xs)))"
      by (cases "set xs = {}") (simp_all add: min.assoc)
    ultimately show ?case using Cons.IH [of "min m x"] by simp
  qed simp
  from this [of n ns'] show ?thesis by (simp add: first_row_def Cons)
qed (simp add: first_row_def)

section \<open>The extremes are exact\<close>

text \<open>The checks of the two tables: canonical signed integers, and the two currencies.\<close>

definition metric_checks :: "world \<Rightarrow> bool" where
  "metric_checks s \<longleftrightarrow> (\<forall>x \<in> set (metric_balances s). snd (snd x) \<in> range int_str) \<and>
     (\<forall>x \<in> set (metric_amounts s). is_currency (snd (fst x)))"

definition metric_values :: "account \<Rightarrow> string \<Rightarrow> world \<Rightarrow> int list" where
  "metric_values account currency s = map units_val (metric_texts account currency s)"

lemma metric_texts_values:
  assumes "metric_checks s"
  shows "metric_texts account currency s = map int_str (metric_values account currency s)"
proof -
  have "\<forall>v \<in> set (metric_texts account currency s). int_str (units_val v) = v"
    using assms by (force simp: metric_texts_def metric_checks_def)
  then show ?thesis by (simp add: metric_values_def map_idI)
qed

lemma negativeExtreme_values:
  "negativeExtreme (map int_str ns) = (if \<exists>n \<in> set ns. n < 0 then Some (int_str (Min (set ns))) else None)"
proof -
  let ?neg = "filter (\<lambda>n. n < 0) ns"
  have f: "filter signed_text (map int_str ns) = map int_str ?neg" by (simp add: filter_map comp_def signed_int_str)
  have "first_row longer (map int_str ?neg) = (if ?neg = [] then None else Some (int_str (Min (set ?neg))))"
    by (rule first_row_least) (simp add: longer_int_str(2))
  moreover have "Min (set ?neg) = Min (set ns)" if n: "n \<in> set ns" "n < 0" for n
  proof (rule Min_eqI [symmetric])
    have ne: "set ?neg \<noteq> {}" using n by auto
    then have "Min (set ?neg) \<in> set ?neg" by (intro Min_in) simp_all
    then show "Min (set ?neg) \<in> set ns" by simp
    fix y assume y: "y \<in> set ns"
    show "Min (set ?neg) \<le> y"
    proof (cases "y < 0")
      case True
      then show ?thesis using y by (intro Min_le) simp_all
    next
      case False
      have "Min (set ?neg) \<le> n" using n by (intro Min_le) simp_all
      then show ?thesis using False n(2) by simp
    qed
  qed simp
  ultimately show ?thesis unfolding negativeExtreme_def f by (auto simp: filter_empty_conv)
qed

lemma nonnegativeExtreme_values:
  assumes "\<forall>n \<in> set ns. 0 \<le> n"
  shows "nonnegativeExtreme (map int_str ns) = (if ns = [] then None else Some (int_str (Min (set ns))))"
proof -
  have f: "filter (\<lambda>v. \<not> signed_text v) (map int_str ns) = map int_str ns"
    using assms by (auto simp: filter_id_conv signed_int_str not_less)
  show ?thesis unfolding nonnegativeExtreme_def f
    by (rule first_row_least) (use assms in \<open>simp add: longer_int_str(1)\<close>)
qed

lemma metricExtreme_run:
  assumes "metric_checks s"
  shows "metricExtreme account currency minimum s =
    (Inr (let ns = metric_values account currency s in
       if ns \<noteq> [] \<and> (minimum \<or> Min (set ns) < 0) then Some (Min (set ns)) else None), s)"
proof -
  let ?ns = "metric_values account currency s"
  have neg: "(\<exists>n \<in> set ?ns. n < 0) \<longleftrightarrow> ?ns \<noteq> [] \<and> Min (set ?ns) < 0"
    by (cases "?ns = []") (auto simp: Min_less_iff)
  show ?thesis
    using nonnegativeExtreme_values [of ?ns] neg
    by (cases "\<exists>n \<in> set ?ns. n < 0")
      (auto simp: metricExtreme_def bindE_gets metric_texts_values [OF assms] negativeExtreme_values liftE_simp Let_def not_less)
qed

section \<open>The gauges are exact\<close>

lemma read_amounts_ok:
  assumes "\<forall>x \<in> set rows. snd x = int_str (g (fst x))"
  shows "read_amounts rows = Inr (map (\<lambda>(k, v). (fst k @ ''_'' @ snd k, g k)) rows)"
  using assms by (induction rows rule: read_amounts.induct) auto

lemma amount_of_row:
  assumes "distinct (map fst rows)" "\<forall>x \<in> set rows. is_currency (snd (fst x))" "(name, currency) \<in> fst ` set rows"
  shows "amount_of (map (\<lambda>(k, v). (fst k @ ''_'' @ snd k, g k)) rows) (name @ ''_'' @ currency) = Currency (g (name, currency))"
proof -
  let ?xs = "map (\<lambda>(k, v). (fst k @ ''_'' @ snd k, g k)) rows"
  have "inj_on (\<lambda>k. fst k @ ''_'' @ snd k) (set (map fst rows))"
  proof (rule inj_onI)
    fix j k assume j: "j \<in> set (map fst rows)" and k: "k \<in> set (map fst rows)"
      and e: "fst j @ ''_'' @ snd j = fst k @ ''_'' @ snd k"
    have "is_currency (snd j)" "is_currency (snd k)" using assms(2) j k by auto
    then have "length (snd j) = length (snd k)" by (auto simp: is_currency_def)
    then show "j = k" using e by (simp add: prod_eq_iff append_eq_append_conv2 [symmetric])
  qed
  then have "distinct (map (\<lambda>k. fst k @ ''_'' @ snd k) (map fst rows))" using assms(1) by (simp only: distinct_map)
  then have "distinct (map fst (rev ?xs))" by (simp add: comp_def case_prod_unfold rev_map [symmetric])
  moreover have "(name @ ''_'' @ currency, g (name, currency)) \<in> set (rev ?xs)" using assms(3) by force
  ultimately have "map_of (rev ?xs) (name @ ''_'' @ currency) = Some (g (name, currency))" by (rule map_of_is_SomeI)
  then show ?thesis by (simp add: amount_of_def)
qed

text \<open>The owners of the tracked escrow accounts, whose rows show the balances of the ledger.\<close>

definition tracked_owners :: "account \<Rightarrow> world \<Rightarrow> string list" where
  "tracked_owners account s =
     map (\<lambda>(k, o', v). o') (filter (\<lambda>((t, src, c), o', v). t = account \<and> c = ''eth'') (metric_balances s))"

lemma escrow_values:
  assumes "tracked_ok s" "is_escrow account"
  shows "metric_values account ''eth'' s = map (\<lambda>o'. bal s (account, o', ''eth'')) (tracked_owners account s)"
  using assms by (fastforce simp: metric_values_def metric_texts_def tracked_owners_def tracked_ok_def)

text \<open>A read-only step and its gauges.\<close>

lemma currency_gauges_run:
  assumes "metric_checks s"
  shows "\<exists>gs. currency_gauges amounts currency s = (Inr gs, s) \<and>
    (\<forall>kind \<in> set balance_kinds.
       (kind @ ''_'' @ currency, [], amount_of amounts (kind @ ''_'' @ currency)) \<in> set gs) \<and>
    (''allocation_largest_overdraw_'' @ currency, [], Currency (let ns = metric_values AllocationAvailable currency s in
       if ns = [] then 0 else max 0 (- Min (set ns)))) \<in> set gs"
  by (auto simp: currency_gauges_def bindE_def [of "metricExtreme _ _ _"] metricExtreme_run [OF assms]
      Let_def MetricAmount_def simp del: minus_Min_eq_Max)

lemma bucket_gauges_run:
  assumes "metric_checks s"
  shows "\<exists>gs. bucket_gauges amounts (name, account) s = (Inr gs, s) \<and>
    (metric_values account ''eth'' s \<noteq> [] \<longrightarrow>
       (''escrow_min_balance_eth'', [(''bucket'', name)], Currency (Min (set (metric_values account ''eth'' s)))) \<in> set gs)"
  by (auto simp: bucket_gauges_def bindE_def metricExtreme_run [OF assms] Let_def MetricAmount_def)

text \<open>The reference: what the sums of the migration and the balances of the ledger say.\<close>

definition reference_sum :: "string \<times> string \<Rightarrow> world \<Rightarrow> int" where
  "reference_sum k s = sum_list (map (contribution k) (metric_rows s))"

lemma accounting_run:
  assumes "metric_checks s"
  shows "\<exists>gs. accounting_gauges amounts s = (Inr gs, s) \<and> (\<forall>currency \<in> set currencies.
    (\<forall>kind \<in> set balance_kinds.
       (kind @ ''_'' @ currency, [], amount_of amounts (kind @ ''_'' @ currency)) \<in> set gs) \<and>
    (''allocation_largest_overdraw_'' @ currency, [], Currency (let ns = metric_values AllocationAvailable currency s in
       if ns = [] then 0 else max 0 (- Min (set ns)))) \<in> set gs)"
proof -
  obtain g where run: "\<And>currency. currency_gauges amounts currency s = (Inr (g currency), s)"
    and g: "\<And>currency kind. kind \<in> set balance_kinds \<Longrightarrow>
        (kind @ ''_'' @ currency, [], amount_of amounts (kind @ ''_'' @ currency)) \<in> set (g currency)"
      "\<And>currency. (''allocation_largest_overdraw_'' @ currency, [], Currency (let ns = metric_values AllocationAvailable currency s in
         if ns = [] then 0 else max 0 (- Min (set ns)))) \<in> set (g currency)"
    using currency_gauges_run [OF assms] by metis
  have "mapE xs (currency_gauges amounts) s = (Inr (map g xs), s)" for xs
    by (induction xs) (simp_all add: bindE_def run)
  then have "accounting_gauges amounts s = (Inr (concat (map g currencies) @ concat (map count_gauge (metric_counts s))), s)"
    by (simp add: accounting_gauges_def bindE_def)
  moreover have "x \<in> set (concat (map g currencies) @ rest)" if "x \<in> set (g currency)" "currency \<in> set currencies" for x currency rest
    using that by auto
  ultimately show ?thesis using g by blast
qed

lemma chain_run:
  assumes "metric_checks s"
  shows "\<exists>gs. chain_gauges amounts s = (Inr gs, s) \<and>
    (\<forall>name \<in> set settlement_kinds.
       (name @ ''_'' @ ''eth'', [], amount_of amounts (name @ ''_'' @ ''eth'')) \<in> set gs) \<and>
    (\<forall>(name, account) \<in> set escrow_buckets. metric_values account ''eth'' s \<noteq> [] \<longrightarrow>
       (''escrow_min_balance_eth'', [(''bucket'', name)], Currency (Min (set (metric_values account ''eth'' s)))) \<in> set gs)"
proof -
  let ?ok = "\<lambda>b gs. bucket_gauges amounts b s = (Inr gs, s) \<and> (metric_values (snd b) ''eth'' s \<noteq> [] \<longrightarrow>
      (''escrow_min_balance_eth'', [(''bucket'', fst b)], Currency (Min (set (metric_values (snd b) ''eth'' s)))) \<in> set gs)"
  have "\<forall>b. \<exists>gs. ?ok b gs" using bucket_gauges_run [OF assms, of amounts] by simp
  from choice [OF this] obtain g where g: "\<forall>b. ?ok b (g b)" by blast
  then have run: "bucket_gauges amounts b s = (Inr (g b), s)" for b by blast
  have "mapE xs (bucket_gauges amounts) s = (Inr (map g xs), s)" for xs
    by (induction xs) (simp_all add: bindE_def run)
  then have "chain_gauges amounts s =
      (Inr (settlement_gauges amounts s @ oldest_gauge s @ concat (map g escrow_buckets) @ start_gauge s), s)"
    by (simp add: chain_gauges_def bindE_def)
  moreover have "(name @ ''_'' @ ''eth'', [], amount_of amounts (name @ ''_'' @ ''eth'')) \<in> set (settlement_gauges amounts s @ rest)"
    if "name \<in> set settlement_kinds" for name rest
    using that by (simp add: settlement_gauges_def)
  moreover have "case b of (name, account) \<Rightarrow> metric_values account ''eth'' s \<noteq> [] \<longrightarrow>
      (''escrow_min_balance_eth'', [(''bucket'', name)], Currency (Min (set (metric_values account ''eth'' s))))
        \<in> set (settlement_gauges amounts s @ oldest_gauge s @ concat (map g escrow_buckets) @ start_gauge s)"
    if "b \<in> set escrow_buckets" for b
    using that g by fastforce
  ultimately show ?thesis by blast
qed



end
