(* ===== verification/NetText.thy ===== *)
theory NetText
  imports GoText Chain
begin

text \<open>
  The text operations of Go's standard library that the start-up checks of \<open>internal/app/server.go\<close>
  go through: \<open>net.SplitHostPort\<close>, \<open>net.ParseIP\<close> with its two classes of addresses, the port
  numbers of \<open>strconv\<close>, and the lexical path operations of \<open>path/filepath\<close>.
\<close>

section \<open>Host and port\<close>

definition colon :: char where
  "colon = CHR '':''"

definition addrErr :: "string \<Rightarrow> string \<Rightarrow> error" where
  "addrErr a why = PlainError (''address '' @ a @ '': '' @ why)"

definition missingPort :: string where
  "missingPort = ''missing port in address''"

definition tooManyColons :: string where
  "tooManyColons = ''too many colons in address''"

text \<open>What the two branches check last: no bracket where none may be.\<close>

definition no_brackets :: "string \<Rightarrow> string \<Rightarrow> string \<Rightarrow> 'a \<Rightarrow> 'a result" where
  "no_brackets a opening closing x =
     (if CHR ''['' \<in> set opening then Inl (addrErr a (''unexpected '' @ [CHR 0x27] @ ''['' @ [CHR 0x27] @ '' in address''))
      else if CHR '']'' \<in> set closing then Inl (addrErr a (''unexpected '' @ [CHR 0x27] @ '']'' @ [CHR 0x27] @ '' in address''))
      else Inr x)"

definition SplitHostPort :: "string \<Rightarrow> (string \<times> string) result" where
  "SplitHostPort a =
     (if colon \<notin> set a then Inl (addrErr a missingPort)
      else
        let port = rev (takeWhile (\<lambda>c. c \<noteq> colon) (rev a)); i = length a - length port - 1 in
        if hd a = CHR ''['' then
          (if CHR '']'' \<notin> set a then Inl (addrErr a (''missing '' @ [CHR 0x27] @ '']'' @ [CHR 0x27] @ '' in address''))
           else let k = length (takeWhile (\<lambda>c. c \<noteq> CHR '']'') a) + 1 in
             if k = length a then Inl (addrErr a missingPort)
             else if k \<noteq> i then Inl (addrErr a (if a ! k = colon then tooManyColons else missingPort))
             else no_brackets a (drop 1 a) (drop k a) (take (k - 2) (drop 1 a), port))
        else if colon \<in> set (take i a) then Inl (addrErr a tooManyColons)
        else no_brackets a a a (take i a, port))"

text \<open>\<open>ParseUint(port, 10, 16)\<close> and \<open>Atoi\<close>; \<open>None\<close> is an error.\<close>

definition ParseUint16 :: "string \<Rightarrow> nat option" where
  "ParseUint16 s = (if s \<noteq> [] \<and> all_digits s \<and> dec_val s < 65536 then Some (dec_val s) else None)"

definition Atoi :: "string \<Rightarrow> int option" where
  "Atoi s =
     (let body = (if s \<noteq> [] \<and> (hd s = CHR ''-'' \<or> hd s = CHR ''+'') then tl s else s);
          n = (if s \<noteq> [] \<and> hd s = CHR ''-'' then - int (dec_val body) else int (dec_val body))
      in if body = [] \<or> \<not> all_digits body \<or> \<not> is_i64 n then None else Some n)"

section \<open>Addresses\<close>

text \<open>An address is its sixteen bytes, an IPv4 address in its mapped form.\<close>

type_synonym ip = "nat list"

definition octet :: "string \<Rightarrow> bool" where
  "octet x \<longleftrightarrow> x \<noteq> [] \<and> all_digits x \<and> (length x = 1 \<or> hd x \<noteq> CHR ''0'') \<and> dec_val x \<le> 255"

definition parseIPv4 :: "string \<Rightarrow> nat list option" where
  "parseIPv4 s = (let parts = split_on (CHR ''.'') s in
     if length parts = 4 \<and> list_all octet parts then Some (map dec_val parts) else None)"

definition is_hex :: "char \<Rightarrow> bool" where
  "is_hex c \<longleftrightarrow> is_digit c \<or> 97 \<le> code c \<and> code c \<le> 102 \<or> 65 \<le> code c \<and> code c \<le> 70"

definition hex_val :: "char \<Rightarrow> nat" where
  "hex_val c = (if is_digit c then code c - 48 else if 97 \<le> code c then code c - 87 else code c - 55)"

definition hex_number :: "string \<Rightarrow> nat" where
  "hex_number = foldl (\<lambda>n c. 16 * n + hex_val c) 0"

text \<open>
  The loop over the groups, of which at most \<open>n\<close> are still to come: the bytes so far, where the
  ellipsis was, and the rest of the text.
\<close>

fun ipv6_groups :: "nat \<Rightarrow> nat list \<Rightarrow> nat option \<Rightarrow> string \<Rightarrow> (nat list \<times> nat option) option" where
  "ipv6_groups 0 bytes ellipsis s = (if s = [] then Some (bytes, ellipsis) else None)"
| "ipv6_groups (Suc n) bytes ellipsis s =
     (let h = takeWhile is_hex s; rest = drop (length h) s; bytes' = bytes @ [hex_number h div 256, hex_number h mod 256] in
      if h = [] \<or> 4 < length h then None
      else if rest = [] then Some (bytes', ellipsis)
      else if hd rest = CHR ''.'' then
        (if ellipsis = None \<and> length bytes \<noteq> 12 \<or> 16 < length bytes + 4 then None
         else map_option (\<lambda>q. (bytes @ q, ellipsis)) (parseIPv4 s))
      else if hd rest \<noteq> colon \<or> tl rest = [] then None
      else if hd (tl rest) = colon then
        (if ellipsis \<noteq> None then None
         else if tl (tl rest) = [] then Some (bytes', Some (length bytes'))
         else ipv6_groups n bytes' (Some (length bytes')) (tl (tl rest)))
      else ipv6_groups n bytes' ellipsis (tl rest))"

text \<open>An address with a zone is not an \<open>net.IP\<close>; the ellipsis stands for at least one group.\<close>

definition parseIPv6 :: "string \<Rightarrow> ip option" where
  "parseIPv6 s =
     (if CHR ''%'' \<in> set s then None
      else if s = ''::'' then Some (replicate 16 0)
      else let (ellipsis, t) = (if take 2 s = ''::'' then (Some 0, drop 2 s) else (None, s)) in
        case ipv6_groups 8 [] ellipsis t of
          None \<Rightarrow> None
        | Some (bytes, None) \<Rightarrow> if length bytes < 16 then None else Some bytes
        | Some (bytes, Some k) \<Rightarrow>
            if length bytes < 16 then Some (take k bytes @ replicate (16 - length bytes) 0 @ drop k bytes) else None)"

definition mapped :: "nat list" where
  "mapped = replicate 10 0 @ [255, 255]"

definition ParseIP :: "string \<Rightarrow> ip option" where
  "ParseIP s = (case dropWhile (\<lambda>c. c \<noteq> CHR ''.'' \<and> c \<noteq> colon \<and> c \<noteq> CHR ''%'') s of
     [] \<Rightarrow> None
   | c # _ \<Rightarrow> if c = CHR ''.'' then map_option ((@) mapped) (parseIPv4 s)
       else if c = colon then parseIPv6 s else None)"

definition To4 :: "ip \<Rightarrow> nat list option" where
  "To4 a = (if length a = 16 \<and> take 12 a = mapped then Some (drop 12 a) else None)"

definition IsLoopback :: "ip \<Rightarrow> bool" where
  "IsLoopback a = (case To4 a of Some q \<Rightarrow> q ! 0 = 127 | None \<Rightarrow> a = replicate 15 0 @ [1])"

definition IsPrivate :: "ip \<Rightarrow> bool" where
  "IsPrivate a = (case To4 a of
     Some q \<Rightarrow> q ! 0 = 10 \<or> (q ! 0 = 172 \<and> q ! 1 div 16 = 1) \<or> (q ! 0 = 192 \<and> q ! 1 = 168)
   | None \<Rightarrow> length a = 16 \<and> a ! 0 div 2 = 126)"

section \<open>Paths\<close>

fun clean_step :: "bool \<Rightarrow> string list \<Rightarrow> string \<Rightarrow> string list" where
  "clean_step rooted kept e =
     (if e = [] \<or> e = ''.'' then kept
      else if e \<noteq> ''..'' then kept @ [e]
      else if kept \<noteq> [] \<and> last kept \<noteq> ''..'' then butlast kept
      else if rooted then kept else kept @ [''..''])"

definition slash :: char where
  "slash = CHR 0x2F"

definition Clean :: "string \<Rightarrow> string" where
  "Clean path =
     (let rooted = (path \<noteq> [] \<and> hd path = slash);
          kept = foldl (clean_step rooted) [] (split_on slash path);
          out = (if rooted then [slash] else []) @ join [slash] kept
      in if out = [] then ''.'' else out)"

definition Dir :: "string \<Rightarrow> string" where
  "Dir path = Clean (rev (dropWhile (\<lambda>c. c \<noteq> slash) (rev path)))"

text \<open>\<open>filepath.Join\<close> of two elements of which the first is not empty.\<close>

definition Join :: "string \<Rightarrow> string \<Rightarrow> string" where
  "Join a b = Clean (a @ [slash] @ b)"

end
