(* ===== verification/Webhook.thy ===== *)
theory Webhook
  imports Auth ServiceAuth
begin

text \<open>
  \<open>internal/auth/http.go\<close>: the HTTP handler of the signer webhook, from the credential check over the
  limits on the signer state to the decision of the store and its reply.  The decoding of the JSON
  body is an argument; the handler also returns the label that its decision counter is given.
\<close>

section \<open>The handler\<close>

definition webhookBodyLimit :: nat where
  "webhookBodyLimit = 65536"

definition decode_auth :: "(string \<Rightarrow> AuthRequest option) \<Rightarrow> http_request \<Rightarrow> AuthRequest option" where
  "decode_auth unmarshal req = (if webhookBodyLimit < length (RequestBody req) then None else unmarshal (RequestBody req))"

definition state_ok :: "RemoteState \<Rightarrow> bool" where
  "state_ok st \<longleftrightarrow> \<not> (StateID st = [] \<or> 256 < length (StateID st) \<or> 4096 < length (App st) \<or> 256 < length (AuthID st))"

text \<open>The label of the counter, by the switch over the reasons.\<close>

definition reason_label :: "string \<Rightarrow> string" where
  "reason_label reason =
     (if reason = ''invalid API key'' then ''invalid_key''
      else if reason = ''grant or allocation is inactive'' then ''inactive''
      else if reason = ''allocation exhausted'' then ''exhausted''
      else if reason = ''insufficient allocation balance'' then ''insufficient_balance''
      else if reason = ''invalid USD payment fee'' \<or> reason = ''invalid payment fee'' then ''invalid_fee''
      else if reason = ''unknown auth_id'' then ''unknown_auth''
      else if reason = ''session is revoked or binding does not match'' then ''session_binding''
      else if reason = ''kafka lag exceeded'' then ''kafka_lag_exceeded''
      else if reason = ''kafka lag unavailable'' then ''kafka_lag_unavailable''
      else ''allowed'')"

text \<open>The members of the encoded decision; \<open>reason\<close> and \<open>auth_id\<close> are left out when empty.\<close>

definition decision_json :: "Decision \<Rightarrow> json" where
  "decision_json d = JObject ([(''status'', JInt (Status d))] @ (if Reason d = [] then [] else [(''reason'', JString (Reason d))]) @
     [(''expiry'', JInt (Expiry d))] @ (if d_AuthID d = [] then [] else [(''auth_id'', JString (d_AuthID d))]))"

definition Handler ::
  "'m library \<Rightarrow> Registry option \<Rightarrow> (string \<Rightarrow> AuthRequest option) \<Rightarrow> string \<Rightarrow> int \<Rightarrow> http_request \<Rightarrow> world \<Rightarrow>
     (reply \<times> string option) \<times> world" where
  "Handler lib r unmarshal topic maxAge req s = (case Require lib r req ''webhook'' [''authorize''] of
     Some refusal \<Rightarrow> ((refusal, None), s)
   | None \<Rightarrow> (case decode_auth unmarshal req of
       None \<Rightarrow> ((http_error ''invalid webhook body'' 400, None), s)
     | Some body \<Rightarrow> (case State body of
         None \<Rightarrow> ((http_error ''invalid state'' 400, None), s)
       | Some st \<Rightarrow>
           if \<not> state_ok st then ((http_error ''invalid state'' 400, None), s)
           else (case Address (OrchestratorAddress st) of
             Inl e \<Rightarrow> ((http_error ''invalid orchestrator address'' 400, None), s)
           | Inr _ \<Rightarrow> (case Authorize topic maxAge body s of
               (Inl e, s') \<Rightarrow> ((http_error ''authorization unavailable'' 503, None), s')
             | (Inr d, s') \<Rightarrow> ((\<lparr>Code = 200, ContentType = ''application/json'', Content = Encoded (decision_json d)\<rparr>,
                 Some (reason_label (Reason d))), s'))))))"

section \<open>The labels are exact\<close>

text \<open>Every refusal of the store carries one of the reasons the switch knows.\<close>

definition told :: "Decision \<Rightarrow> bool" where
  "told d \<longleftrightarrow> (reason_label (Reason d) = ''allowed'' \<longleftrightarrow> Status d = 200) \<and> (Status d = 200 \<longrightarrow> Reason d = [])"

lemma lag_reason_label: "lag_reason h now m \<noteq> [] \<Longrightarrow> reason_label (lag_reason h now m) \<noteq> ''allowed''"
  by (auto simp: lag_reason_def reason_label_def split: if_splits)

lemma payment_fee_reason: "payment_fee a st = Inl reason \<Longrightarrow> reason = ''invalid USD payment fee''"
  by (auto simp: payment_fee_def split: if_splits sum.splits)

lemma decide_told: "decide a st key h now m = Inr d \<Longrightarrow> told d"
  by (auto simp: decide_def told_def lag_reason_label dest!: payment_fee_reason split: if_split_asm sum.split_asm)
    (simp_all add: reason_label_def)

lemma told_auth_id: "told (d\<lparr>d_AuthID := i\<rparr>) = told d"
  by (simp add: told_def)

lemma authorize_locked_told: "authorize_locked st k h tp m s = (Inr (d, a, now), s') \<Longrightarrow> told d"
  by (erule authorize_locked_Inr) (auto simp: told_auth_id dest: decide_told)

lemma authorize_key_told:
  assumes "authorize_key st k h tp m s = (Inr d, s')"
  shows "told d"
  using assms
  by (auto simp: authorize_key_def txs split: if_splits prod.splits dest!: touch_if_stale_Inr
      dest: decide_told authorize_locked_told)

lemma Authorize_told: "Authorize tp m req s = (Inr d, s') \<Longrightarrow> told d"
  by (auto simp: Authorize_def split: option.splits if_splits dest: authorize_key_told)
    (simp_all add: told_def reason_label_def)

lemma Authorize_unless_granted:
  "Authorize tp m req s = (r, s') \<Longrightarrow> \<not> (\<exists>d. r = Inr d \<and> Status d = 200) \<Longrightarrow> tables.truncate s' = tables.truncate s"
  by (cases r) (auto simp: Authorize_def split: option.splits if_splits dest: authorize_key_not_200 authorize_key_Inl)

section \<open>The property\<close>

text \<open>
  C35: the webhook endpoint refuses every request that does not carry the webhook credential, whose
  body does not decode, or whose state is missing or oversized, with an error status, without a
  label and without changing a table.  Otherwise the reply carries the decision of the store for the
  decoded request, and the counter's label is the one of a granted request exactly when the decision
  grants; a request that is not granted changes no table.
\<close>

theorem webhook_exact:
  assumes "Handler lib r unmarshal topic maxAge req s = ((answer, label), s')"
  shows "(label = None \<and> Code answer \<in> {400, 401, 403, 503} \<and> tables.truncate s' = tables.truncate s) \<or>
    (\<exists>body st d. Check lib r req ''webhook'' [''authorize''] = 200 \<and> decode_auth unmarshal req = Some body \<and>
       State body = Some st \<and> state_ok st \<and> Authorize topic maxAge body s = (Inr d, s') \<and> Code answer = 200 \<and>
       Content answer = Encoded (decision_json d) \<and> (label = Some ''allowed'' \<longleftrightarrow> Status d = 200) \<and>
       (Status d = 200 \<or> tables.truncate s' = tables.truncate s))"
proof -
  have code: "Code refusal \<in> {401, 403}" if "Require lib r req ''webhook'' [''authorize''] = Some refusal" for refusal
    using that by (auto simp: Require_def Check_def http_error_def Let_def split: if_splits option.splits list.splits)
  have open_gate: "Check lib r req ''webhook'' [''authorize''] = 200" if "Require lib r req ''webhook'' [''authorize''] = None"
    using that by (simp add: Require_def Let_def split: if_splits)
  from assms consider (refused) "label = None" "Code answer \<in> {400, 401, 403, 503}" "tables.truncate s' = tables.truncate s"
    | (decided) body st d where "Check lib r req ''webhook'' [''authorize''] = 200" "decode_auth unmarshal req = Some body"
        "State body = Some st" "state_ok st" "Authorize topic maxAge body s = (Inr d, s')" "Code answer = 200"
        "Content answer = Encoded (decision_json d)" "label = Some (reason_label (Reason d))"
    using code open_gate
    by (auto simp: Handler_def http_error_def split: option.splits if_splits sum.splits prod.splits dest: Authorize_unless_granted)
  then show ?thesis
  proof cases
    case refused
    then show ?thesis by blast
  next
    case decided
    note d = decided(5)
    from Authorize_told [OF d] Authorize_unless_granted [OF d]
    have "label = Some ''allowed'' \<longleftrightarrow> Status d = 200" "Status d = 200 \<or> tables.truncate s' = tables.truncate s"
      using decided(8) by (auto simp: told_def)
    with decided show ?thesis by blast
  qed
qed

text \<open>A signer's first payment is granted; without the credential it is refused.\<close>

definition sample_unmarshal :: "string \<Rightarrow> AuthRequest option" where
  "sample_unmarshal b = (if b = ''sample'' then Some sample_auth else None)"

definition sample_webhook :: "string \<Rightarrow> http_request" where
  "sample_webhook token = (sample_request token)\<lparr>Method := ''POST'', RequestBody := ''sample''\<rparr>"

lemma webhook_exact_witness:
  "\<exists>answer label s' answer'. Handler sample_library (Some sample_registry) sample_unmarshal ''t'' 60000000000 (sample_webhook ''s2'') sample_ready =
       ((answer, label), s') \<and> Code answer = 200 \<and> label = Some ''allowed'' \<and>
     Check sample_library (Some sample_registry) (sample_webhook ''s2'') ''webhook'' [''authorize''] = 200 \<and>
     Handler sample_library (Some sample_registry) sample_unmarshal ''t'' 60000000000 (sample_webhook ''s1'') sample_ready =
       ((answer', None), sample_ready) \<and> Code answer' = 401"
proof -
  let ?h = "\<lambda>t. Handler sample_library (Some sample_registry) sample_unmarshal ''t'' 60000000000 (sample_webhook t) sample_ready"
  have gate: "Require sample_library (Some sample_registry) (sample_webhook ''s2'') ''webhook'' [''authorize''] = None"
    "map_option Code (Require sample_library (Some sample_registry) (sample_webhook ''s1'') ''webhook'' [''authorize'']) = Some 401"
    by code_simp+
  obtain answer' where refused: "?h ''s1'' = ((answer', None), sample_ready)" "Code answer' = 401"
    using gate(2) by (auto simp: Handler_def split: option.splits)
  have run: "?h ''s2'' = ((\<lparr>Code = 200, ContentType = ''application/json'',
      Content = Encoded (decision_json (decision 200 [] ''AQIDBAUGcACAAAAAAAAAEQ''))\<rparr>, Some (reason_label [])), sample_authorized)"
  proof -
    have "decode_auth sample_unmarshal (sample_webhook ''s2'') = Some sample_auth" "state_ok sample_state"
      "\<not> isl (Address (OrchestratorAddress sample_state))" by code_simp+
    moreover have "State sample_auth = Some sample_state" by (simp add: sample_auth_def)
    ultimately show ?thesis using gate(1) by (auto simp: Handler_def sample_authorized_run split: sum.splits)
  qed
  from webhook_exact [OF run] have "Check sample_library (Some sample_registry) (sample_webhook ''s2'') ''webhook'' [''authorize''] = 200"
    by auto
  moreover have "reason_label [] = ''allowed''" by (simp add: reason_label_def)
  ultimately show ?thesis using run refused by auto
qed

end
