(* ===== verification/Kafka.thy ===== *)
theory Kafka
  imports Settlements Auth
begin

text \<open>
  \<open>internal/kafka/listener.go\<close>: the consumer of the usage topic, which validates every checkpoint
  against the broker and then ingests each partition in offset order, and the lag monitor, which
  proves to the webhook up to which moment all usage has been ingested.  What the source takes from
  the Kafka client is the record \<open>broker\<close>, whose answers may differ from call to call; the broker
  that can be embedded in the process is third-party code.
\<close>

section \<open>The outside\<close>

record broker =
  ReadPartitions :: "nat \<Rightarrow> string \<Rightarrow> (string \<times> int) list result"
  ReadOffsets :: "nat \<Rightarrow> string \<Rightarrow> int \<Rightarrow> (int \<times> int) result"
  SetOffset :: "nat \<Rightarrow> string \<Rightarrow> int \<Rightarrow> int \<Rightarrow> unit result"

text \<open>What a reader delivers: a message with its offset, or an error of the connection.\<close>

type_synonym delivery = "(int \<times> string) result"

section \<open>The consumer\<close>

record KafkaListener =
  Broker :: string
  Topic :: string

text \<open>Dialling and asking are both prefixed with the broker's address.\<close>

definition partitions :: "KafkaListener \<Rightarrow> broker \<Rightarrow> (world, int list) tx" where
  "partitions l br =
     bindE (wrapE (Broker l) (rpc_call (\<lambda>t. ReadPartitions br t (Topic l)))) (\<lambda>metadata.
       let ids = map snd (filter (\<lambda>(topic, n). topic = Topic l \<and> 0 \<le> n) metadata) in
       if ids = [] then fail (PlainError (''kafka topic '' @ Topic l @ '' has no partitions''))
       else ret (compact (sort ids)))"

definition offsets :: "KafkaListener \<Rightarrow> broker \<Rightarrow> int \<Rightarrow> (world, int \<times> int) tx" where
  "offsets l br part = wrapE (Broker l) (rpc_call (\<lambda>t. ReadOffsets br t (Topic l) part))"

definition partition_label :: "KafkaListener \<Rightarrow> int \<Rightarrow> string" where
  "partition_label l part = ''kafka topic '' @ Topic l @ '' partition '' @ int_str part"

definition retained_error :: "KafkaListener \<Rightarrow> int \<Rightarrow> int \<Rightarrow> int \<Rightarrow> int \<Rightarrow> error" where
  "retained_error l part next first_offset end_offset =
     PlainError (partition_label l part @ '' checkpoint '' @ int_str next @ '' outside retained offsets ['' @
       int_str first_offset @ '','' @ int_str end_offset @ '']; broker data was lost or replaced'')"

text \<open>A reader starts at the checkpoint, which the broker must still retain.\<close>

definition openReader :: "KafkaListener \<Rightarrow> broker \<Rightarrow> int \<Rightarrow> (world, int) tx" where
  "openReader l br part =
     bindE (Checkpoint ''kafka'' (KafkaStream (Topic l) part)) (\<lambda>(next, hash, found).
     bindE (wrapE (partition_label l part @ '' offsets'') (offsets l br part)) (\<lambda>(first_offset, end_offset).
       if next < first_offset \<or> end_offset < next then fail (retained_error l part next first_offset end_offset)
       else bindE (rpc_call (\<lambda>t. SetOffset br t (Topic l) part next)) (\<lambda>_. ret next)))"

definition consumer_gap :: "KafkaListener \<Rightarrow> int \<Rightarrow> int \<Rightarrow> int \<Rightarrow> error" where
  "consumer_gap l part next offset =
     PlainError (''kafka offset gap for '' @ Topic l @ '' partition '' @ int_str part @ '': expected '' @
       int_str next @ '', received '' @ int_str offset)"

text \<open>One turn of the reading loop: the delivery must carry the expected offset.\<close>

definition read_message :: "KafkaListener \<Rightarrow> decoder \<Rightarrow> int \<Rightarrow> int \<Rightarrow> delivery \<Rightarrow> (world, int) tx" where
  "read_message l dec part next d =
     bindE (wrapE (partition_label l part) (liftE d)) (\<lambda>(offset, payload).
       if offset \<noteq> next then fail (consumer_gap l part next offset)
       else thenE (wrapE (partition_label l part) (Ingest dec (Topic l) part offset payload)) (ret (i64 (next + 1))))"

text \<open>The loop over what is delivered until the context is cancelled.\<close>

fun readPartition :: "KafkaListener \<Rightarrow> decoder \<Rightarrow> int \<Rightarrow> int \<Rightarrow> delivery list \<Rightarrow> (world, unit) tx" where
  "readPartition l dec part next [] = ret ()"
| "readPartition l dec part next (d # ds) =
     bindE (read_message l dec part next d) (\<lambda>n. readPartition l dec part n ds)"

text \<open>
  The error group: every partition has its reader; the schedule says which reader gets the next
  delivery.  The first error cancels the others and is the result.
\<close>

fun run_readers :: "KafkaListener \<Rightarrow> decoder \<Rightarrow> (int \<times> int) list \<Rightarrow> (int \<times> delivery) list \<Rightarrow> (world, unit) tx" where
  "run_readers l dec readers [] = ret ()"
| "run_readers l dec readers ((part, d) # schedule) = (case map_of readers part of
     None \<Rightarrow> run_readers l dec readers schedule
   | Some next \<Rightarrow> bindE (read_message l dec part next d) (\<lambda>n. run_readers l dec (AList.update part n readers) schedule))"

text \<open>\<open>Run\<close>: no reader starts before every checkpoint has been validated.\<close>

definition kafka_Run :: "KafkaListener \<Rightarrow> broker \<Rightarrow> decoder \<Rightarrow> (int \<times> delivery) list \<Rightarrow> (world, unit) tx" where
  "kafka_Run l br dec schedule =
     (if Broker l = [] then fail (PlainError ''kafka broker address required'')
      else bindE (partitions l br) (\<lambda>parts.
        bindE (mapE parts (openReader l br)) (\<lambda>starts.
          run_readers l dec (zip parts starts) schedule)))"

section \<open>Probes\<close>

record partitionSnapshot =
  ps_Partition :: int
  ps_First :: int
  ps_End :: int
  ps_Next :: int
  ps_ObservedAt :: int

text \<open>The clock is read before the checkpoint and the checkpoint before the offsets.\<close>

definition probe_attempt :: "KafkaListener \<Rightarrow> broker \<Rightarrow> int \<Rightarrow> (world, partitionSnapshot) tx" where
  "probe_attempt l br part =
     bindE NowMs (\<lambda>observed.
     bindE (Checkpoint ''kafka'' (KafkaStream (Topic l) part)) (\<lambda>(next, hash, found).
     bindE (offsets l br part) (\<lambda>(first_offset, end_offset).
       ret \<lparr>ps_Partition = part, ps_First = first_offset, ps_End = end_offset, ps_Next = next, ps_ObservedAt = observed\<rparr>)))"

definition retained :: "partitionSnapshot \<Rightarrow> bool" where
  "retained p \<longleftrightarrow> 0 \<le> ps_First p \<and> ps_First p \<le> ps_End p \<and> ps_First p \<le> ps_Next p \<and> ps_Next p \<le> ps_End p"

definition probe_partition :: "KafkaListener \<Rightarrow> broker \<Rightarrow> int \<Rightarrow> (world, partitionSnapshot) tx" where
  "probe_partition l br part =
     bindE (probe_attempt l br part) (\<lambda>p. if retained p then ret p
       else bindE (probe_attempt l br part) (\<lambda>q. if retained q then ret q
         else fail (PlainError ''checkpoint outside retained offsets'')))"

definition probe :: "KafkaListener \<Rightarrow> broker \<Rightarrow> (world, partitionSnapshot list) tx" where
  "probe l br = bindE (partitions l br) (\<lambda>parts. mapE parts (probe_partition l br))"

text \<open>The values of \<open>MetricSnapshot\<close>, without the types of the metrics library.\<close>

definition MetricSnapshot :: "KafkaListener \<Rightarrow> broker \<Rightarrow> (world, (string \<times> int \<times> int) list) tx" where
  "MetricSnapshot l br = bindE (probe l br) (\<lambda>parts. ret (concat (map (\<lambda>p.
     [(''kafka_checkpoint_next_offset'', ps_Partition p, ps_Next p), (''kafka_log_start_offset'', ps_Partition p, ps_First p),
      (''kafka_log_end_offset'', ps_Partition p, ps_End p), (''accounting_lag_records'', ps_Partition p, i64 (ps_End p - ps_Next p))])
     parts)))"

section \<open>Lag coverage\<close>

record offsetObservation =
  ob_end :: int
  ob_at :: int

record partitionCoverage =
  pc_next :: int
  pc_end :: int
  pc_observed :: int
  pc_covered :: int
  pc_pending :: "offsetObservation list"

type_synonym coverage = "(int \<times> partitionCoverage) list"

definition no_coverage :: partitionCoverage where
  "no_coverage = \<lparr>pc_next = 0, pc_end = 0, pc_observed = 0, pc_covered = 0, pc_pending = []\<rparr>"

text \<open>The checks of the first loop, over the snapshots in order; the result says whether a clock went backwards.\<close>

fun check_snapshots :: "coverage \<Rightarrow> int \<Rightarrow> partitionSnapshot list \<Rightarrow> bool result" where
  "check_snapshots c checked [] = Inr False"
| "check_snapshots c checked (p # ps) =
     (if ps_ObservedAt p \<le> 0 \<or> checked < ps_ObservedAt p then Inl (PlainError ''invalid kafka lag observation'')
      else case map_of c (ps_Partition p) of
          None \<Rightarrow> check_snapshots c checked ps
        | Some prev \<Rightarrow>
            if ps_Next p < pc_next prev \<or> ps_End p < pc_end prev then Inl (PlainError ''kafka offsets moved backwards'')
            else map_sum id (\<lambda>regressed. regressed \<or> ps_ObservedAt p < pc_observed prev) (check_snapshots c checked ps))"

text \<open>The window of fences: what has been consumed is covered; older ones beyond the cutoff are dropped.\<close>

fun consume :: "int \<Rightarrow> int \<Rightarrow> int \<Rightarrow> offsetObservation list \<Rightarrow> int \<times> offsetObservation list" where
  "consume next cutoff covered [] = (covered, [])"
| "consume next cutoff covered (f # fs) =
     (if ob_end f \<le> next then consume next cutoff (ob_at f) fs
      else if cutoff < ob_at f then (covered, f # fs)
      else consume next cutoff covered fs)"

definition Milliseconds :: "int \<Rightarrow> int" where
  "Milliseconds d = sgn d * (\<bar>d\<bar> div 1000000)"

definition cover_partition :: "int \<Rightarrow> int \<Rightarrow> partitionSnapshot \<Rightarrow> partitionCoverage \<Rightarrow> partitionCoverage" where
  "cover_partition maxAge checked p prev =
     (let cutoff = i64 (checked - Milliseconds maxAge);
          (covered, pending) = consume (ps_Next p) cutoff (pc_covered prev)
             (pc_pending prev @ [\<lparr>ob_end = ps_End p, ob_at = ps_ObservedAt p\<rparr>]) in
      \<lparr>pc_next = ps_Next p, pc_end = ps_End p, pc_observed = ps_ObservedAt p, pc_covered = covered, pc_pending = pending\<rparr>)"

fun cover :: "int \<Rightarrow> int \<Rightarrow> coverage \<Rightarrow> int \<Rightarrow> partitionSnapshot list \<Rightarrow> int \<times> coverage" where
  "cover maxAge checked c through [] = (through, c)"
| "cover maxAge checked c through (p # ps) =
     (let prev = (case map_of c (ps_Partition p) of None \<Rightarrow> no_coverage | Some prev \<Rightarrow> prev);
          pc = cover_partition maxAge checked p prev in
      cover maxAge checked (AList.update (ps_Partition p) pc c) (min through (pc_covered pc)) ps)"

definition forget :: "partitionCoverage \<Rightarrow> partitionCoverage" where
  "forget pc = pc\<lparr>pc_observed := 0, pc_covered := 0, pc_pending := []\<rparr>"

text \<open>\<open>update\<close>: the health record, an error if there was one, and the coverage kept for the next probe.\<close>

definition lag_update :: "int \<Rightarrow> coverage \<Rightarrow> partitionSnapshot list \<Rightarrow> int \<Rightarrow> (kafka_lag \<times> error option) \<times> coverage" where
  "lag_update maxAge c parts checked =
     (let h = \<lparr>CheckedAt = checked, CoveredThrough = 0, Available = False\<rparr> in
      case check_snapshots c checked parts of
        Inl e \<Rightarrow> ((h, Some e), c)
      | Inr regressed \<Rightarrow>
          if \<exists>p \<in> set (map fst c). p \<notin> set (map ps_Partition parts)
          then ((h, Some (PlainError ''kafka partition disappeared'')), c)
          else if regressed
          then ((h, Some (PlainError ''kafka lag clock moved backwards'')), map (\<lambda>(p, pc). (p, forget pc)) c)
          else let (through, c') = cover maxAge checked c checked parts in
            ((\<lparr>CheckedAt = checked, CoveredThrough = through, Available = 0 < through\<rparr>, None), c'))"

section \<open>The monitor\<close>

definition no_lag :: kafka_lag where
  "no_lag = \<lparr>CheckedAt = 0, CoveredThrough = 0, Available = False\<rparr>"

text \<open>\<open>poll\<close>: what it publishes, its errors (\<open>errors.Join\<close>) and the coverage it keeps.\<close>

definition poll_health :: "int \<Rightarrow> coverage \<Rightarrow> int \<Rightarrow> partitionSnapshot list result \<Rightarrow> int \<Rightarrow> (kafka_lag \<times> error list) \<times> coverage" where
  "poll_health maxAge c started probed now = (case probed of
     Inl e \<Rightarrow> ((no_lag\<lparr>CheckedAt := started\<rparr>, [e]), c)
   | Inr parts \<Rightarrow> (case lag_update maxAge c parts now of ((h, err), c') \<Rightarrow>
       ((h\<lparr>CheckedAt := started, CoveredThrough := min (CoveredThrough h) started\<rparr>,
         case err of None \<Rightarrow> [] | Some e \<Rightarrow> [e]), c')))"

definition try_tx :: "(world, 'a) tx \<Rightarrow> (world, 'a result) tx" where
  "try_tx m s = (case m s of (r, s') \<Rightarrow> (Inr r, s'))"

definition poll :: "int \<Rightarrow> KafkaListener \<Rightarrow> broker \<Rightarrow> coverage \<Rightarrow> (world, error list \<times> coverage) tx" where
  "poll maxAge l br c =
     bindE NowMs (\<lambda>started.
     bindE (try_tx (probe l br)) (\<lambda>probed.
     bindE (case probed of Inl e \<Rightarrow> ret 0 | Inr parts \<Rightarrow> NowMs) (\<lambda>now.
       case poll_health maxAge c started probed now of ((h, errs), c') \<Rightarrow>
         bindE (try_tx (SetKafkaLag (Topic l) h)) (\<lambda>w.
           ret (errs @ (case w of Inl e \<Rightarrow> [e] | Inr _ \<Rightarrow> []), c')))))"

text \<open>\<open>MonitorLag\<close> until its context is cancelled after \<open>polls\<close> polls; then the proof is withdrawn.
  A failed withdrawal is only logged.\<close>

fun monitor_loop :: "int \<Rightarrow> KafkaListener \<Rightarrow> broker \<Rightarrow> nat \<Rightarrow> coverage \<Rightarrow> (world, unit) tx" where
  "monitor_loop maxAge l br 0 c = bindE (try_tx (SetKafkaLag (Topic l) no_lag)) (\<lambda>_. ret ())"
| "monitor_loop maxAge l br (Suc polls) c =
     bindE (poll maxAge l br c) (\<lambda>(errs, c'). monitor_loop maxAge l br polls c')"

definition MonitorLag :: "int \<Rightarrow> KafkaListener \<Rightarrow> broker \<Rightarrow> nat \<Rightarrow> (world, unit) tx" where
  "MonitorLag maxAge l br polls =
     (if maxAge < MinKafkaLag then fail (PlainError ''maximum kafka lag must be at least 1s'')
      else monitor_loop maxAge l br polls [])"

end
