(* ===== verification/Consumer.thy ===== *)
theory Consumer
  imports Kafka
begin

text \<open>
  What the consumer of \<open>Kafka\<close> achieves: whatever the broker delivers and however the partitions
  interleave, every partition is ingested in offset order without gap or repetition, from a
  checkpoint the broker still retains.
\<close>

section \<open>States that differ in what was read only\<close>

definition ticked :: "world \<Rightarrow> world \<Rightarrow> bool" where
  "ticked s s' \<longleftrightarrow> (\<exists>t. s' = s\<lparr>tick := t\<rparr>)"

interpretation ticked: preorder_frame ticked
proof unfold_locales
  fix s t u
  show "ticked s s" by (auto simp: ticked_def intro: exI [of _ "tick s"])
  show "ticked s t \<Longrightarrow> ticked t u \<Longrightarrow> ticked s u" by (auto simp: ticked_def)
qed

lemma ticked_tick: "ticked s (s\<lparr>tick := t\<rparr>)"
  by (auto simp: ticked_def)

lemma ticked_same:
  assumes "ticked s s'"
  shows "accounts_ok s' = accounts_ok s" "usage_events s' = usage_events s" "ingestion_checkpoints s' = ingestion_checkpoints s"
    "kafka_lags s' = kafka_lags s" "clock s' = clock s"
  using assms by (auto simp: ticked_def accounts_ok_def bal_def)

lemma ticked_offset: "ticked s s' \<Longrightarrow> next_offset stream s' = next_offset stream s"
  by (auto simp: ticked_def next_offset_def)

text \<open>\<open>reads m\<close>: \<open>m\<close> only reads, whether it succeeds or fails.\<close>

definition reads :: "(world, 'a) tx \<Rightarrow> bool" where
  "reads m \<longleftrightarrow> (\<forall>s. ticked s (snd (m s)))"

lemma reads_basic: "reads (ret x)" "reads (fail e)" "reads (gets f)" "reads (liftE r)" "reads (rpc_call q)" "reads NowMs"
  by (auto simp: reads_def ticked.R_refl liftE_simp rpc_call_def NowMs_def ticked_tick)

lemma reads_bindE: "reads m \<Longrightarrow> (\<And>x. reads (f x)) \<Longrightarrow> reads (bindE m f)"
  unfolding reads_def
proof
  fix s assume m: "\<forall>s. ticked s (snd (m s))" and f: "\<And>x. \<forall>s. ticked s (snd (f x s))"
  obtain r s' where run: "m s = (r, s')" by fastforce
  then have "ticked s s'" using m by (metis snd_conv)
  then show "ticked s (snd (bindE m f s))"
    using f ticked.R_trans by (cases r) (auto simp: bindE_def run)
qed

lemma snd_wrapE: "snd (wrapE what m s) = snd (m s)"
  by (auto simp: wrapE_def split: prod.splits sum.splits)

lemma reads_wrapE: "reads m \<Longrightarrow> reads (wrapE what m)"
  by (simp add: reads_def snd_wrapE)

lemma reads_mapE: "(\<And>x. reads (f x)) \<Longrightarrow> reads (mapE xs f)"
  by (induction xs) (auto intro: reads_basic reads_bindE)

lemma reads_if: "reads m \<Longrightarrow> reads k \<Longrightarrow> reads (if c then m else k)"
  by simp

lemma reads_case_prod: "(\<And>x y. reads (f x y)) \<Longrightarrow> reads (case p of (x, y) \<Rightarrow> f x y)"
  by (cases p) simp

lemma reads_Checkpoint: "reads (Checkpoint src stream)"
  by (auto simp: reads_def Checkpoint_def ticked.R_refl split: option.splits)

lemmas reads_intros = reads_basic reads_bindE reads_wrapE reads_mapE reads_if reads_case_prod reads_Checkpoint

lemma readsD: "reads m \<Longrightarrow> m s = (r, s') \<Longrightarrow> ticked s s'"
  by (metis reads_def snd_conv)

lemma partitions_reads: "reads (partitions l br)"
  unfolding partitions_def Let_def by (intro reads_intros)

lemma openReader_reads: "reads (openReader l br part)"
  unfolding openReader_def offsets_def by (intro reads_intros)

section \<open>One delivery\<close>

definition audit :: "world \<Rightarrow> (string \<times> int \<times> int \<times> string) list" where
  "audit s = map (\<lambda>r. (u_topic r, u_partition r, u_offset r, u_raw_payload r)) (usage_events s)"

lemma KafkaStream_inject: "KafkaStream topic p = KafkaStream topic q \<longleftrightarrow> p = q"
  by (simp add: KafkaStream_def)

lemma read_message_Inl:
  assumes "read_message l dec part n d s = (Inl e, s')"
  shows "ticked s s'"
proof -
  have w: "wrapE what m s = (Inl e, s') \<Longrightarrow> \<exists>e'. m s = (Inl e', s')" for what and m :: "(world, 'b) tx" and s s' e
    by (auto simp: wrapE_def split: prod.splits sum.splits)
  have ing: "Ingest dec topic part off raw s = (Inl e, s') \<Longrightarrow> ticked s s'" for topic off raw s s' e
    by (auto simp: Ingest_def Write_Inl_iff rollback_def ticked.R_refl ticked_tick split: if_splits)
  from assms show ?thesis
    by (auto simp: read_message_def bindE_Inl thenE_Inl txs liftE_simp ticked.R_refl dest!: w intro: ing split: if_splits)
qed

lemma read_message_Inr:
  assumes "read_message l dec part n d s = (Inr m, s')" "accounts_ok s" "n = next_offset (KafkaStream (Topic l) part) s" "is_i64 n"
  shows "\<exists>payload. d = Inr (n, payload) \<and> n \<noteq> MaxInt64 \<and> m = n + 1 \<and> accounts_ok s' \<and> audit s' = audit s @ [(Topic l, part, n, payload)] \<and>
    (\<forall>stream. next_offset stream s' = (if stream = KafkaStream (Topic l) part then n + 1 else next_offset stream s))"
proof -
  from assms(1) obtain payload where d: "d = Inr (n, payload)" and m: "m = i64 (n + 1)"
    and ing: "Ingest dec (Topic l) part n payload s = (Inr (), s')"
    by (cases d) (auto simp: read_message_def txs split: if_splits)
  then have r: "ingest_next dec (Topic l) part n payload s = (Inr (), s')" and b: "0 \<le> n" "n \<noteq> MaxInt64"
    using assms(3) by (auto simp: Ingest_Inr)
  note f = ingest_next_fields [OF r assms(2)]
  have "m = n + 1" using m b assms(4) by (simp add: i64_id is_i64_def)
  then show ?thesis using d b f(1,6) next_offset_advance [OF f(7)] by (simp add: audit_def)
qed


section \<open>The readers\<close>

text \<open>The messages a schedule hands to the readers of the partitions \<open>P\<close>.\<close>

definition received :: "string \<Rightarrow> int set \<Rightarrow> (int \<times> delivery) list \<Rightarrow> (string \<times> int \<times> int \<times> string) list" where
  "received topic P schedule = concat (map (\<lambda>(p, d). case d of Inl e \<Rightarrow> []
     | Inr (offset, payload) \<Rightarrow> if p \<in> P then [(topic, p, offset, payload)] else []) schedule)"

definition of_partition :: "int \<Rightarrow> (string \<times> int \<times> int \<times> string) list \<Rightarrow> int list" where
  "of_partition p ms = map (\<lambda>(t, q, offset, payload). offset) (filter (\<lambda>(t, q, offset, payload). q = p) ms)"

lemma received_simps [simp]:
  "received topic P [] = []"
  "received topic P ((p, Inr (offset, payload)) # sch) = (if p \<in> P then [(topic, p, offset, payload)] else []) @ received topic P sch"
  "p \<notin> P \<Longrightarrow> received topic P ((p, d) # sch) = received topic P sch"
  by (auto simp: received_def split: sum.splits)

lemma of_partition_simps [simp]:
  "of_partition p [] = []"
  "of_partition p ((t, q, offset, payload) # ms) = (if q = p then [offset] else []) @ of_partition p ms"
  by (simp_all add: of_partition_def)

definition int64_offsets :: "world \<Rightarrow> bool" where
  "int64_offsets s \<longleftrightarrow> (\<forall>stream. is_i64 (next_offset stream s))"

text \<open>What a run has done when it consumed the deliveries \<open>ds\<close>.\<close>

definition consumed :: "string \<Rightarrow> int set \<Rightarrow> world \<Rightarrow> (int \<times> delivery) list \<Rightarrow> world \<Rightarrow> bool" where
  "consumed topic P s ds s' \<longleftrightarrow> accounts_ok s' \<and> audit s' = audit s @ received topic P ds \<and>
     (\<forall>p \<in> P. let offs = of_partition p (received topic P ds); n = next_offset (KafkaStream topic p) s in
        offs = map (\<lambda>i. n + int i) [0..<length offs] \<and> next_offset (KafkaStream topic p) s' = n + int (length offs))"

lemma consumed_ticked: "accounts_ok s \<Longrightarrow> ticked s s' \<Longrightarrow> consumed topic P s [] s'"
  by (simp add: consumed_def audit_def ticked_same ticked_offset)

lemma consumed_Cons:
  assumes "p \<in> P" "n = next_offset (KafkaStream topic p) s" "audit s1 = audit s @ [(topic, p, n, payload)]"
    "\<forall>stream. next_offset stream s1 = (if stream = KafkaStream topic p then n + 1 else next_offset stream s)"
    "consumed topic P s1 ds s'"
  shows "consumed topic P s ((p, Inr (n, payload)) # ds) s'"
  unfolding consumed_def Let_def
proof (intro conjI ballI)
  show "accounts_ok s'" "audit s' = audit s @ received topic P ((p, Inr (n, payload)) # ds)"
    using assms by (simp_all add: consumed_def)
  fix q assume q: "q \<in> P"
  let ?offs = "of_partition q (received topic P ds)"
  have c: "?offs = map (\<lambda>i. next_offset (KafkaStream topic q) s1 + int i) [0..<length ?offs]"
    "next_offset (KafkaStream topic q) s' = next_offset (KafkaStream topic q) s1 + int (length ?offs)"
    using assms(5) q by (simp_all add: consumed_def Let_def)
  have n1: "next_offset (KafkaStream topic q) s1 = (if q = p then n + 1 else next_offset (KafkaStream topic q) s)"
    using assms(4) by (simp add: KafkaStream_inject)
  have step: "map (\<lambda>i. n + int i) [0..<Suc k] = n # map (\<lambda>i. n + 1 + int i) [0..<k]" for k
    by (simp add: map_upt_Suc algebra_simps del: upt_Suc)
  show "of_partition q (received topic P ((p, Inr (n, payload)) # ds)) =
      map (\<lambda>i. next_offset (KafkaStream topic q) s + int i) [0..<length (of_partition q (received topic P ((p, Inr (n, payload)) # ds)))]"
    using c(1) n1 assms(1,2) step [of "length ?offs"] by (cases "q = p") (simp_all del: upt_Suc)
  show "next_offset (KafkaStream topic q) s' = next_offset (KafkaStream topic q) s +
      int (length (of_partition q (received topic P ((p, Inr (n, payload)) # ds))))"
    using c(2) n1 assms(1,2) by (cases "q = p") simp_all
qed

lemma run_readers_consumed:
  assumes "run_readers l dec readers schedule s = (res, s')" "accounts_ok s" "int64_offsets s"
    and "\<forall>p n. map_of readers p = Some n \<longrightarrow> n = next_offset (KafkaStream (Topic l) p) s"
  shows "\<exists>ds rest. schedule = ds @ rest \<and> (res = Inr () \<longleftrightarrow> rest = []) \<and> consumed (Topic l) (dom (map_of readers)) s ds s'"
  using assms
proof (induction schedule arbitrary: readers s)
  case Nil
  then show ?case by (auto intro: consumed_ticked ticked.R_refl)
next
  case (Cons a schedule)
  obtain p d where a: "a = (p, d)" by fastforce
  let ?P = "dom (map_of readers)"
  show ?case
  proof (cases "map_of readers p")
    case None
    then have r: "run_readers l dec readers schedule s = (res, s')" using Cons.prems(1) a by simp
    from Cons.IH [OF r Cons.prems(2-4)] obtain ds rest where h: "schedule = ds @ rest" "res = Inr () \<longleftrightarrow> rest = []"
      "consumed (Topic l) ?P s ds s'" by blast
    have "p \<notin> ?P" using None by auto
    then have "consumed (Topic l) ?P s ((p, d) # ds) s'" using h(3) by (simp add: consumed_def)
    then show ?thesis using h(1,2) a by (intro exI [of _ "(p, d) # ds"] exI [of _ rest]) simp
  next
    case (Some n)
    then have n: "n = next_offset (KafkaStream (Topic l) p) s" using Cons.prems(4) by blast
    have pP: "p \<in> ?P" using Some by auto
    obtain r s1 where rm: "read_message l dec p n d s = (r, s1)" by fastforce
    show ?thesis
    proof (cases r)
      case (Inl e)
      then have "res = Inl e" "s' = s1" using Cons.prems(1) a Some rm by (simp_all add: bindE_def)
      moreover have "ticked s s1" using read_message_Inl rm Inl by blast
      ultimately show ?thesis
        using consumed_ticked [OF Cons.prems(2)] by (intro exI [of _ "[]"] exI [of _ "a # schedule"]) simp
    next
      case (Inr m)
      have i: "is_i64 n" using Cons.prems(3) n by (simp add: int64_offsets_def)
      from read_message_Inr [OF rm [unfolded Inr] Cons.prems(2) n i] obtain payload where
        d: "d = Inr (n, payload)" and nmax: "n \<noteq> MaxInt64" and m: "m = n + 1" and ok: "accounts_ok s1" and au: "audit s1 = audit s @ [(Topic l, p, n, payload)]"
        and off: "\<forall>stream. next_offset stream s1 = (if stream = KafkaStream (Topic l) p then n + 1 else next_offset stream s)" by blast
      let ?readers = "AList.update p m readers"
      have run: "run_readers l dec ?readers schedule s1 = (res, s')" using Cons.prems(1) a Some rm Inr by (simp add: bindE_def)
      have i1: "int64_offsets s1" using Cons.prems(3) off i nmax by (auto simp: int64_offsets_def is_i64_def)
      have rd: "\<forall>q k. map_of ?readers q = Some k \<longrightarrow> k = next_offset (KafkaStream (Topic l) q) s1"
        using Cons.prems(4) off m by (auto simp: update_conv' KafkaStream_inject split: if_splits)
      have dom: "dom (map_of ?readers) = ?P" using pP by (auto simp: update_conv')
      from Cons.IH [OF run ok i1 rd] obtain ds rest where h: "schedule = ds @ rest" "res = Inr () \<longleftrightarrow> rest = []"
        "consumed (Topic l) ?P s1 ds s'" unfolding dom by blast
      have "consumed (Topic l) ?P s ((p, d) # ds) s'" unfolding d by (rule consumed_Cons [OF pP n au off h(3)])
      then show ?thesis using h(1,2) a by (intro exI [of _ "(p, d) # ds"] exI [of _ rest]) simp
    qed
  qed
qed


section \<open>Starting\<close>

definition retained_by :: "KafkaListener \<Rightarrow> broker \<Rightarrow> int \<Rightarrow> int \<Rightarrow> bool" where
  "retained_by l br n part \<longleftrightarrow> (\<exists>t first_offset end_offset. ReadOffsets br t (Topic l) part = Inr (first_offset, end_offset) \<and>
     first_offset \<le> n \<and> n \<le> end_offset)"

lemma openReader_Inr:
  assumes "openReader l br part s = (Inr n, s')"
  shows "n = next_offset (KafkaStream (Topic l) part) s \<and> retained_by l br n part"
proof -
  have "n = next_offset (KafkaStream (Topic l) part) s \<and> (\<exists>f e. ReadOffsets br (tick s) (Topic l) part = Inr (f, e) \<and> f \<le> n \<and> n \<le> e)"
    using assms
    by (auto simp: openReader_def offsets_def txs Checkpoint_def next_offset_def not_less split: option.splits if_splits)
  then show ?thesis unfolding retained_by_def by blast
qed

lemma openReaders_Inr:
  "mapE parts (openReader l br) s = (Inr starts, s') \<Longrightarrow> starts = map (\<lambda>p. next_offset (KafkaStream (Topic l) p) s) parts \<and>
     (\<forall>p \<in> set parts. retained_by l br (next_offset (KafkaStream (Topic l) p) s) p)"
proof (induction parts arbitrary: s starts)
  case (Cons p parts)
  then obtain n s1 ns where o1: "openReader l br p s = (Inr n, s1)" and o2: "mapE parts (openReader l br) s1 = (Inr ns, s')"
    and st: "starts = n # ns" by (auto simp: txs)
  have t: "ticked s s1" by (rule readsD [OF openReader_reads o1])
  show ?case using openReader_Inr [OF o1] Cons.IH [OF o2] st ticked_offset [OF t] by auto
qed simp



text \<open>Two partitions, interleaved; the fourth delivery skips an offset.\<close>

definition sample_listener :: KafkaListener where
  "sample_listener = \<lparr>Broker = ''localhost:9092'', Topic = ''t''\<rparr>"

definition sample_broker :: broker where
  "sample_broker = \<lparr>ReadPartitions = (\<lambda>t topic. Inr [(topic, 1), (''other'', 7), (topic, 0)]),
     ReadOffsets = (\<lambda>t topic p. Inr (0, 2)), SetOffset = (\<lambda>t topic p n. Inr ())\<rparr>"

definition sample_schedule :: "(int \<times> delivery) list" where
  "sample_schedule = [(0, Inr (0, ''noise'')), (1, Inr (0, ''malformed'')), (0, Inr (1, ''other'')), (0, Inr (5, ''more''))]"


end
