(* ===== verification/Lag.thy ===== *)
theory Lag
  imports Consumer
begin

text \<open>
  What the lag monitor of \<open>Kafka\<close> proves to the webhook: as long as the wall clock does not go
  backwards, the published moment is one up to which every record of the topic has been ingested,
  through any sequence of polls, restarts, ingestions and other work on the database.
\<close>

section \<open>What ingestion leaves alone\<close>

definition lag_view :: "world \<Rightarrow> (string \<times> kafka_lag) list \<times> (nat \<Rightarrow> int)" where
  "lag_view s = (kafka_lags s, clock s)"

definition lag_kept :: "world \<Rightarrow> world \<Rightarrow> bool" where
  "lag_kept s s' \<longleftrightarrow> lag_view s' = lag_view s"

interpretation lag_kept: preorder_frame lag_kept
  by unfold_locales (simp_all add: lag_kept_def)

lemma nonledger_lag: "nonledger s' = nonledger s \<Longrightarrow> lag_kept s s'"
proof -
  have "lag_view t = lag_view (nonledger t)" for t by (simp add: lag_view_def nonledger_def nonmetric_def)
  then show "nonledger s' = nonledger s \<Longrightarrow> lag_kept s s'" unfolding lag_kept_def by metis
qed

lemma nonmetric_lag: "nonmetric s' = nonmetric s \<Longrightarrow> lag_kept s s'"
  by (rule nonledger_lag) (simp add: nonledger_def)

lemma nonmatch_lag: "nonmatch s' = nonmatch s \<Longrightarrow> lag_kept s s'"
proof -
  have "lag_view t = lag_view (nonmatch t)" for t by (simp add: lag_view_def nonmatch_def nonmetric_def)
  then show "nonmatch s' = nonmatch s \<Longrightarrow> lag_kept s s'" unfolding lag_kept_def by metis
qed

lemma lag_rows:
  "lag_kept s (s\<lparr>usage_events := a\<rparr>)" "lag_kept s (s\<lparr>signing_authorizations := b\<rparr>)" "lag_kept s (s\<lparr>allocations := c\<rparr>)"
  "lag_kept s (s\<lparr>ingestion_checkpoints := e\<rparr>)" "lag_kept s (s\<lparr>tick := n\<rparr>)"
  by (simp_all add: lag_kept_def lag_view_def)

lemma lag_steps:
  "within lag_kept (changeMetricCount kind a b n)" "within lag_kept (changeInventory kind cur from into)"
  "within lag_kept (TransferCurrency key rsn rt ri d di cr ci cur amount)" "within lag_kept (rematch pm orch)"
  "within lag_kept (BalanceCurrency acc i cur)"
proof -
  show "within lag_kept (changeMetricCount kind a b n)" by (rule withinI) (rule nonmetric_lag, rule changeMetricCount_frame)
  show "within lag_kept (changeInventory kind cur from into)" by (rule withinI) (rule nonmetric_lag, rule changeInventory_frame)
  show "within lag_kept (TransferCurrency key rsn rt ri d di cr ci cur amount)"
    by (rule withinI) (use TransferCurrency_basic nonledger_lag in blast)
  show "within lag_kept (rematch pm orch)" by (rule withinI) (rule nonmatch_lag, rule rematch_frame)
  show "within lag_kept (BalanceCurrency acc i cur)" by (rule withinI) (auto simp: BalanceCurrency_Inr lag_kept.R_refl)
qed

lemmas within_lag = lag_kept.within_intros within_sql_write within_modify within_ID within_NowMs within_Write lag_rows lag_steps

lemma Ingest_lag_kept: "within lag_kept (Ingest dec topic part offset raw)"
proof -
  have "within lag_kept (apply_ticket uid v)" for uid v
    unfolding apply_ticket_def exhaust_active_def insert_signing_authorization_def by (intro within_lag)
  then show ?thesis
    unfolding Ingest_def ingest_next_def count_quarantine_def apply_verdict_def insert_usage_event_def SetCheckpoint_def
    by (intro within_lag)
qed

lemma Ingest_effect:
  assumes "Ingest dec topic part offset raw s = (r, s')" "accounts_ok s"
  shows "lag_kept s s' \<and> accounts_ok s' \<and> next_offset stream s \<le> next_offset stream s'"
proof (cases r)
  case (Inl e)
  then have "ticked s s'"
    using assms(1) by (auto simp: Ingest_def Write_Inl_iff rollback_def ticked.R_refl ticked_tick split: if_splits)
  then show ?thesis using assms(2) ticked_same ticked_offset by (simp add: lag_kept_def lag_view_def)
next
  case (Inr u)
  have k: "lag_kept s s'" by (rule withinD [OF Ingest_lag_kept assms(1) [unfolded Inr]])
  from assms(1) Inr consider "s' = s" | "offset = next_offset (KafkaStream topic part) s" "ingest_next dec topic part offset raw s = (Inr u, s')"
    by (auto simp: Ingest_Inr)
  then show ?thesis
  proof cases
    case 1
    then show ?thesis using assms(2) k by simp
  next
    case 2
    note f = ingest_next_fields [OF 2(2) assms(2)]
    show ?thesis using k f(1) next_offset_advance [OF f(7), of stream] 2(1) by simp
  qed
qed

section \<open>Coverage\<close>

text \<open>
  \<open>A p t\<close> is the number of records of partition \<open>p\<close> when the host has read \<open>t\<close> times and \<open>clk t\<close> the
  wall clock then.  \<open>past A clk p m n\<close>: of the records of earlier moments than \<open>m\<close> none is at \<open>n\<close> or above.
\<close>

definition past :: "(int \<Rightarrow> nat \<Rightarrow> int) \<Rightarrow> (nat \<Rightarrow> int) \<Rightarrow> int \<Rightarrow> int \<Rightarrow> int \<Rightarrow> bool" where
  "past A clk p m n \<longleftrightarrow> (\<forall>t. clk t < m \<longrightarrow> A p t \<le> n)"

lemma past_mono: "past A clk p m n \<Longrightarrow> m' \<le> m \<Longrightarrow> n \<le> n' \<Longrightarrow> past A clk p m' n'"
  unfolding past_def by (meson le_less_trans less_le_trans order_trans)

definition covered_upto :: "(int \<Rightarrow> nat \<Rightarrow> int) \<Rightarrow> (nat \<Rightarrow> int) \<Rightarrow> int \<Rightarrow> int \<Rightarrow> int \<Rightarrow> bool" where
  "covered_upto A clk p m n \<longleftrightarrow> (0 < m \<longrightarrow> past A clk p m n)"

definition fences_ok :: "(int \<Rightarrow> nat \<Rightarrow> int) \<Rightarrow> (nat \<Rightarrow> int) \<Rightarrow> int \<Rightarrow> offsetObservation list \<Rightarrow> bool" where
  "fences_ok A clk p fs \<longleftrightarrow> (\<forall>f \<in> set fs. past A clk p (ob_at f) (ob_end f))"

text \<open>The coverage is sound for the checkpoints \<open>n\<close>.\<close>

definition coverage_ok :: "(int \<Rightarrow> nat \<Rightarrow> int) \<Rightarrow> (nat \<Rightarrow> int) \<Rightarrow> (int \<Rightarrow> int) \<Rightarrow> coverage \<Rightarrow> bool" where
  "coverage_ok A clk n c \<longleftrightarrow> (\<forall>p pc. map_of c p = Some pc \<longrightarrow>
     fences_ok A clk p (pc_pending pc) \<and> covered_upto A clk p (pc_covered pc) (n p))"

definition snapshot_ok :: "(int \<Rightarrow> nat \<Rightarrow> int) \<Rightarrow> (nat \<Rightarrow> int) \<Rightarrow> (int \<Rightarrow> int) \<Rightarrow> partitionSnapshot \<Rightarrow> bool" where
  "snapshot_ok A clk n p \<longleftrightarrow> past A clk (ps_Partition p) (ps_ObservedAt p) (ps_End p) \<and> ps_Next p \<le> n (ps_Partition p)"

lemma consume_ok:
  "consume next cutoff cov fs = (cov', rest) \<Longrightarrow> fences_ok A clk p fs \<Longrightarrow> covered_upto A clk p cov n \<Longrightarrow> next \<le> n \<Longrightarrow>
   fences_ok A clk p rest \<and> covered_upto A clk p cov' n"
proof (induction "next" cutoff cov fs rule: consume.induct)
  case (2 "next" cutoff cov f fs)
  have f: "past A clk p (ob_at f) (ob_end f)" "fences_ok A clk p fs" using 2(4) by (simp_all add: fences_ok_def)
  show ?case
  proof (cases "ob_end f \<le> next")
    case True
    have "covered_upto A clk p (ob_at f) n" using f(1) True 2(6) past_mono by (fastforce simp: covered_upto_def)
    then show ?thesis using 2 True f by simp
  next
    case False
    then show ?thesis using 2 f by (auto split: if_splits)
  qed
qed simp

lemma cover_partition_ok:
  assumes "fences_ok A clk (ps_Partition p) (pc_pending prev)" "covered_upto A clk (ps_Partition p) (pc_covered prev) (n (ps_Partition p))"
    and "snapshot_ok A clk n p"
  shows "fences_ok A clk (ps_Partition p) (pc_pending (cover_partition maxAge checked p prev)) \<and>
    covered_upto A clk (ps_Partition p) (pc_covered (cover_partition maxAge checked p prev)) (n (ps_Partition p))"
proof -
  let ?fs = "pc_pending prev @ [\<lparr>ob_end = ps_End p, ob_at = ps_ObservedAt p\<rparr>]"
  obtain cov rest where c: "consume (ps_Next p) (i64 (checked - Milliseconds maxAge)) (pc_covered prev) ?fs = (cov, rest)" by fastforce
  have "fences_ok A clk (ps_Partition p) ?fs" using assms(1,3) by (auto simp: fences_ok_def snapshot_ok_def)
  from consume_ok [OF c this assms(2)] assms(3) show ?thesis by (simp add: cover_partition_def c snapshot_ok_def)
qed

lemma cover_ok:
  "cover maxAge checked c through ps = (through', c') \<Longrightarrow> coverage_ok A clk n c \<Longrightarrow> \<forall>p \<in> set ps. snapshot_ok A clk n p \<Longrightarrow>
   coverage_ok A clk n c' \<and> through' \<le> through \<and> (\<forall>p \<in> set ps. covered_upto A clk (ps_Partition p) through' (n (ps_Partition p)))"
proof (induction maxAge checked c through ps rule: cover.induct)
  case (2 maxAge checked c through p ps)
  define prev where "prev = (case map_of c (ps_Partition p) of None \<Rightarrow> no_coverage | Some prev \<Rightarrow> prev)"
  define pc where "pc = cover_partition maxAge checked p prev"
  have prev: "fences_ok A clk (ps_Partition p) (pc_pending prev)" "covered_upto A clk (ps_Partition p) (pc_covered prev) (n (ps_Partition p))"
    using 2(3) by (auto simp: prev_def coverage_ok_def no_coverage_def fences_ok_def covered_upto_def split: option.splits)
  have s: "snapshot_ok A clk n p" "\<forall>p \<in> set ps. snapshot_ok A clk n p" using 2(4) by simp_all
  have pc: "fences_ok A clk (ps_Partition p) (pc_pending pc)" "covered_upto A clk (ps_Partition p) (pc_covered pc) (n (ps_Partition p))"
    using cover_partition_ok [OF prev s(1)] by (simp_all add: pc_def)
  have c1: "coverage_ok A clk n (AList.update (ps_Partition p) pc c)"
    using 2(3) pc by (auto simp: coverage_ok_def update_conv')
  have run: "cover maxAge checked (AList.update (ps_Partition p) pc c) (min through (pc_covered pc)) ps = (through', c')"
    using 2(2) by (simp add: Let_def prev_def pc_def)
  from 2(1) [OF refl refl, folded prev_def, folded pc_def, OF run c1 s(2)]
  have ih: "coverage_ok A clk n c'" "through' \<le> min through (pc_covered pc)"
    "\<forall>p \<in> set ps. covered_upto A clk (ps_Partition p) through' (n (ps_Partition p))" by blast+
  have "covered_upto A clk (ps_Partition p) through' (n (ps_Partition p))"
    using pc(2) ih(2) past_mono by (fastforce simp: covered_upto_def)
  then show ?case using ih by simp
qed simp

lemma lag_update_ok:
  assumes "lag_update maxAge c parts checked = ((h, err), c')" "coverage_ok A clk n c" "\<forall>p \<in> set parts. snapshot_ok A clk n p"
  shows "coverage_ok A clk n c' \<and> (\<forall>p \<in> set parts. covered_upto A clk (ps_Partition p) (CoveredThrough h) (n (ps_Partition p)))"
proof -
  have forget: "coverage_ok A clk n (map (\<lambda>(p, pc). (p, forget pc)) c)"
    using assms(2) by (auto simp: coverage_ok_def map_of_map forget_def fences_ok_def covered_upto_def)
  have zero: "covered_upto A clk p 0 m" for p m by (simp add: covered_upto_def)
  obtain through c1 where cv: "cover maxAge checked c checked parts = (through, c1)" by fastforce
  show ?thesis
    using assms cover_ok [OF cv assms(2,3)] forget zero
    by (auto simp: lag_update_def Let_def cv split: sum.splits if_splits)
qed


section \<open>Probes\<close>

text \<open>
  A truthful broker: its log of a partition only grows, an end offset it reports counts every record
  it had by then, and it lists the partitions \<open>P\<close> of the topic whenever it answers.
\<close>

definition truthful :: "(int \<Rightarrow> nat \<Rightarrow> int) \<Rightarrow> int set \<Rightarrow> string \<Rightarrow> broker \<Rightarrow> bool" where
  "truthful A P topic br \<longleftrightarrow> (\<forall>p. mono (A p)) \<and>
     (\<forall>u p f e. ReadOffsets br u topic p = Inr (f, e) \<longrightarrow> A p u \<le> e) \<and>
     (\<forall>u ms. ReadPartitions br u topic = Inr ms \<longrightarrow> {n. (topic, n) \<in> set ms \<and> 0 \<le> n} = P)"

definition checkpoints :: "string \<Rightarrow> world \<Rightarrow> int \<Rightarrow> int" where
  "checkpoints topic s p = next_offset (KafkaStream topic p) s"

lemma checkpoints_ticked: "ticked s s' \<Longrightarrow> checkpoints topic s' = checkpoints topic s"
  by (simp add: ticked_offset fun_eq_iff checkpoints_def)

lemma probe_reads: "reads (probe l br)" "reads (probe_partition l br part)"
  unfolding probe_def probe_partition_def probe_attempt_def offsets_def
  by (intro reads_intros partitions_reads)+

lemma probe_attempt_ok:
  assumes "probe_attempt l br part s = (Inr p, s')" "truthful A P (Topic l) br" "mono (clock s)"
  shows "ps_Partition p = part \<and> snapshot_ok A (clock s) (checkpoints (Topic l) s) p"
proof -
  from assms(1) obtain f where p: "ps_Partition p = part" "ps_ObservedAt p = clock s (tick s)"
    "ReadOffsets br (Suc (tick s)) (Topic l) part = Inr (f, ps_End p)" "ps_Next p = checkpoints (Topic l) s part"
    by (auto simp: probe_attempt_def offsets_def txs Checkpoint_def next_offset_def checkpoints_def split: option.splits)
  have "A part t \<le> ps_End p" if "clock s t < clock s (tick s)" for t
  proof -
    have "t \<le> Suc (tick s)" using that assms(3) by (metis le_SucI linorder_not_le monoD nle_le)
    then have "A part t \<le> A part (Suc (tick s))" using assms(2) by (simp add: truthful_def monoD)
    then show ?thesis using assms(2) p(3) by (fastforce simp: truthful_def)
  qed
  then show ?thesis using p by (simp add: snapshot_ok_def past_def)
qed

lemma probe_partition_ok:
  assumes "probe_partition l br part s = (Inr p, s')" "truthful A P (Topic l) br" "mono (clock s)"
  shows "ps_Partition p = part \<and> snapshot_ok A (clock s) (checkpoints (Topic l) s) p"
proof -
  from assms(1) obtain q s1 where a: "probe_attempt l br part s = (Inr q, s1)" and
    r: "(if retained q then ret q else bindE (probe_attempt l br part) (\<lambda>q. if retained q then ret q
         else fail (PlainError ''checkpoint outside retained offsets''))) s1 = (Inr p, s')"
    by (auto simp: probe_partition_def bindE_Inr)
  have "reads (probe_attempt l br part)" unfolding probe_attempt_def offsets_def by (intro reads_intros)
  then have t: "ticked s s1" using a by (rule readsD)
  have q: "ps_Partition q = part \<and> snapshot_ok A (clock s) (checkpoints (Topic l) s) q" by (rule probe_attempt_ok [OF a assms(2,3)])
  show ?thesis
  proof (cases "retained q")
    case True
    then show ?thesis using r q by simp
  next
    case False
    then obtain s2 where "probe_attempt l br part s1 = (Inr p, s2)" using r by (auto simp: txs)
    from probe_attempt_ok [OF this assms(2)] show ?thesis
      using assms(3) ticked_same(5) [OF t] checkpoints_ticked [OF t] by simp
  qed
qed

lemma probe_ok:
  assumes "probe l br s = (Inr parts, s')" "truthful A P (Topic l) br" "mono (clock s)"
  shows "ps_Partition ` set parts = P \<and> (\<forall>p \<in> set parts. snapshot_ok A (clock s) (checkpoints (Topic l) s) p)"
proof -
  from assms(1) obtain ids s1 where i: "partitions l br s = (Inr ids, s1)" and m: "mapE ids (probe_partition l br) s1 = (Inr parts, s')"
    by (auto simp: probe_def bindE_Inr)
  have t: "ticked s s1" by (rule readsD [OF partitions_reads i])
  have step: "mapE ids (probe_partition l br) s = (Inr parts, s') \<Longrightarrow> mono (clock s) \<Longrightarrow> map ps_Partition parts = ids \<and>
      (\<forall>p \<in> set parts. snapshot_ok A (clock s) (checkpoints (Topic l) s) p)" for ids parts s
  proof (induction ids arbitrary: s parts)
    case (Cons a ids)
    then obtain p s1 ps where o: "probe_partition l br a s = (Inr p, s1)" "mapE ids (probe_partition l br) s1 = (Inr ps, s')" "parts = p # ps"
      by (auto simp: txs)
    have t: "ticked s s1" by (rule readsD [OF probe_reads(2) o(1)])
    show ?case
      using Cons.IH [OF o(2)] Cons.prems(2) probe_partition_ok [OF o(1) assms(2) Cons.prems(2)] o(3)
        ticked_same(5) [OF t] checkpoints_ticked [OF t] by auto
  qed simp
  obtain ms where ms: "ReadPartitions br (tick s) (Topic l) = Inr ms"
    "ids = compact (sort (map snd (filter (\<lambda>(topic, n). topic = Topic l \<and> 0 \<le> n) ms)))"
    using i by (auto simp: partitions_def txs Let_def split: if_splits)
  have "set ids = {n. (Topic l, n) \<in> set ms \<and> 0 \<le> n}" unfolding ms(2) by (force simp: compact_props(1))
  then have "set ids = P" using assms(2) ms(1) unfolding truthful_def by blast
  moreover have "map ps_Partition parts = ids" "\<forall>p \<in> set parts. snapshot_ok A (clock s) (checkpoints (Topic l) s) p"
    using step [OF m] assms(3) ticked_same(5) [OF t] checkpoints_ticked [OF t] by simp_all
  ultimately show ?thesis by (metis list.set_map)
qed

section \<open>The published moment\<close>

definition published_ok :: "(int \<Rightarrow> nat \<Rightarrow> int) \<Rightarrow> int set \<Rightarrow> string \<Rightarrow> world \<Rightarrow> bool" where
  "published_ok A P topic s \<longleftrightarrow> (\<forall>h. map_of (kafka_lags s) topic = Some h \<longrightarrow>
     (\<forall>p \<in> P. covered_upto A (clock s) p (CoveredThrough h) (checkpoints topic s p)))"

definition monitor_ok :: "(int \<Rightarrow> nat \<Rightarrow> int) \<Rightarrow> int set \<Rightarrow> string \<Rightarrow> coverage \<Rightarrow> world \<Rightarrow> bool" where
  "monitor_ok A P topic c s \<longleftrightarrow> coverage_ok A (clock s) (checkpoints topic s) c \<and> published_ok A P topic s"

lemma covered_mono: "covered_upto A clk p m n \<Longrightarrow> m' \<le> m \<Longrightarrow> n \<le> n' \<Longrightarrow> covered_upto A clk p m' n'"
  using past_mono by (fastforce simp: covered_upto_def)

lemma monitor_ok_grows:
  assumes "monitor_ok A P topic c s" "clock s' = clock s" "map_of (kafka_lags s') topic = map_of (kafka_lags s) topic"
    and "\<forall>p. checkpoints topic s p \<le> checkpoints topic s' p"
  shows "monitor_ok A P topic c s'"
  using assms covered_mono unfolding monitor_ok_def coverage_ok_def published_ok_def by (metis order_refl)

lemma SetKafkaLag_ok:
  assumes "SetKafkaLag topic h s = (r, s')" "monitor_ok A P topic c s"
    and "\<forall>p \<in> P. covered_upto A (clock s) p (CoveredThrough h) (checkpoints topic s p)"
  shows "monitor_ok A P topic c s'"
proof -
  have "s' = s\<lparr>kafka_lags := AList.update topic h (kafka_lags s)\<rparr> \<or> ticked s s'"
    using assms(1) ticked_tick ticked.R_refl by (auto simp: SetKafkaLag_def Write_def sql_write_def rollback_def split: if_splits)
  then show ?thesis
  proof
    assume s': "s' = s\<lparr>kafka_lags := AList.update topic h (kafka_lags s)\<rparr>"
    have "checkpoints topic s' = checkpoints topic s" by (simp add: s' next_offset_def fun_eq_iff checkpoints_def)
    then show ?thesis using assms(2,3) by (simp add: monitor_ok_def published_ok_def s' update_conv')
  next
    assume t: "ticked s s'"
    show ?thesis
      by (rule monitor_ok_grows [OF assms(2)]) (simp_all add: ticked_same [OF t] checkpoints_ticked [OF t])
  qed
qed

lemma try_tx_Inr: "try_tx m s = (Inr r, s') \<longleftrightarrow> m s = (r, s')"
  by (simp add: try_tx_def split: prod.splits)

lemma poll_Inr:
  assumes "poll maxAge l br c s = (Inr (errs, c'), s')"
  obtains started s1 probed s2 now s3 h es w where
    "NowMs s = (Inr started, s1)" "probe l br s1 = (probed, s2)"
    "(case probed of Inl e \<Rightarrow> ret 0 | Inr parts \<Rightarrow> NowMs) s2 = (Inr now, s3)"
    "poll_health maxAge c started probed now = ((h, es), c')" "SetKafkaLag (Topic l) h s3 = (w, s')"
proof -
  from assms obtain started s1 probed s2 now s3 where st: "NowMs s = (Inr started, s1)" and pr: "probe l br s1 = (probed, s2)" and
    nw: "(case probed of Inl e \<Rightarrow> ret 0 | Inr parts \<Rightarrow> NowMs) s2 = (Inr now, s3)" and
    fin: "(case poll_health maxAge c started probed now of ((h, errs), c') \<Rightarrow>
       bindE (try_tx (SetKafkaLag (Topic l) h)) (\<lambda>w. ret (errs @ (case w of Inl e \<Rightarrow> [e] | Inr _ \<Rightarrow> []), c'))) s3 = (Inr (errs, c'), s')"
    by (auto simp: poll_def bindE_Inr try_tx_Inr)
  obtain h es c1 where "poll_health maxAge c started probed now = ((h, es), c1)" by (metis prod.exhaust)
  then show thesis using that [OF st pr nw] fin by (auto simp: bindE_Inr try_tx_Inr)
qed

lemma poll_ok:
  assumes "poll maxAge l br c s = (Inr (errs, c'), s')" "truthful A P (Topic l) br" "mono (clock s)" "monitor_ok A P (Topic l) c s"
  shows "monitor_ok A P (Topic l) c' s'"
proof -
  from assms(1) obtain started s1 probed s2 now s3 h es w where
    st: "NowMs s = (Inr started, s1)" and pr: "probe l br s1 = (probed, s2)" and
    nw: "(case probed of Inl e \<Rightarrow> ret 0 | Inr parts \<Rightarrow> NowMs) s2 = (Inr now, s3)" and
    he: "poll_health maxAge c started probed now = ((h, es), c')" and sl: "SetKafkaLag (Topic l) h s3 = (w, s')"
    by (rule poll_Inr)
  have t1: "ticked s s1" by (rule readsD [OF reads_basic(6) st])
  have t2: "ticked s s2" by (rule ticked.R_trans [OF t1 readsD [OF probe_reads(1) pr]])
  have "ticked s2 s3" using nw by (cases probed) (auto intro: ticked.R_refl readsD [OF reads_basic(6)])
  then have t3: "ticked s s3" by (rule ticked.R_trans [OF t2])
  note same = ticked_same(4,5) [OF t3] checkpoints_ticked [OF t3]
  have cov: "coverage_ok A (clock s) (checkpoints (Topic l) s) c" using assms(4) by (simp add: monitor_ok_def)
  have "coverage_ok A (clock s) (checkpoints (Topic l) s) c' \<and>
      (\<forall>p \<in> P. covered_upto A (clock s) p (CoveredThrough h) (checkpoints (Topic l) s p))"
  proof (cases probed)
    case (Inl e)
    then show ?thesis using he cov by (auto simp: poll_health_def no_lag_def covered_upto_def)
  next
    case (Inr parts)
    obtain h0 err c1 where u: "lag_update maxAge c parts now = ((h0, err), c1)" by (metis prod.exhaust)
    have pk: "ps_Partition ` set parts = P" "\<forall>p \<in> set parts. snapshot_ok A (clock s) (checkpoints (Topic l) s) p"
      using probe_ok [OF pr [unfolded Inr] assms(2)] assms(3) ticked_same(5) [OF t1] checkpoints_ticked [OF t1] by simp_all
    have h: "c1 = c'" "CoveredThrough h \<le> CoveredThrough h0" using he u Inr by (auto simp: poll_health_def)
    show ?thesis using lag_update_ok [OF u cov pk(2)] covered_mono [OF _ h(2) order_refl] pk(1) h(1) by auto
  qed
  moreover have "published_ok A P (Topic l) s" using assms(4) by (simp add: monitor_ok_def)
  ultimately show ?thesis
    using SetKafkaLag_ok [OF sl, of A P c'] by (simp add: monitor_ok_def published_ok_def same)
qed


section \<open>The monitored system\<close>

text \<open>
  The states of the database and of the monitor's memory that can be reached, with one rule per kind
  of step: a poll, a restart of the process (which forgets the coverage), the withdrawal of the
  proof at shutdown, the ingestion of a message, and any other work that leaves the row of the topic
  alone and does not move a checkpoint back.
\<close>

inductive monitored :: "int \<Rightarrow> KafkaListener \<Rightarrow> broker \<Rightarrow> coverage \<Rightarrow> world \<Rightarrow> bool" for maxAge l br where
  start: "accounts_ok s \<Longrightarrow> mono (clock s) \<Longrightarrow> map_of (kafka_lags s) (Topic l) = None \<Longrightarrow> monitored maxAge l br [] s"
| poll: "monitored maxAge l br c s \<Longrightarrow> poll maxAge l br c s = (Inr (errs, c'), s') \<Longrightarrow> monitored maxAge l br c' s'"
| restart: "monitored maxAge l br c s \<Longrightarrow> monitored maxAge l br [] s"
| withdraw: "monitored maxAge l br c s \<Longrightarrow> SetKafkaLag (Topic l) no_lag s = (r, s') \<Longrightarrow> monitored maxAge l br c s'"
| ingest: "monitored maxAge l br c s \<Longrightarrow> Ingest dec topic part offset raw s = (r, s') \<Longrightarrow> monitored maxAge l br c s'"
| other: "monitored maxAge l br c s \<Longrightarrow> accounts_ok s' \<Longrightarrow> clock s' = clock s \<Longrightarrow>
    map_of (kafka_lags s') (Topic l) = map_of (kafka_lags s) (Topic l) \<Longrightarrow>
    \<forall>p. checkpoints (Topic l) s p \<le> checkpoints (Topic l) s' p \<Longrightarrow> monitored maxAge l br c s'"

lemma ledger_fields_lag [simp]:
  "bal (s\<lparr>kafka_lags := k\<rparr>) = bal s" "ledger_ok (s\<lparr>kafka_lags := k\<rparr>) = ledger_ok s"
  "accounts_ok (s\<lparr>kafka_lags := k\<rparr>) = accounts_ok s"
  "bal (s\<lparr>clock := f\<rparr>) = bal s" "ledger_ok (s\<lparr>clock := f\<rparr>) = ledger_ok s" "accounts_ok (s\<lparr>clock := f\<rparr>) = accounts_ok s"
  by (simp_all add: bal_def [abs_def] ledger_ok_def net_def accounts_ok_def)

lemma SetKafkaLag_fields: "SetKafkaLag topic h s = (r, s') \<Longrightarrow> accounts_ok s' = accounts_ok s \<and> clock s' = clock s"
  by (auto simp: SetKafkaLag_def Write_def sql_write_def rollback_def split: if_splits)

lemma poll_fields:
  assumes "poll maxAge l br c s = (Inr (errs, c'), s')"
  shows "accounts_ok s' = accounts_ok s \<and> clock s' = clock s"
proof -
  from assms obtain started s1 probed s2 now s3 h es w where st: "NowMs s = (Inr started, s1)" and pr: "probe l br s1 = (probed, s2)" and
    nw: "(case probed of Inl e \<Rightarrow> ret 0 | Inr parts \<Rightarrow> NowMs) s2 = (Inr now, s3)" and sl: "SetKafkaLag (Topic l) h s3 = (w, s')"
    by (rule poll_Inr)
  have "ticked s s2" by (rule ticked.R_trans [OF readsD [OF reads_basic(6) st] readsD [OF probe_reads(1) pr]])
  moreover have "ticked s2 s3" using nw by (cases probed) (auto intro: ticked.R_refl readsD [OF reads_basic(6)])
  ultimately have "ticked s s3" by (rule ticked.R_trans)
  then show ?thesis using SetKafkaLag_fields [OF sl] ticked_same(1,5) by simp
qed

lemma monitored_invariant:
  assumes "monitored maxAge l br c s" "truthful A P (Topic l) br"
  shows "accounts_ok s \<and> mono (clock s) \<and> monitor_ok A P (Topic l) c s"
  using assms(1)
proof (induction rule: monitored.induct)
  case (start s)
  then show ?case by (simp add: monitor_ok_def coverage_ok_def published_ok_def)
next
  case (poll c s errs c' s')
  then show ?case using poll_ok [OF poll(2) assms(2)] poll_fields [OF poll(2)] by simp
next
  case (restart c s)
  then show ?case by (simp add: monitor_ok_def coverage_ok_def)
next
  case (withdraw c s r s')
  have "monitor_ok A P (Topic l) c s'"
    using withdraw.IH by (intro SetKafkaLag_ok [OF withdraw(2)]) (simp_all add: no_lag_def covered_upto_def)
  then show ?case using withdraw.IH SetKafkaLag_fields [OF withdraw(2)] by simp
next
  case (ingest c s dec topic part offset raw r s')
  note e = Ingest_effect [OF ingest(2)]
  have k: "kafka_lags s' = kafka_lags s" "clock s' = clock s"
    using e ingest.IH by (auto simp: lag_kept_def lag_view_def)
  have "monitor_ok A P (Topic l) c s'"
    by (rule monitor_ok_grows [of _ _ _ _ s]) (use ingest.IH e k in \<open>auto simp: checkpoints_def\<close>)
  then show ?case using ingest.IH e k by simp
next
  case (other c s s')
  then show ?case using monitor_ok_grows [of A P "Topic l" c s s'] by simp
qed

text \<open>A granted request found the lag fresh at the first clock reading of its decision.\<close>

lemma Authorize_fresh:
  assumes "Authorize topic m req s = (Inr d, s')" "Status d = 200"
    and "\<And>token. bearer_token (Headers req) = Some token \<Longrightarrow> sha256 s token \<noteq> []" "is_i64 m"
  shows "\<exists>h. map_of (kafka_lags s) topic = Some h \<and> lag_fresh h (clock s (tick s)) m"
proof -
  from assms(1,2) obtain st token key where t: "bearer_token (Headers req) = Some token"
    and r: "authorize_key st key (sha256 s token) topic m s = (Inr d, s')"
    by (auto simp: Authorize_def split: option.splits if_splits)
  let ?a = "readAuthorization key (StateID st) topic s" and ?now = "clock s (tick s)" and ?s1 = "s\<lparr>tick := Suc (tick s)\<rparr>"
  from r obtain d0 where d0: "decide ?a st key (sha256 s token) ?now m = Inr d0"
    and r1: "(if Status d0 \<noteq> 200 then ret d0
       else if d_AuthID d0 = [] then
         bindE (Write (authorize_locked st key (sha256 s token) topic m)) (\<lambda>(d, a, now).
           if Status d \<noteq> 200 then ret d else touch_if_stale key d a now)
       else touch_if_stale key d0 ?a ?now) ?s1 = (Inr d, s')"
    by (auto simp: authorize_key_def bindE_Inr NowMs_Inr liftE_Inr)
  have "Status d0 = 200" using r1 assms(2) by (cases "Status d0 = 200") auto
  from decided_authorized [OF d0 this assms(3) [OF t] assms(4)] show ?thesis by (auto simp: authorized_def)
qed

text \<open>
  C28: the lag gate is sound: in every reachable state of the monitored system, when the webhook grants
  a request with a maximum age, every record that the topic held at a moment at least that much
  before the request has been ingested, for every partition, provided the broker reports its end
  offsets truthfully and the wall clock does not go backwards.
\<close>

theorem lag_gate_sound:
  assumes "monitored maxAge l br c s" "truthful A P (Topic l) br"
    and "Authorize (Topic l) m req s = (Inr d, s')" "Status d = 200"
    and "\<And>token. bearer_token (Headers req) = Some token \<Longrightarrow> sha256 s token \<noteq> []" "is_i64 m"
    and "p \<in> P" "m \<le> (clock s (tick s) - clock s t) * 1000000"
  shows "A p t \<le> next_offset (KafkaStream (Topic l) p) s"
proof -
  from Authorize_fresh [OF assms(3-6)] obtain h where h: "map_of (kafka_lags s) (Topic l) = Some h"
    "lag_fresh h (clock s (tick s)) m" by blast
  have "covered_upto A (clock s) p (CoveredThrough h) (checkpoints (Topic l) s p)"
    using monitored_invariant [OF assms(1,2)] h(1) assms(7) unfolding monitor_ok_def published_ok_def by blast
  moreover have "0 < CoveredThrough h" "clock s t < CoveredThrough h" using h(2) assms(8) by (auto simp: lag_fresh_def)
  ultimately show ?thesis by (simp add: covered_upto_def past_def checkpoints_def)
qed

text \<open>One message is ingested, one poll proves it, and the next request is granted.\<close>

definition lag_broker :: broker where
  "lag_broker = \<lparr>ReadPartitions = (\<lambda>t topic. Inr [(topic, 0)]),
     ReadOffsets = (\<lambda>t topic p. Inr (0, 1)), SetOffset = (\<lambda>t topic p n. Inr ())\<rparr>"

definition lag_start :: world where
  "lag_start = sample_ready\<lparr>kafka_lags := [], clock := (\<lambda>n. 1700000000000 + 200 * int n)\<rparr>"

lemma lag_start_accounts: "accounts_ok lag_start"
  using sample_ready_accounts by (simp add: lag_start_def)

definition lag_ingested :: world where
  "lag_ingested = snd (Ingest sample_decoder ''t'' 0 0 ''noise'' lag_start)"

definition lag_proved :: world where
  "lag_proved = snd (poll 60000000000 sample_listener lag_broker [] lag_ingested)"

lemma lag_gate_sound_witness:
  "next_offset (KafkaStream ''t'' 0) lag_start = 0 \<and>
   (case fst (Authorize ''t'' 2000000000 sample_auth lag_proved) of Inl e \<Rightarrow> False | Inr d \<Rightarrow> Status d = 200) \<and>
   1 \<le> next_offset (KafkaStream ''t'' 0) lag_proved"
proof (intro conjI)
  let ?s = lag_start
  show "next_offset (KafkaStream ''t'' 0) ?s = 0" by code_simp
  obtain r where i: "Ingest sample_decoder ''t'' 0 0 ''noise'' ?s = (r, lag_ingested)"
    by (metis lag_ingested_def prod.collapse)
  have "\<not> isl (fst (poll 60000000000 sample_listener lag_broker [] lag_ingested))" by code_simp
  then obtain errs c where "fst (poll 60000000000 sample_listener lag_broker [] lag_ingested) = Inr (errs, c)"
    by (cases "fst (poll 60000000000 sample_listener lag_broker [] lag_ingested)") auto
  then have p: "poll 60000000000 sample_listener lag_broker [] lag_ingested = (Inr (errs, c), lag_proved)"
    by (simp add: lag_proved_def prod_eq_iff)
  have "mono (clock ?s)" by (simp add: lag_start_def mono_def)
  then have start: "monitored 60000000000 sample_listener lag_broker [] ?s"
    using lag_start_accounts by (intro monitored.start) (simp_all add: lag_start_def)
  note m = monitored.poll [OF monitored.ingest [OF start i] p]
  have t: "truthful (\<lambda>p t. 1) {0} (Topic sample_listener) lag_broker"
    by (auto simp: truthful_def lag_broker_def sample_listener_def mono_def)
  show ok: "case fst (Authorize ''t'' 2000000000 sample_auth lag_proved) of Inl e \<Rightarrow> False | Inr d \<Rightarrow> Status d = 200" by code_simp
  obtain d s' where run: "Authorize (Topic sample_listener) 2000000000 sample_auth lag_proved = (Inr d, s')" and d: "Status d = 200"
    using ok by (cases "Authorize ''t'' 2000000000 sample_auth lag_proved") (auto simp: sample_listener_def split: sum.splits)
  have "bearer_token (Headers sample_auth) = Some sample_key" by code_simp
  moreover have "sha256 lag_proved sample_key \<noteq> []" by code_simp
  ultimately have sha: "\<And>token. bearer_token (Headers sample_auth) = Some token \<Longrightarrow> sha256 lag_proved token \<noteq> []" by simp
  have now: "2000000000 \<le> (clock lag_proved (tick lag_proved) - clock lag_proved 0) * 1000000" by code_simp
  have "1 \<le> next_offset (KafkaStream (Topic sample_listener) 0) lag_proved"
    by (rule lag_gate_sound [OF m t run d sha _ _ now]) (simp_all add: is_i64_def)
  then show "1 \<le> next_offset (KafkaStream ''t'' 0) lag_proved" by (simp add: sample_listener_def)
qed

end
