(* ===== verification/Server.thy ===== *)
theory Server
  imports NetText Webhook Lag
begin

text \<open>
  \<open>internal/app/server.go\<close>: the checks of the serve command, the start-up sequence with its file
  locks up to the launch of the components, how the process ends, and the webhook's routes.  The
  listeners, the broker and the file system are the record \<open>surroundings\<close>, which may refuse any step;
  the databases of the machine and its advisory locks are explicit.
\<close>

section \<open>Parameters and their checks\<close>

text \<open>A valid \<open>boa.HTTPBind\<close>; one that is not set is \<open>None\<close>.\<close>

record http_bind =
  Port :: nat
  bind_String :: string

record ServeParams =
  DBPath :: string
  EnableMetrics :: "http_bind option"
  EnableAuthWebhook :: "http_bind option"
  EnableManagementAPI :: "http_bind option"
  EnableKafka :: bool
  EnableAccounting :: bool
  KafkaBroker :: string
  EnableOnchainListener :: bool
  CredsFile :: string
  KafkaBind :: string
  KafkaAdvertisedAddr :: string
  KafkaTopic :: string
  MaxKafkaLag :: int
  RPCURL :: string
  p_ChainID :: string
  TicketBroker :: string
  SignerAddresses :: "string list"
  StartBlock :: "int option"
  p_Confirmations :: int
  PollInterval :: int
  BlockBatchSize :: int
  ReorgLookback :: int

definition chainConfig :: "ServeParams \<Rightarrow> Config" where
  "chainConfig p = \<lparr>URL = RPCURL p, cfg_ChainID = p_ChainID p, cfg_Contract = TicketBroker p, Senders = SignerAddresses p,
     Start = StartBlock p, Confirmations = p_Confirmations p, BatchSize = BlockBatchSize p, Lookback = ReorgLookback p,
     Poll = PollInterval p\<rparr>"

definition check_that :: "bool \<Rightarrow> error \<Rightarrow> unit result" where
  "check_that ok e = (if ok then Inr () else Inl e)"

fun all_checks :: "unit result list \<Rightarrow> unit result" where
  "all_checks [] = Inr ()"
| "all_checks (r # rs) = (case r of Inl e \<Rightarrow> Inl e | Inr _ \<Rightarrow> all_checks rs)"

definition own_port :: "http_bind option \<Rightarrow> http_bind option \<Rightarrow> bool" where
  "own_port a b = (case (a, b) of (Some x, Some y) \<Rightarrow> Port x \<noteq> Port y | _ \<Rightarrow> True)"

text \<open>A client may be told any host with a port; the broker's own address is read with \<open>Atoi\<close>.\<close>

definition advertised_ok :: "string \<Rightarrow> bool" where
  "advertised_ok a = (case SplitHostPort a of Inl e \<Rightarrow> False
     | Inr (host, port) \<Rightarrow> host \<noteq> [] \<and> (case ParseUint16 port of None \<Rightarrow> False | Some n \<Rightarrow> n \<noteq> 0))"

definition fixed_port :: "string \<Rightarrow> bool" where
  "fixed_port port = (case Atoi port of None \<Rightarrow> False | Some n \<Rightarrow> 1 \<le> n \<and> n \<le> 65535)"

definition broker_ok :: "string \<Rightarrow> bool" where
  "broker_ok a = (case SplitHostPort a of Inl e \<Rightarrow> False | Inr (host, port) \<Rightarrow> host \<noteq> [] \<and> fixed_port port)"

text \<open>\<open>^[A-Za-z0-9][A-Za-z0-9_.-]{0,199}$\<close>\<close>

definition alphanumeric :: "char \<Rightarrow> bool" where
  "alphanumeric c \<longleftrightarrow> is_digit c \<or> 65 \<le> code c \<and> code c \<le> 90 \<or> 97 \<le> code c \<and> code c \<le> 122"

definition topic_ok :: "string \<Rightarrow> bool" where
  "topic_ok t \<longleftrightarrow> t \<noteq> [] \<and> alphanumeric (hd t) \<and> length t \<le> 200 \<and>
     list_all (\<lambda>c. alphanumeric c \<or> c = CHR ''_'' \<or> c = CHR ''.'' \<or> c = CHR ''-'') (tl t)"

definition check_bind :: "string \<Rightarrow> unit result" where
  "check_bind a = (case SplitHostPort a of
     Inl e \<Rightarrow> Inl e
   | Inr (host, port) \<Rightarrow>
       if \<not> fixed_port port then Inl (PlainError ''kafka requires a fixed TCP port between 1 and 65535'')
       else check_that (case ParseIP host of None \<Rightarrow> False | Some ip \<Rightarrow> IsLoopback ip \<or> IsPrivate ip)
         (PlainError ''kafka bind must be a concrete loopback or private IP (no public or wildcard bind)''))"

text \<open>\<open>quote\<close> is the \<open>%q\<close> of an address.\<close>

definition Validate_serve :: "(string \<Rightarrow> string) \<Rightarrow> ServeParams \<Rightarrow> unit result" where
  "Validate_serve quote p =
     (let webhook = EnableAuthWebhook p \<noteq> None; management = EnableManagementAPI p \<noteq> None in
      all_checks
       [check_that (own_port (EnableMetrics p) (EnableAuthWebhook p) \<and> own_port (EnableMetrics p) (EnableManagementAPI p))
          (PlainError ''metrics requires a separate TCP port''),
        check_that (webhook \<or> management \<or> EnableKafka p \<or> EnableAccounting p \<or> EnableOnchainListener p)
          (PlainError ''enable at least one of --enable-auth-webhook, --enable-management-api, --enable-kafka, --enable-accounting, --enable-onchain-listener''),
        check_that (own_port (EnableManagementAPI p) (EnableAuthWebhook p))
          (PlainError ''management and auth webhook must use separate TCP ports''),
        check_that (\<not> (EnableKafka p \<and> KafkaBroker p \<noteq> [])) (PlainError ''--kafka-broker cannot be used with --enable-kafka''),
        check_that (KafkaAdvertisedAddr p \<noteq> [] \<longrightarrow> EnableKafka p) (PlainError ''--kafka-advertised-addr requires --enable-kafka''),
        check_that (KafkaAdvertisedAddr p \<noteq> [] \<longrightarrow> advertised_ok (KafkaAdvertisedAddr p))
          (PlainError (''invalid Kafka advertised address '' @ quote (KafkaAdvertisedAddr p) @
            '': expected host:port with a port between 1 and 65535'')),
        check_that (\<not> (EnableAccounting p \<and> \<not> EnableKafka p \<and> KafkaBroker p = []))
          (PlainError ''--kafka-broker required for accounting without embedded Kafka''),
        check_that (KafkaBroker p \<noteq> [] \<longrightarrow> broker_ok (KafkaBroker p))
          (PlainError (''invalid Kafka broker address '' @ quote (KafkaBroker p) @ '': expected host:port'')),
        check_that (\<not> ((webhook \<or> management \<or> EnableKafka p) \<and> CredsFile p = []))
          (PlainError ''--creds-file is required for management, webhook, or embedded Kafka''),
        check_that (EnableKafka p \<or> EnableAccounting p \<or> webhook \<longrightarrow> topic_ok (KafkaTopic p)) (PlainError ''invalid Kafka topic''),
        if EnableKafka p then check_bind (KafkaBind p) else Inr (),
        check_that (MinKafkaLag \<le> MaxKafkaLag p) (PlainError ''--max-kafka-lag must be at least 1s''),
        check_that (EnableOnchainListener p \<longrightarrow> RPCURL p \<noteq> []) (PlainError ''RPC URL required: set CLEARINGHOUSE_RPC_URL or --rpc-url-file''),
        if EnableOnchainListener p then Validate (chainConfig p) else Inr ()])"

section \<open>The machine\<close>

datatype component = MetricsServer | WebhookServer | ManagementServer | BrokerServer | KafkaConsumer | LagMonitor | OnchainListener

text \<open>What the start-up asks of its surroundings, in the order it does.\<close>

datatype happening =
    StoreOpened string
  | DirectoryMade string
  | FileOpened string
  | Flocked string
  | LagWithdrawn string
  | BrokerOpened string
  | ListenerBound string
  | Launched component

text \<open>\<open>refuse\<close> is the error, if any, of a step after what has happened before.\<close>

record surroundings =
  refuse :: "happening list \<Rightarrow> happening \<Rightarrow> error option"
  broker_Addr :: string
  quote :: "string \<Rightarrow> string"

text \<open>The databases by path, the advisory lock of each file with its process, and the log of one start-up.\<close>

record machine =
  databases :: "string \<Rightarrow> world"
  flocks :: "string \<Rightarrow> nat option"
  happened :: "happening list"

definition attempt :: "surroundings \<Rightarrow> happening \<Rightarrow> (machine, unit) tx" where
  "attempt env h m = (case refuse env (happened m) h of
     Some e \<Rightarrow> (Inl e, m) | None \<Rightarrow> (Inr (), m\<lparr>happened := happened m @ [h]\<rparr>))"

definition if_on :: "bool \<Rightarrow> (machine, unit) tx \<Rightarrow> (machine, unit) tx" where
  "if_on c f = (if c then f else ret ())"

text \<open>\<open>syscall.Flock\<close> without blocking: the lock of a file has one holder.\<close>

definition Flock :: "surroundings \<Rightarrow> nat \<Rightarrow> string \<Rightarrow> (machine, unit) tx" where
  "Flock env pid path m =
     (if flocks m path \<noteq> None then (Inl (PlainError ''resource temporarily unavailable''), m)
      else thenE (attempt env (Flocked path)) (modify (\<lambda>m. m\<lparr>flocks := (flocks m)(path := Some pid)\<rparr>)) m)"

definition lock :: "surroundings \<Rightarrow> nat \<Rightarrow> string \<Rightarrow> (machine, unit) tx" where
  "lock env pid path =
     thenE (attempt env (DirectoryMade (Dir path)))
       (thenE (attempt env (FileOpened path))
         (wrapE (''component already running ('' @ TrimSpace path @ '')'') (Flock env pid path)))"

definition lock_paths :: "ServeParams \<Rightarrow> string list" where
  "lock_paths p = (if EnableAccounting p then [DBPath p @ ''.accounting.lock''] else []) @
     (if EnableOnchainListener p then [DBPath p @ ''.chain.lock''] else []) @
     (if EnableKafka p then [Join (Dir (DBPath p)) ''minikafka_broker.lock''] else [])"

text \<open>The deferred unlocking; a process holds no locks but the ones of its start-up.\<close>

definition release :: "nat \<Rightarrow> machine \<Rightarrow> machine" where
  "release pid m = m\<lparr>flocks := (\<lambda>path. if flocks m path = Some pid then None else flocks m path)\<rparr>"

section \<open>Starting\<close>

definition load_registry :: "'m library \<Rightarrow> ServeParams \<Rightarrow> Registry option result" where
  "load_registry lib p = (if CredsFile p = [] then Inr None else map_sum id Some (Load lib (CredsFile p)))"

definition check_credentials :: "ServeParams \<Rightarrow> Registry option \<Rightarrow> unit result" where
  "check_credentials p r = all_checks
     [check_that (EnableManagementAPI p \<noteq> None \<longrightarrow> Count r ''management'' \<noteq> 0) (PlainError ''management API requires a management credential''),
      check_that (EnableAuthWebhook p \<noteq> None \<longrightarrow> Count r ''webhook'' \<noteq> 0) (PlainError ''auth webhook requires a webhook credential'')]"

definition needs_store :: "ServeParams \<Rightarrow> bool" where
  "needs_store p \<longleftrightarrow> EnableAuthWebhook p \<noteq> None \<or> EnableManagementAPI p \<noteq> None \<or> EnableAccounting p \<or> EnableOnchainListener p"

text \<open>The proofs of earlier runs are withdrawn before any component starts.\<close>

definition withdraw_lag :: "ServeParams \<Rightarrow> (machine, unit) tx" where
  "withdraw_lag p m = (case SetKafkaLag (KafkaTopic p) no_lag (databases m (DBPath p)) of
     (Inl e, s) \<Rightarrow> (Inl e, m\<lparr>databases := (databases m)(DBPath p := s)\<rparr>)
   | (Inr _, s) \<Rightarrow> (Inr (), m\<lparr>databases := (databases m)(DBPath p := s), happened := happened m @ [LagWithdrawn (KafkaTopic p)]\<rparr>))"

text \<open>The dialer is dereferenced when the embedded broker is advertised under another address.\<close>

definition nil_dereference :: error where
  "nil_dereference = PlainError ''runtime error: invalid memory address or nil pointer dereference''"

definition open_broker :: "surroundings \<Rightarrow> ServeParams \<Rightarrow> 'm option \<Rightarrow> (machine, unit) tx" where
  "open_broker env p dialer =
     thenE (attempt env (BrokerOpened (KafkaBind p)))
       (if EnableAccounting p \<and> KafkaAdvertisedAddr p \<noteq> [] \<and> dialer = None then fail nil_dereference else ret ())"

text \<open>Where the consumer's client connects when the broker's metadata names \<open>address\<close>.\<close>

definition dial_address :: "surroundings \<Rightarrow> ServeParams \<Rightarrow> string \<Rightarrow> string" where
  "dial_address env p address =
     (if EnableKafka p \<and> EnableAccounting p \<and> KafkaAdvertisedAddr p \<noteq> [] then broker_Addr env else address)"

definition broker_address :: "surroundings \<Rightarrow> ServeParams \<Rightarrow> string" where
  "broker_address env p = (if EnableKafka p then broker_Addr env else KafkaBroker p)"

definition launch :: "component \<Rightarrow> (machine, unit) tx" where
  "launch c = modify (\<lambda>m. m\<lparr>happened := happened m @ [Launched c]\<rparr>)"

definition bind_to :: "surroundings \<Rightarrow> http_bind option \<Rightarrow> (machine, unit) tx" where
  "bind_to env b = (case b of None \<Rightarrow> ret () | Some x \<Rightarrow> attempt env (ListenerBound (bind_String x)))"

text \<open>The components after the metrics server, in the order they are started.\<close>

definition services :: "ServeParams \<Rightarrow> component list" where
  "services p = (if EnableAuthWebhook p = None then [] else [WebhookServer]) @
     (if EnableManagementAPI p = None then [] else [ManagementServer]) @
     (if EnableKafka p then [BrokerServer] else []) @
     (if EnableAccounting p then [KafkaConsumer, LagMonitor] else []) @
     (if EnableOnchainListener p then [OnchainListener] else [])"

text \<open>From the broker on: every listener is bound before the first service but the metrics starts.\<close>

definition start_services :: "surroundings \<Rightarrow> ServeParams \<Rightarrow> 'm option \<Rightarrow> (machine, unit) tx" where
  "start_services env p dialer =
     thenE (if_on (EnableKafka p) (open_broker env p dialer)) (
     thenE (bind_to env (EnableMetrics p)) (
     thenE (if_on (EnableMetrics p \<noteq> None) (launch MetricsServer)) (
     thenE (bind_to env (EnableAuthWebhook p)) (
     thenE (bind_to env (EnableManagementAPI p)) (
     forE (services p) launch)))))"

definition startup :: "surroundings \<Rightarrow> 'm library \<Rightarrow> nat \<Rightarrow> ServeParams \<Rightarrow> (machine, unit) tx" where
  "startup env lib pid p =
     thenE (liftE (Validate_serve (quote env) p)) (
     bindE (liftE (load_registry lib p)) (\<lambda>registry.
     thenE (liftE (check_credentials p registry)) (
     bindE (liftE (kafkaSecurity lib (EnableKafka p) (EnableAccounting p) registry)) (\<lambda>(access, dialer).
     thenE (if_on (needs_store p) (attempt env (StoreOpened (DBPath p)))) (
     thenE (forE (lock_paths p) (lock env pid)) (
     thenE (if_on (EnableAccounting p) (withdraw_lag p)) (
     start_services env p dialer)))))))"

text \<open>\<open>Serve\<close> up to its \<open>select\<close>: a failed start releases the locks it has taken.\<close>

definition Serve :: "surroundings \<Rightarrow> 'm library \<Rightarrow> nat \<Rightarrow> ServeParams \<Rightarrow> (machine, unit) tx" where
  "Serve env lib pid p m = (case startup env lib pid p (m\<lparr>happened := []\<rparr>) of
     (Inl e, m') \<Rightarrow> (Inl e, release pid m') | (Inr _, m') \<Rightarrow> (Inr (), m'))"

section \<open>Ending\<close>

text \<open>
  \<open>canceled\<close> is \<open>errors.Is(_, context.Canceled)\<close>.  \<open>first\<close> is what the first component returned, or
  \<open>None\<close> when the context ended first; \<open>others\<close> are the results of the rest, as they come in.
\<close>

fun drain :: "(error \<Rightarrow> bool) \<Rightarrow> error option \<Rightarrow> error option list \<Rightarrow> error option" where
  "drain canceled result [] = result"
| "drain canceled result (r # rs) = drain canceled
     (case (result, r) of (None, Some e) \<Rightarrow> if canceled e then None else Some e | _ \<Rightarrow> result) rs"

definition serve_result :: "(error \<Rightarrow> bool) \<Rightarrow> error option option \<Rightarrow> error option list \<Rightarrow> error option" where
  "serve_result canceled first others =
     (case drain canceled (case first of None \<Rightarrow> None | Some r \<Rightarrow> r) others of
        None \<Rightarrow> None | Some e \<Rightarrow> if canceled e then None else Some e)"

section \<open>The webhook's routes\<close>

definition empty_ok :: reply where
  "empty_ok = \<lparr>Code = 200, ContentType = [], Content = Bytes []\<rparr>"

definition authWebhookHandler ::
  "'m library \<Rightarrow> Registry option \<Rightarrow> (string \<Rightarrow> AuthRequest option) \<Rightarrow> string \<Rightarrow> int \<Rightarrow> bool \<Rightarrow> http_request \<Rightarrow> world \<Rightarrow>
     (reply \<times> string option) \<times> world" where
  "authWebhookHandler lib r unmarshal topic maxAge ready req s =
     (if Route req = ''POST /v1/signer/authorize'' then Handler lib r unmarshal topic maxAge req s
      else if Route req = ''GET /livez'' then ((empty_ok, None), s)
      else if Route req = ''GET /readyz'' then ((if ready then empty_ok else http_error ''not ready'' 503, None), s)
      else ((http_error ''404 page not found'' 404, None), s))"

section \<open>What a start-up does\<close>

definition logged :: "happening list \<Rightarrow> machine \<Rightarrow> machine" where
  "logged hs m = m\<lparr>happened := happened m @ hs\<rparr>"

text \<open>A step that, when it succeeds, does nothing but its part of the log.\<close>

definition adds :: "happening list \<Rightarrow> (machine, 'a) tx \<Rightarrow> bool" where
  "adds hs f \<longleftrightarrow> (\<forall>m x m'. f m = (Inr x, m') \<longrightarrow> m' = logged hs m)"

lemma adds_thenE: "adds hs f \<Longrightarrow> adds hs' g \<Longrightarrow> adds (hs @ hs') (thenE f g)"
  by (fastforce simp: adds_def txs logged_def)

lemma adds_step: "adds [] (ret x)" "adds [] (fail e)" "adds [h] (attempt env h)" "adds [Launched c] (launch c)"
  by (auto simp: adds_def logged_def attempt_def launch_def split: option.splits)

lemma adds_if: "adds hs f \<Longrightarrow> adds hs' g \<Longrightarrow> adds (if c then hs else hs') (if c then f else g)"
  by simp

lemma adds_if_on: "adds hs f \<Longrightarrow> adds (if c then hs else []) (if_on c f)"
  by (simp add: if_on_def adds_step)

lemma adds_launches: "adds (map Launched cs) (forE cs launch)"
proof (induction cs)
  case (Cons c cs)
  then show ?case using adds_thenE [OF adds_step(4) Cons.IH] by simp
qed (simp add: adds_def logged_def)

definition listens :: "http_bind option \<Rightarrow> happening list" where
  "listens b = (case b of None \<Rightarrow> [] | Some x \<Rightarrow> [ListenerBound (bind_String x)])"

lemma adds_bind: "adds (listens b) (bind_to env b)"
  by (simp add: bind_to_def listens_def adds_step split: option.splits)

lemma adds_broker: "adds [BrokerOpened (KafkaBind p)] (open_broker env p dialer)"
proof -
  have "adds [] (if EnableAccounting p \<and> KafkaAdvertisedAddr p \<noteq> [] \<and> dialer = None then fail nil_dereference else ret ())"
    by (simp add: adds_def logged_def)
  from adds_thenE [OF adds_step(3) this] show ?thesis by (simp add: open_broker_def)
qed

lemma addsD: "adds hs f \<Longrightarrow> f m = (Inr x, m') \<Longrightarrow> m' = logged hs m"
  by (simp add: adds_def)

lemma withdraw_lag_Inr: "withdraw_lag p m = (Inr x, m') \<Longrightarrow>
    m' = logged [LagWithdrawn (KafkaTopic p)] (m\<lparr>databases := (databases m)(DBPath p := (databases m (DBPath p))\<lparr>kafka_lags :=
        AList.update (KafkaTopic p) no_lag (kafka_lags (databases m (DBPath p)))\<rparr>)\<rparr>)"
  by (auto simp: withdraw_lag_def SetKafkaLag_def Write_def sql_write_def no_lag_def logged_def)

text \<open>What one lock adds to the log.\<close>

definition lock_steps :: "string \<Rightarrow> happening list" where
  "lock_steps path = [DirectoryMade (Dir path), FileOpened path, Flocked path]"

lemma lock_Inr: "lock env pid path m = (Inr x, m') \<Longrightarrow> flocks m path = None \<and>
    m' = m\<lparr>flocks := (flocks m)(path := Some pid), happened := happened m @ lock_steps path\<rparr>"
  by (auto simp: lock_def Flock_def lock_steps_def attempt_def txs split: if_splits option.splits)

lemma locks_Inr: "forE paths (lock env pid) m = (Inr x, m') \<Longrightarrow>
    (\<forall>path \<in> set paths. flocks m path = None) \<and> distinct paths \<and>
    m' = m\<lparr>flocks := (\<lambda>path. if path \<in> set paths then Some pid else flocks m path),
      happened := happened m @ concat (map lock_steps paths)\<rparr>"
proof (induction paths arbitrary: m)
  case (Cons path paths)
  then obtain u where l: "lock env pid path m = (Inr (), u)" and r: "forE paths (lock env pid) u = (Inr x, m')"
    by (auto simp: txs)
  from Cons.IH [OF r] lock_Inr [OF l] show ?case by (auto simp: fun_eq_iff split: if_splits)
qed simp

text \<open>The log of a start-up that succeeds: the steps in the only possible order.\<close>

definition startup_log :: "ServeParams \<Rightarrow> happening list" where
  "startup_log p = (if needs_store p then [StoreOpened (DBPath p)] else []) @
     concat (map lock_steps (lock_paths p)) @
     (if EnableAccounting p then [LagWithdrawn (KafkaTopic p)] else []) @
     (if EnableKafka p then [BrokerOpened (KafkaBind p)] else []) @
     listens (EnableMetrics p) @ (if EnableMetrics p = None then [] else [Launched MetricsServer]) @
     listens (EnableAuthWebhook p) @ listens (EnableManagementAPI p) @ map Launched (services p)"

lemma startup_Inr:
  assumes "startup env lib pid p m = (Inr x, m')"
  shows "\<exists>registry access dialer. Validate_serve (quote env) p = Inr () \<and> load_registry lib p = Inr registry \<and>
    check_credentials p registry = Inr () \<and>
    kafkaSecurity lib (EnableKafka p) (EnableAccounting p) registry = Inr (access, dialer)"
    and "happened m' = happened m @ startup_log p"
    and "databases m' = (if EnableAccounting p then (databases m)(DBPath p := (databases m (DBPath p))\<lparr>kafka_lags :=
        AList.update (KafkaTopic p) no_lag (kafka_lags (databases m (DBPath p)))\<rparr>) else databases m)"
    and "\<forall>path \<in> set (lock_paths p). flocks m path = None"
    and "flocks m' = (\<lambda>path. if path \<in> set (lock_paths p) then Some pid else flocks m path)"
proof -
  from assms obtain registry access dialer m1 m2 m3 where pre: "Validate_serve (quote env) p = Inr ()" "load_registry lib p = Inr registry"
      "check_credentials p registry = Inr ()"
      "kafkaSecurity lib (EnableKafka p) (EnableAccounting p) registry = Inr (access, dialer)"
    and m1: "if_on (needs_store p) (attempt env (StoreOpened (DBPath p))) m = (Inr (), m1)"
    and m2: "forE (lock_paths p) (lock env pid) m1 = (Inr (), m2)"
    and m3: "if_on (EnableAccounting p) (withdraw_lag p) m2 = (Inr (), m3)" and m': "start_services env p dialer m3 = (Inr x, m')"
    unfolding startup_def by (auto simp: bindE_Inr thenE_Inr liftE_simp)
  have "adds ((if EnableKafka p then [BrokerOpened (KafkaBind p)] else []) @
      listens (EnableMetrics p) @ (if EnableMetrics p \<noteq> None then [Launched MetricsServer] else []) @
      listens (EnableAuthWebhook p) @ listens (EnableManagementAPI p) @ map Launched (services p)) (start_services env p dialer)"
    unfolding start_services_def by (intro adds_thenE adds_if_on adds_broker adds_bind adds_step adds_launches)
  note tail = addsD [OF this, where m = m3, OF m']
  have m1': "m1 = logged (if needs_store p then [StoreOpened (DBPath p)] else []) m"
    using addsD [OF adds_if_on [OF adds_step(3)], where m = m, OF m1] .
  note l = locks_Inr [OF m2]
  have m3': "m3 = (if EnableAccounting p then logged [LagWithdrawn (KafkaTopic p)] (m2\<lparr>databases :=
      (databases m2)(DBPath p := (databases m2 (DBPath p))\<lparr>kafka_lags :=
        AList.update (KafkaTopic p) no_lag (kafka_lags (databases m2 (DBPath p)))\<rparr>)\<rparr>) else m2)"
    using m3 withdraw_lag_Inr by (auto simp: if_on_def)
  show "\<exists>registry access dialer. Validate_serve (quote env) p = Inr () \<and> load_registry lib p = Inr registry \<and>
    check_credentials p registry = Inr () \<and>
    kafkaSecurity lib (EnableKafka p) (EnableAccounting p) registry = Inr (access, dialer)" using pre by blast
  show "happened m' = happened m @ startup_log p" using l by (simp add: tail m1' m3' startup_log_def logged_def)
  show "databases m' = (if EnableAccounting p then (databases m)(DBPath p := (databases m (DBPath p))\<lparr>kafka_lags :=
        AList.update (KafkaTopic p) no_lag (kafka_lags (databases m (DBPath p)))\<rparr>) else databases m)"
    using l by (simp add: tail m1' m3' logged_def)
  show "\<forall>path \<in> set (lock_paths p). flocks m path = None" using l by (simp add: m1' logged_def)
  have "flocks m1 = flocks m" by (simp add: m1' logged_def)
  then show "flocks m' = (\<lambda>path. if path \<in> set (lock_paths p) then Some pid else flocks m path)"
    using l by (simp add: tail m3' logged_def fun_eq_iff)
qed

text \<open>What the process reports in the end has been reported by a component, and is not a cancellation.\<close>

lemma drain_Some: "drain canceled result rs = Some e \<Longrightarrow> result = Some e \<or> Some e \<in> set rs \<and> \<not> canceled e"
proof (induction rs arbitrary: result)
  case (Cons r rs)
  from Cons.IH [OF Cons.prems [unfolded drain.simps]] show ?case
    by (cases result; cases r) (auto split: if_splits)
qed simp

lemma serve_result_Some: "serve_result canceled first others = Some e \<Longrightarrow>
    \<not> canceled e \<and> (first = Some (Some e) \<or> Some e \<in> set others)"
  by (auto simp: serve_result_def split: option.splits if_splits dest: drain_Some)

section \<open>One process per role and database\<close>

text \<open>
  The processes of a machine: which of them serves with what parameters.  Each start sees
  its own files, through a library of \<open>libs\<close>; the work of the running components may change the
  databases in any way.
\<close>

inductive hosted :: "'m library set \<Rightarrow> (nat \<Rightarrow> ServeParams option) \<Rightarrow> machine \<Rightarrow> bool" for libs where
  boot: "flocks m = (\<lambda>_. None) \<Longrightarrow> hosted libs (\<lambda>_. None) m"
| serving: "hosted libs run m \<Longrightarrow> run pid = None \<Longrightarrow> lib \<in> libs \<Longrightarrow> Serve env lib pid p m = (Inr (), m') \<Longrightarrow> hosted libs (run(pid := Some p)) m'"
| refused: "hosted libs run m \<Longrightarrow> run pid = None \<Longrightarrow> lib \<in> libs \<Longrightarrow> Serve env lib pid p m = (Inl e, m') \<Longrightarrow> hosted libs run m'"
| ended: "hosted libs run m \<Longrightarrow> hosted libs (run(pid := None)) (release pid m)"
| work: "hosted libs run m \<Longrightarrow> hosted libs run (m\<lparr>databases := d\<rparr>)"

text \<open>A step that takes free locks for one process, and changes no database but its own and there only the lag.\<close>

definition locks_for :: "nat \<Rightarrow> machine \<Rightarrow> machine \<Rightarrow> bool" where
  "locks_for pid m m' \<longleftrightarrow> (\<forall>path. flocks m' path = flocks m path \<or> flocks m path = None \<and> flocks m' path = Some pid)"

interpretation locks_for: preorder_frame "locks_for pid" for pid
  by unfold_locales (simp_all add: locks_for_def, metis)

lemma locks_for_same: "flocks m' = flocks m \<Longrightarrow> locks_for pid m m'"
  by (simp add: locks_for_def)

lemma always_attempt: "always (locks_for pid) (attempt env h)"
  by (auto simp: always_def attempt_def intro!: locks_for_same split: option.splits)

lemma always_launch: "always (locks_for pid) (launch c)"
  by (auto simp: always_def launch_def intro!: locks_for_same)

lemma always_withdraw: "always (locks_for pid) (withdraw_lag p)"
  by (auto simp: always_def withdraw_lag_def intro!: locks_for_same split: prod.splits sum.splits)

lemma always_if_on: "always (locks_for pid) f \<Longrightarrow> always (locks_for pid) (if_on c f)"
  unfolding if_on_def by (intro locks_for.always_rules)

lemma always_lock: "always (locks_for pid) (lock env pid path)"
proof -
  have f: "always (locks_for pid) (Flock env pid path)"
    by (auto simp: always_def Flock_def attempt_def thenE_def bindE_def locks_for_def split: option.splits)
  have "always (locks_for pid) (wrapE what (Flock env pid path))" for what
  proof -
    have "snd (wrapE what (Flock env pid path) m) = snd (Flock env pid path m)" for m
      by (auto simp: wrapE_def split: prod.splits sum.splits)
    then show ?thesis using f by (simp add: always_def)
  qed
  then show ?thesis unfolding lock_def by (intro locks_for.always_rules always_attempt)
qed

lemma always_bind_to: "always (locks_for pid) (bind_to env b)"
  unfolding bind_to_def by (intro locks_for.always_rules always_attempt)

lemma always_broker: "always (locks_for pid) (open_broker env p dialer)"
  unfolding open_broker_def by (intro locks_for.always_rules always_attempt)

lemma startup_locks: "always (locks_for pid) (startup env lib pid p)"
  unfolding startup_def start_services_def
  by (intro locks_for.always_rules always_if_on always_lock always_bind_to always_broker always_withdraw
      always_attempt always_launch)

text \<open>What the table of locks says of the processes: a lock is held by a running process, for one of its files.\<close>

definition hosts :: "(nat \<Rightarrow> ServeParams option) \<Rightarrow> machine \<Rightarrow> bool" where
  "hosts run m \<longleftrightarrow> (\<forall>pid p. run pid = Some p \<longrightarrow> (\<forall>path \<in> set (lock_paths p). flocks m path = Some pid)) \<and>
     (\<forall>path pid. flocks m path = Some pid \<longrightarrow> run pid \<noteq> None)"

lemma Serve_Inr: "Serve env lib pid p m = (Inr x, m') \<longleftrightarrow> startup env lib pid p (m\<lparr>happened := []\<rparr>) = (Inr (), m')"
  by (auto simp: Serve_def split: prod.splits sum.splits)

lemma Serve_refused:
  assumes "Serve env lib pid p m = (Inl e, m')" "\<forall>path. flocks m path \<noteq> Some pid"
  shows "flocks m' = flocks m"
proof -
  obtain u where u: "startup env lib pid p (m\<lparr>happened := []\<rparr>) = (Inl e, u)" "m' = release pid u"
    using assms(1) by (auto simp: Serve_def split: prod.splits sum.splits)
  have "locks_for pid (m\<lparr>happened := []\<rparr>) (snd (startup env lib pid p (m\<lparr>happened := []\<rparr>)))"
    using startup_locks unfolding always_def by blast
  then have "locks_for pid (m\<lparr>happened := []\<rparr>) u" by (simp add: u(1))
  then show ?thesis using assms(2) by (auto simp: u(2) release_def locks_for_def fun_eq_iff) (metis option.inject)+
qed

lemma hosted_hosts: "hosted libs run m \<Longrightarrow> hosts run m"
proof (induction rule: hosted.induct)
  case (serving run m pid lib env p m')
  from serving(4) have s: "startup env lib pid p (m\<lparr>happened := []\<rparr>) = (Inr (), m')" by (simp add: Serve_Inr)
  show ?case using serving(2,5) startup_Inr(4,5) [OF s] unfolding hosts_def by (auto split: if_splits)
next
  case (refused run m pid lib env p e m')
  then have "flocks m' = flocks m" using Serve_refused unfolding hosts_def by blast
  then show ?case using refused(5) by (simp add: hosts_def)
next
  case (ended run m pid)
  then show ?case unfolding hosts_def release_def by (auto split: if_splits)
qed (simp_all add: hosts_def)

text \<open>A counted credential is one of the file.\<close>

lemma credential_of:
  assumes "load_registry lib p = Inr registry" "Count registry i \<noteq> 0"
  shows "\<exists>r. Load lib (CredsFile p) = Inr r \<and> (\<exists>(h, c) \<in> set (principals r). integration c = i)"
proof -
  obtain r where r: "registry = Some r" "Load lib (CredsFile p) = Inr r" "counts r i \<noteq> 0"
    using assms by (auto simp: load_registry_def Count_def map_sum_def split: if_splits sum.splits)
  from Load_registered [OF r(2)] obtain entries us where reg: "registered lib entries us r" by blast
  then have "filter (\<lambda>e. integration (the (principal_of e)) = i) entries \<noteq> []" using r(3) by (auto simp: registered_def)
  then obtain e where "e \<in> set entries" "integration (the (principal_of e)) = i" by (auto simp: filter_empty_conv)
  then have "(Sum256 lib (en_Secret e), the (principal_of e)) \<in> set (principals r)" using reg by (auto simp: registered_def)
  then show ?thesis using r(2) \<open>integration (the (principal_of e)) = i\<close> by blast
qed

text \<open>
  C38: one process per role.  However processes are started, refused and ended on a machine, no two of
  them ever run the accounting on one database, nor the chain listener on one database, nor an
  embedded broker beside databases of one directory.
\<close>

theorem Serve_exclusive:
  assumes "hosted libs run m" "run i = Some p" "run j = Some q"
    and "EnableAccounting p \<and> EnableAccounting q \<and> DBPath p = DBPath q \<or>
      EnableOnchainListener p \<and> EnableOnchainListener q \<and> DBPath p = DBPath q \<or>
      EnableKafka p \<and> EnableKafka q \<and> Dir (DBPath p) = Dir (DBPath q)"
  shows "i = j"
proof -
  from assms(4) obtain path where "path \<in> set (lock_paths p)" "path \<in> set (lock_paths q)"
    unfolding lock_paths_def by (elim disjE) auto
  moreover have "\<forall>path \<in> set (lock_paths p). flocks m path = Some i" "\<forall>path \<in> set (lock_paths q). flocks m path = Some j"
    using hosted_hosts [OF assms(1)] assms(2,3) unfolding hosts_def by blast+
  ultimately show ?thesis by fastforce
qed


section \<open>A machine\<close>

definition sample_serve :: ServeParams where
  "sample_serve = \<lparr>DBPath = ''data/clearinghouse.db'', EnableMetrics = Some \<lparr>Port = 9100, bind_String = ''127.0.0.1:9100''\<rparr>,
     EnableAuthWebhook = Some \<lparr>Port = 8080, bind_String = ''127.0.0.1:8080''\<rparr>,
     EnableManagementAPI = Some \<lparr>Port = 8081, bind_String = ''127.0.0.1:8081''\<rparr>, EnableKafka = True, EnableAccounting = True,
     KafkaBroker = [], EnableOnchainListener = False, CredsFile = ''auth.json'', KafkaBind = ''127.0.0.1:9092'',
     KafkaAdvertisedAddr = ''kafka.internal:9092'', KafkaTopic = ''livepeer-signing'', MaxKafkaLag = 60000000000, RPCURL = [],
     p_ChainID = [], TicketBroker = [], SignerAddresses = [], StartBlock = None, p_Confirmations = 64, PollInterval = 5000000000,
     BlockBatchSize = 2000, ReorgLookback = 256\<rparr>"

definition sample_surroundings :: surroundings where
  "sample_surroundings = \<lparr>refuse = (\<lambda>_ _. None), broker_Addr = ''127.0.0.1:9092'', quote = id\<rparr>"

definition sample_machine :: machine where
  "sample_machine = \<lparr>databases = (\<lambda>_. lag_start), flocks = (\<lambda>_. None), happened = []\<rparr>"

definition sample_up :: machine where
  "sample_up = snd (Serve sample_surroundings sample_library 0 sample_serve sample_machine)"

lemma sample_up_run: "Serve sample_surroundings sample_library 0 sample_serve sample_machine = (Inr (), sample_up)"
proof -
  have "\<not> isl (fst (Serve sample_surroundings sample_library 0 sample_serve sample_machine))" by code_simp
  then show ?thesis unfolding sample_up_def
    by (cases "fst (Serve sample_surroundings sample_library 0 sample_serve sample_machine)") (auto simp: prod_eq_iff)
qed


lemma sample_hosted: "hosted {sample_library} ((\<lambda>_. None)(0 := Some sample_serve)) sample_up"
  by (rule hosted.serving [OF hosted.boot _ _ sample_up_run]) (simp_all add: sample_machine_def)

lemma Serve_exclusive_witness:
  "\<exists>run. hosted {sample_library} run sample_up \<and> run 0 = Some sample_serve \<and>
     (\<forall>(j :: nat) q. run j = Some q \<and> EnableAccounting q \<and> DBPath q = DBPath sample_serve \<longrightarrow> j = 0)"
proof (intro exI conjI)
  show "hosted {sample_library} ((\<lambda>_. None)(0 := Some sample_serve)) sample_up" by (rule sample_hosted)
  show "\<forall>(j :: nat) q. ((\<lambda>_. None)(0 := Some sample_serve)) j = Some q \<and> EnableAccounting q \<and> DBPath q = DBPath sample_serve \<longrightarrow> j = 0"
  proof (intro allI impI)
    fix j :: nat and q assume q: "((\<lambda>_. None)(0 := Some sample_serve)) j = Some q \<and> EnableAccounting q \<and> DBPath q = DBPath sample_serve"
    have "((\<lambda>_. None)(0 := Some sample_serve)) (0 :: nat) = Some sample_serve" "EnableAccounting sample_serve"
      by (simp_all add: sample_serve_def)
    from Serve_exclusive [OF sample_hosted conjunct1 [OF q] this(1)] q this(2) show "j = 0" by blast
  qed
qed simp

end
