(* ===== verification/Telemetry.thy ===== *)
theory Telemetry
  imports Snapshot Server
begin

text \<open>
  \<open>internal/metrics/metrics.go\<close> and \<open>internal/app/metrics.go\<close>: the counters, histograms, exact amounts and
  collector snapshots of a process, the HTTP middleware that counts requests, and the rounds of the
  monitor.  Every function of the record is one critical section of its mutex, so concurrent calls
  are some sequence of them.  Numbers are exact: the roundings to \<open>float64\<close> and the registry of the
  Prometheus client are not modelled, its panics on a wrong number of labels and on a negative
  counter step are.
\<close>

section \<open>The state\<close>

text \<open>A vector is the names of its labels and its series, by the values of the labels.\<close>

record telemetry =
  t_counters :: "(string \<times> string list \<times> (string list \<times> int) list) list"
  t_histograms :: "(string \<times> string list \<times> (string list \<times> reading list) list) list"
  t_snapshots :: "(string \<times> gauge list) list"
  t_amounts :: "(string \<times> int) list"
  t_lastSuccess :: "(string \<times> int) list"

text \<open>A nil \<open>*Metrics\<close> is \<open>None\<close>.\<close>

type_synonym metrics = "telemetry option"

definition Prefix :: string where
  "Prefix = ''livepeer_clearinghouse_''"

definition Gauge :: "string \<Rightarrow> reading \<Rightarrow> string list \<Rightarrow> string list \<Rightarrow> gauge" where
  "Gauge name v labels vals = (Prefix @ name, zip labels vals, v)"

definition Counter :: "string \<Rightarrow> reading \<Rightarrow> gauge" where
  "Counter name v = (Prefix @ name, [], v)"

definition on_metrics :: "(telemetry \<Rightarrow> telemetry) \<Rightarrow> (metrics, unit) tx" where
  "on_metrics f = modify (map_option f)"

definition put_snapshot :: "string \<Rightarrow> gauge list \<Rightarrow> telemetry \<Rightarrow> telemetry" where
  "put_snapshot name items m = m\<lparr>t_snapshots := AList.update name items (t_snapshots m)\<rparr>"

definition New :: "string \<Rightarrow> string \<Rightarrow> telemetry" where
  "New version commit = put_snapshot ''build'' [Gauge ''build_info'' (Number 1) [''version'', ''commit''] [version, commit]]
     \<lparr>t_counters = [], t_histograms = [], t_snapshots = [], t_amounts = [], t_lastSuccess = []\<rparr>"

definition Collect :: "telemetry \<Rightarrow> gauge list" where
  "Collect m = concat (map snd (t_snapshots m))"

section \<open>The operations\<close>

definition panic :: "string \<Rightarrow> error" where
  "panic why = PlainError (''panic: '' @ why)"

definition Snapshot_metrics :: "string \<Rightarrow> gauge list \<Rightarrow> (metrics, unit) tx" where
  "Snapshot_metrics name items = on_metrics (put_snapshot name items)"

definition AddAmount :: "string \<Rightarrow> int \<Rightarrow> (metrics, unit) tx" where
  "AddAmount name units = on_metrics (\<lambda>m.
     let n = tget id (t_amounts m) name + units in
     put_snapshot name [Counter name (Currency n)] (m\<lparr>t_amounts := AList.update name n (t_amounts m)\<rparr>))"

text \<open>The labels of a vector are those of the call that registered it.\<close>

definition vector :: "(string \<times> string list \<times> 'v list) list \<Rightarrow> string \<Rightarrow> string list \<Rightarrow> string list \<times> 'v list" where
  "vector t name labels = (case map_of t name of None \<Rightarrow> (labels, []) | Some v \<Rightarrow> v)"

definition Add :: "string \<Rightarrow> int \<Rightarrow> string list \<Rightarrow> string list \<Rightarrow> (metrics, unit) tx" where
  "Add name n labels vals s = (case s of None \<Rightarrow> (Inr (), s) | Some m \<Rightarrow>
     let (ls, series) = vector (t_counters m) name labels;
         keep = (\<lambda>series. Some (m\<lparr>t_counters := AList.update name (ls, series) (t_counters m)\<rparr>)) in
     if length vals \<noteq> length ls then (Inl (panic ''inconsistent label cardinality''), keep series)
     else if n < 0 then (Inl (panic ''counter cannot decrease in value''), keep (AList.update vals (tget id series vals) series))
     else (Inr (), keep (AList.update vals (tget id series vals + n) series)))"

definition Observe :: "string \<Rightarrow> reading \<Rightarrow> string list \<Rightarrow> string list \<Rightarrow> (metrics, unit) tx" where
  "Observe name n labels vals s = (case s of None \<Rightarrow> (Inr (), s) | Some m \<Rightarrow>
     let (ls, series) = vector (t_histograms m) name labels;
         keep = (\<lambda>series. Some (m\<lparr>t_histograms := AList.update name (ls, series) (t_histograms m)\<rparr>)) in
     if length vals \<noteq> length ls then (Inl (panic ''inconsistent label cardinality''), keep series)
     else (Inr (), keep (AList.update vals ((case map_of series vals of None \<Rightarrow> [] | Some xs \<Rightarrow> xs) @ [n]) series)))"

definition Metrics_Error :: "string \<Rightarrow> string \<Rightarrow> string \<Rightarrow> (metrics, unit) tx" where
  "Metrics_Error component operation reason =
     Add ''service_errors_total'' 1 [''component'', ''operation'', ''reason''] [component, operation, reason]"

text \<open>
  What a collector publishes: the items of a success, whether it succeeded, how long it took, and when
  it last succeeded; \<open>now\<close> is in milliseconds, \<open>took\<close> in nanoseconds.
\<close>

definition health_items :: "string \<Rightarrow> gauge list result \<Rightarrow> int \<Rightarrow> int \<Rightarrow> gauge list" where
  "health_items name r took since =
     (case r of Inl e \<Rightarrow> [] | Inr items \<Rightarrow> items) @
     [Gauge ''collector_success'' (Number (if isl r then 0 else 1)) [''collector''] [name],
      Gauge ''collector_duration_seconds'' (Nanos took) [''collector''] [name]] @
     (if 0 < since then
        Gauge ''collector_last_success_timestamp_seconds'' (Millis since) [''collector''] [name] #
        (if name = ''chain'' then [Gauge ''chain_last_successful_poll_timestamp_seconds'' (Millis since) [] []] else [])
      else [])"

definition publish_section :: "string \<Rightarrow> int \<Rightarrow> int \<Rightarrow> gauge list result \<Rightarrow> telemetry \<Rightarrow> telemetry" where
  "publish_section name now took r m =
     (let successes = (if isl r then t_lastSuccess m else AList.update name now (t_lastSuccess m)) in
      put_snapshot (''collector_'' @ name) (health_items name r took (tget id successes name)) (m\<lparr>t_lastSuccess := successes\<rparr>))"

definition Publish :: "bool \<Rightarrow> string \<Rightarrow> int \<Rightarrow> int \<Rightarrow> gauge list result \<Rightarrow> (metrics, bool) tx" where
  "Publish cancelled name now took r s =
     (if s = None then (Inr (\<not> isl r), s)
      else if cancelled then (Inr False, s)
      else thenE (if isl r then Add ''collector_errors_total'' 1 [''collector''] [name] else ret ())
        (thenE (on_metrics (publish_section name now took r)) (ret (\<not> isl r))) s)"

section \<open>The HTTP middleware\<close>

text \<open>
  What a handler asks of its response writer and what the wrapped writer is asked in turn; a handler
  that asks for nothing is answered with 200 by \<open>net/http\<close>.
\<close>

datatype wire = WriteHeader int | Write_bytes string

fun response_step :: "wire \<Rightarrow> int \<times> wire list \<Rightarrow> int \<times> wire list" where
  "response_step (WriteHeader c) (status, sent) = (if status = 0 then (c, sent @ [WriteHeader c]) else (status, sent))"
| "response_step (Write_bytes b) (status, sent) =
     (if status = 0 then (200, sent @ [WriteHeader 200, Write_bytes b]) else (status, sent @ [Write_bytes b]))"

definition method_label :: "string \<Rightarrow> string" where
  "method_label m = (if m \<in> set [''GET'', ''HEAD'', ''POST'', ''PATCH'', ''DELETE'', ''PUT'', ''OPTIONS''] then m else ''other'')"

definition HTTP :: "string \<Rightarrow> string \<Rightarrow> string \<Rightarrow> wire list \<Rightarrow> int \<Rightarrow> (metrics, wire list) tx" where
  "HTTP listener pattern meth ops took s =
     (if s = None then (Inr ops, s)
      else let (c, sent) = fold response_step ops (0, []);
          route = (if pattern = [] then ''unmatched'' else pattern);
          status = (if c = 0 then 200 else c) in
        thenE (Add ''http_requests_total'' 1 [''listener'', ''route'', ''method'', ''code''] [listener, route, method_label meth, int_str status])
          (thenE (Observe ''http_request_duration_seconds'' (Nanos took) [''listener'', ''route'', ''method''] [listener, route, method_label meth])
            (ret sent)) s)"

text \<open>The status that the client sees.\<close>

definition sent_status :: "wire list \<Rightarrow> int" where
  "sent_status sent = (case sent of WriteHeader c # _ \<Rightarrow> c | _ \<Rightarrow> 200)"

lemma response_step_sent:
  assumes "fold response_step ops (0, []) = (status, sent)" "\<And>c. WriteHeader c \<in> set ops \<Longrightarrow> c \<noteq> 0"
  shows "sent_status sent = (if status = 0 then 200 else status) \<and> length (filter (\<lambda>w. \<exists>c. w = WriteHeader c) sent) \<le> 1"
proof -
  have "case fold response_step ops (0, []) of (status, sent) \<Rightarrow>
      (if sent = [] then status = 0 else status \<noteq> 0 \<and> (\<exists>rest. sent = WriteHeader status # rest \<and> (\<forall>w \<in> set rest. \<exists>b. w = Write_bytes b)))"
    using assms(2)
  proof (induction ops rule: rev_induct)
    case (snoc op ops)
    then show ?case by (cases op) (auto split: prod.splits if_splits)
  qed simp
  then show ?thesis using assms(1) by (auto simp: sent_status_def filter_empty_conv split: if_splits)
qed

section \<open>The rounds of the monitor\<close>

text \<open>
  What the rest of the process and the machine show to a round: whether the context is live at its
  checks, the times, the time-outs of the collectors, the two databases that are read (others write in
  between), the flags of the components, the statistics of the pool, and the files.
\<close>

record view =
  live :: "nat \<Rightarrow> bool"
  at_ms :: "string \<Rightarrow> int"
  took_ns :: "string \<Rightarrow> int"
  interrupted :: "string \<Rightarrow> error option"
  database_seen :: world
  kafka_seen :: world
  has_reader :: bool
  kafka_Ready :: bool
  chain_Ready :: bool
  pool_Stats :: "int \<times> int \<times> int \<times> int"
  Glob :: "string \<Rightarrow> string list result"
  Stat :: "string \<Rightarrow> int option result"

definition collect :: "view \<Rightarrow> nat \<Rightarrow> string \<Rightarrow> gauge list result \<Rightarrow> (metrics, bool) tx" where
  "collect v n name r = Publish (\<not> live v n) name (at_ms v name) (took_ns v name)
     (case interrupted v name of Some e \<Rightarrow> Inl e | None \<Rightarrow> r)"

definition prefixed :: "gauge list result \<Rightarrow> gauge list result" where
  "prefixed r = map_sum id (map (\<lambda>(name, ls, n). (Prefix @ name, ls, n))) r"

definition kafka_gauges :: "KafkaListener \<Rightarrow> broker \<Rightarrow> world \<Rightarrow> gauge list result" where
  "kafka_gauges l br s = map_sum id (map (\<lambda>(name, part, n). Gauge name (Number n) [''topic'', ''partition''] [Topic l, int_str part]))
     (fst (Kafka.MetricSnapshot l br s))"

definition number_of :: "bool \<Rightarrow> reading" where
  "number_of b = Number (if b then 1 else 0)"

definition component_states :: "ServeParams \<Rightarrow> bool \<Rightarrow> bool \<Rightarrow> bool \<Rightarrow> gauge list" where
  "component_states p dbReady kReady cReady = concat (map (\<lambda>(name, enabled, ready).
       [Gauge ''component_enabled'' (number_of enabled) [''component''] [name],
        Gauge ''component_ready'' (number_of (enabled \<and> ready)) [''component''] [name]])
     [(''webhook'', EnableAuthWebhook p \<noteq> None, dbReady), (''management'', EnableManagementAPI p \<noteq> None, dbReady),
      (''kafka'', EnableKafka p, True), (''accounting'', EnableAccounting p, kReady),
      (''chain'', EnableOnchainListener p, cReady)])"

definition pool_gauges :: "int \<times> int \<times> int \<times> int \<Rightarrow> gauge list" where
  "pool_gauges = (\<lambda>(inUse, idle, waits, waited).
     [Gauge ''db_pool_connections'' (Number inUse) [''state''] [''in_use''], Gauge ''db_pool_connections'' (Number idle) [''state''] [''idle''],
      Counter ''db_pool_waits_total'' (Number waits), Counter ''db_pool_wait_duration_seconds_total'' (Nanos waited)])"

definition Base :: "string \<Rightarrow> string" where
  "Base path =
     (let p = rev (dropWhile (\<lambda>c. c = CHR ''/'') (rev path)); b = rev (takeWhile (\<lambda>c. c \<noteq> CHR ''/'') (rev p)) in
      if path = [] then ''.'' else if b = [] then ''/'' else b)"

definition ParseUint31 :: "string \<Rightarrow> bool" where
  "ParseUint31 s \<longleftrightarrow> s \<noteq> [] \<and> all_digits s \<and> dec_val s < 2147483648"

text \<open>The role of a file of the broker, \<open>None\<close> for one of another topic.\<close>

definition storage_role :: "string \<Rightarrow> string \<Rightarrow> string option" where
  "storage_role topic f =
     (let b = Base f; role = (if suffix ''.db'' b then take (length b - 3) b else b);
          own = ''minikafka_'' @ topic @ ''_'' in
      if role = ''minikafka_+meta'' \<or> take (length own) role = own \<and> ParseUint31 (drop (length own) role) then Some role else None)"

definition storage_paths :: "ServeParams \<Rightarrow> bool \<Rightarrow> view \<Rightarrow> (string \<times> string) list result" where
  "storage_paths p has_db v =
     (let own = (if has_db then [(''accounting'', DBPath p)] else []);
          broker_file = (\<lambda>f paths. case storage_role (KafkaTopic p) f of None \<Rightarrow> paths | Some role \<Rightarrow> AList.update role f paths) in
      if EnableKafka p then map_sum id (\<lambda>files. fold broker_file files own) (Glob v (Join (Dir (DBPath p)) ''minikafka_*.db''))
      else Inr own)"

fun file_gauges :: "(string \<Rightarrow> int option result) \<Rightarrow> (string \<times> string \<times> string) list \<Rightarrow> gauge list result" where
  "file_gauges st [] = Inr []"
| "file_gauges st ((role, path, ending) # rest) = (case st (path @ ending) of
     Inl e \<Rightarrow> Inl e
   | Inr None \<Rightarrow> file_gauges st rest
   | Inr (Some n) \<Rightarrow> map_sum id (\<lambda>out. Gauge ''storage_file_bytes'' (Number n) [''role'', ''kind'']
       [role, if ending \<noteq> [] then ''wal'' else ''database''] # out) (file_gauges st rest))"

definition storage_gauges :: "ServeParams \<Rightarrow> bool \<Rightarrow> view \<Rightarrow> gauge list result" where
  "storage_gauges p has_db v = (case storage_paths p has_db v of Inl e \<Rightarrow> Inl e
     | Inr paths \<Rightarrow> file_gauges (Stat v) (concat (map (\<lambda>(role, path). [(role, path, []), (role, path, ''-wal'')]) paths)))"

definition database_gauges :: "ServeParams \<Rightarrow> view \<Rightarrow> gauge list result" where
  "database_gauges p v =
     (if \<not> has_reader v then Inl (PlainError ''metrics database unavailable'')
      else prefixed (fst (Snapshot.MetricSnapshot (EnableAccounting p) (EnableOnchainListener p) (database_seen v))))"

definition broker_gauges :: "KafkaListener \<Rightarrow> broker \<Rightarrow> view \<Rightarrow> gauge list result" where
  "broker_gauges l br v =
     (if \<not> has_reader v then Inl (PlainError ''metrics database unavailable'') else kafka_gauges l br (kafka_seen v))"

definition monitor_round :: "ServeParams \<Rightarrow> bool \<Rightarrow> KafkaListener \<Rightarrow> broker \<Rightarrow> view \<Rightarrow> (metrics, unit) tx" where
  "monitor_round p has_db l br v =
     (if \<not> live v 0 then ret ()
      else bindE (if has_db then collect v 1 ''database'' (database_gauges p v) else ret True) (\<lambda>dbReady.
        if \<not> live v 2 then ret ()
        else thenE (Snapshot_metrics ''components'' (component_states p dbReady (kafka_Ready v) (chain_Ready v)))
          (thenE (if EnableAccounting p then bindE (collect v 3 ''kafka'' (broker_gauges l br v)) (\<lambda>_. ret ()) else ret ())
            (if \<not> live v 4 then ret ()
             else thenE (if has_db then Snapshot_metrics ''pool'' (pool_gauges (pool_Stats v)) else ret ())
               (bindE (collect v 5 ''storage'' (storage_gauges p has_db v)) (\<lambda>_. ret ()))))))"

definition monitorMetrics :: "ServeParams \<Rightarrow> bool \<Rightarrow> KafkaListener \<Rightarrow> broker \<Rightarrow> view list \<Rightarrow> (metrics, unit) tx" where
  "monitorMetrics p has_db l br vs = forE vs (monitor_round p has_db l br)"

section \<open>Histories of calls\<close>

text \<open>The names and the labels that the source uses them with.\<close>

definition label_table :: "(string \<times> string list) list" where
  "label_table =
     [(''authorization_decisions_total'', [''decision'', ''reason'']), (''service_errors_total'', [''component'', ''operation'', ''reason'']),
      (''collector_errors_total'', [''collector'']), (''http_requests_total'', [''listener'', ''route'', ''method'', ''code'']),
      (''http_request_duration_seconds'', [''listener'', ''route'', ''method'']), (''chain_rpc_requests_total'', [''operation'', ''outcome'']),
      (''chain_rpc_request_duration_seconds'', [''operation'']), (''usage_events_total'', [''topic'', ''partition'', ''outcome'', ''reason'']),
      (''management_idempotency_total'', [''outcome'']), (''db_transactions_total'', [''outcome'']),
      (''db_transaction_duration_seconds'', [''outcome''])]"

definition metric_labels :: "string \<Rightarrow> string list" where
  "metric_labels name = (case map_of label_table name of None \<Rightarrow> [] | Some labels \<Rightarrow> labels)"

datatype instrument =
    AddCall string int "string list"
  | ObserveCall string reading "string list"
  | SnapshotCall string "gauge list"
  | AmountCall string int
  | PublishCall bool string int int "gauge list result"

fun perform :: "instrument \<Rightarrow> (metrics, unit) tx" where
  "perform (AddCall name n vals) = Add name n (metric_labels name) vals"
| "perform (ObserveCall name n vals) = Observe name n (metric_labels name) vals"
| "perform (SnapshotCall name items) = Snapshot_metrics name items"
| "perform (AmountCall name n) = AddAmount name n"
| "perform (PublishCall cancelled name now took r) = bindE (Publish cancelled name now took r) (\<lambda>_. ret ())"

text \<open>A snapshot or an amount never has the name of the snapshot of a collector.\<close>

definition collector_name :: "string \<Rightarrow> bool" where
  "collector_name name \<longleftrightarrow> take 10 name = ''collector_''"

fun well_called :: "instrument \<Rightarrow> bool" where
  "well_called (AddCall name n vals) = (0 \<le> n \<and> length vals = length (metric_labels name))"
| "well_called (ObserveCall name n vals) = (length vals = length (metric_labels name))"
| "well_called (SnapshotCall name items) = (\<not> collector_name name)"
| "well_called (AmountCall name n) = (\<not> collector_name name)"
| "well_called (PublishCall cancelled name now took r) = True"

section \<open>What a history stands for\<close>

fun count_part :: "string \<Rightarrow> string list \<Rightarrow> instrument \<Rightarrow> int" where
  "count_part name vals (AddCall nm n vs) = (if nm = name \<and> vs = vals then n else 0)"
| "count_part name vals (PublishCall cancelled nm now took r) =
     (if name = ''collector_errors_total'' \<and> vals = [nm] \<and> \<not> cancelled \<and> isl r then 1 else 0)"
| "count_part name vals c = 0"

fun amount_part :: "string \<Rightarrow> instrument \<Rightarrow> int" where
  "amount_part name (AmountCall nm n) = (if nm = name then n else 0)"
| "amount_part name c = 0"

text \<open>The publications of a collector that were not cancelled, and its last success.\<close>

fun published :: "string \<Rightarrow> instrument \<Rightarrow> (int \<times> int \<times> gauge list result) list" where
  "published name (PublishCall cancelled nm now took r) = (if nm = name \<and> \<not> cancelled then [(now, took, r)] else [])"
| "published name c = []"

definition publications :: "string \<Rightarrow> instrument list \<Rightarrow> (int \<times> int \<times> gauge list result) list" where
  "publications name h = concat (map (published name) h)"

definition last_success :: "string \<Rightarrow> instrument list \<Rightarrow> int" where
  "last_success name h = fold (\<lambda>(now, took, r) since. if isl r then since else now) (publications name h) 0"

definition health :: "string \<Rightarrow> instrument list \<Rightarrow> gauge list option" where
  "health name h = (case rev (publications name h) of [] \<Rightarrow> None
     | (now, took, r) # _ \<Rightarrow> Some (health_items name r took (last_success name h)))"

definition series_count :: "telemetry \<Rightarrow> string \<Rightarrow> string list \<Rightarrow> int" where
  "series_count m name vals = (case map_of (t_counters m) name of None \<Rightarrow> 0 | Some (ls, series) \<Rightarrow> tget id series vals)"

definition reflects :: "instrument list \<Rightarrow> telemetry \<Rightarrow> bool" where
  "reflects h m \<longleftrightarrow>
     (\<forall>name ls series. map_of (t_counters m) name = Some (ls, series) \<longrightarrow> ls = metric_labels name) \<and>
     (\<forall>name ls series. map_of (t_histograms m) name = Some (ls, series) \<longrightarrow> ls = metric_labels name) \<and>
     (\<forall>name. tget id (t_lastSuccess m) name = last_success name h) \<and>
     (\<forall>name. map_of (t_snapshots m) (''collector_'' @ name) = health name h) \<and>
     (\<forall>name. tget id (t_amounts m) name = sum_list (map (amount_part name) h)) \<and>
     (\<forall>name vals. series_count m name vals = sum_list (map (count_part name vals) h))"

lemma forE_append: "forE xs f s = (Inr (), s') \<Longrightarrow> forE (xs @ ys) f s = forE ys f s'"
proof (induction xs arbitrary: s)
  case (Cons x xs)
  then obtain s1 where "f x s = (Inr (), s1)" "forE xs f s1 = (Inr (), s')" by (auto simp: thenE_Inr)
  then show ?case using Cons.IH by (simp add: thenE_step)
qed simp

lemma Add_run:
  assumes "\<forall>nm ls series. map_of (t_counters m) nm = Some (ls, series) \<longrightarrow> ls = metric_labels nm"
    and "length vals = length (metric_labels name)" "0 \<le> n"
  obtains t where "Add name n (metric_labels name) vals (Some m) = (Inr (), Some (m\<lparr>t_counters := t\<rparr>))"
    and "\<forall>nm ls series. map_of t nm = Some (ls, series) \<longrightarrow> ls = metric_labels nm"
    and "\<forall>nm vs. series_count (m\<lparr>t_counters := t\<rparr>) nm vs = series_count m nm vs + (if nm = name \<and> vs = vals then n else 0)"
proof -
  let ?ls = "metric_labels name"
  obtain series where v: "vector (t_counters m) name ?ls = (?ls, series)" and c: "\<And>vs. series_count m name vs = tget id series vs"
    using assms(1) by (cases "map_of (t_counters m) name") (force simp: vector_def series_count_def tget_def)+
  let ?t = "AList.update name (?ls, AList.update vals (tget id series vals + n) series) (t_counters m)"
  have "Add name n ?ls vals (Some m) = (Inr (), Some (m\<lparr>t_counters := ?t\<rparr>))" using assms(2,3) by (simp add: Add_def v)
  moreover have "\<forall>nm ls series. map_of ?t nm = Some (ls, series) \<longrightarrow> ls = metric_labels nm"
    using assms(1) by (simp add: AList.update_conv')
  moreover have "series_count (m\<lparr>t_counters := ?t\<rparr>) nm vs = series_count m nm vs + (if nm = name \<and> vs = vals then n else 0)" for nm vs
  proof (cases "nm = name")
    case True
    then show ?thesis by (simp add: series_count_def [of "m\<lparr>t_counters := ?t\<rparr>"] AList.update_conv' tget_update c)
  next
    case False
    then show ?thesis by (simp add: series_count_def AList.update_conv')
  qed
  ultimately show ?thesis using that by blast
qed

lemma Observe_run:
  assumes "\<forall>nm ls series. map_of (t_histograms m) nm = Some (ls, series) \<longrightarrow> ls = metric_labels nm"
    and "length vals = length (metric_labels name)"
  obtains t where "Observe name n (metric_labels name) vals (Some m) = (Inr (), Some (m\<lparr>t_histograms := t\<rparr>))"
    and "\<forall>nm ls series. map_of t nm = Some (ls, series) \<longrightarrow> ls = metric_labels nm"
proof -
  let ?ls = "metric_labels name"
  obtain series where v: "vector (t_histograms m) name ?ls = (?ls, series)"
    using assms(1) by (cases "map_of (t_histograms m) name") (force simp: vector_def)+
  let ?t = "AList.update name (?ls, AList.update vals ((case map_of series vals of None \<Rightarrow> [] | Some xs \<Rightarrow> xs) @ [n]) series) (t_histograms m)"
  have "Observe name n ?ls vals (Some m) = (Inr (), Some (m\<lparr>t_histograms := ?t\<rparr>))" using assms(2) by (simp add: Observe_def v)
  moreover have "\<forall>nm ls series. map_of ?t nm = Some (ls, series) \<longrightarrow> ls = metric_labels nm"
    using assms(1) by (simp add: AList.update_conv')
  ultimately show ?thesis using that by blast
qed

lemma not_collector: "\<not> collector_name name \<Longrightarrow> name \<noteq> ''collector_'' @ nm"
  by (auto simp: collector_name_def)

lemma publications_snoc [simp]: "publications name [] = []" "publications name (h @ [c]) = publications name h @ published name c"
  by (simp_all add: publications_def)

lemma last_success_snoc: "last_success name (h @ [c]) =
    fold (\<lambda>(now, took, r) since. if isl r then since else now) (published name c) (last_success name h)"
  by (simp add: last_success_def)

lemma health_snoc: "health name (h @ [c]) = (case published name c of [] \<Rightarrow> health name h
    | _ \<Rightarrow> (case last (published name c) of (now, took, r) \<Rightarrow> Some (health_items name r took (last_success name (h @ [c])))))"
  by (cases c) (auto simp: health_def last_success_snoc split: list.splits)

lemma series_count_frame [simp]:
  "series_count (m\<lparr>t_snapshots := x\<rparr>) = series_count m" "series_count (m\<lparr>t_amounts := a\<rparr>) = series_count m"
  "series_count (m\<lparr>t_histograms := g\<rparr>) = series_count m" "series_count (m\<lparr>t_lastSuccess := l\<rparr>) = series_count m"
  by (simp_all add: series_count_def fun_eq_iff)

lemma Publish_section_reflects:
  assumes "reflects h m" "\<forall>nm ls series. map_of t nm = Some (ls, series) \<longrightarrow> ls = metric_labels nm"
    and "\<forall>nm vs. series_count (m\<lparr>t_counters := t\<rparr>) nm vs = series_count m nm vs + count_part nm vs c"
    and "c = PublishCall False name now took r"
  shows "reflects (h @ [c]) (publish_section name now took r (m\<lparr>t_counters := t\<rparr>))"
  using assms
  by (auto simp: reflects_def publish_section_def put_snapshot_def Let_def last_success_snoc health_snoc AList.update_conv' tget_update)

lemma perform_reflects:
  assumes "reflects h m" "well_called c"
  shows "\<exists>m'. perform c (Some m) = (Inr (), Some m') \<and> reflects (h @ [c]) m'"
proof (cases c)
  case (AddCall name n vals)
  have inv: "\<forall>nm ls series. map_of (t_counters m) nm = Some (ls, series) \<longrightarrow> ls = metric_labels nm" using assms(1) by (simp add: reflects_def)
  show ?thesis
    by (rule Add_run [OF inv, of vals name n])
      (use assms AddCall in \<open>auto simp: reflects_def last_success_snoc health_snoc intro!: exI\<close>)
next
  case (ObserveCall name n vals)
  have inv: "\<forall>nm ls series. map_of (t_histograms m) nm = Some (ls, series) \<longrightarrow> ls = metric_labels nm" using assms(1) by (simp add: reflects_def)
  show ?thesis
    by (rule Observe_run [OF inv, of vals name n])
      (use assms ObserveCall in \<open>auto simp: reflects_def last_success_snoc health_snoc intro!: exI\<close>)
next
  case (SnapshotCall name items)
  then show ?thesis using assms not_collector [of name]
    by (auto simp: reflects_def last_success_snoc health_snoc Snapshot_metrics_def on_metrics_def put_snapshot_def AList.update_conv')
next
  case (AmountCall name n)
  then show ?thesis using assms not_collector [of name]
    by (auto simp: reflects_def last_success_snoc health_snoc AddAmount_def on_metrics_def put_snapshot_def AList.update_conv' tget_update Let_def)
next
  case (PublishCall cancelled name now took r)
  have inv: "\<forall>nm ls series. map_of (t_counters m) nm = Some (ls, series) \<longrightarrow> ls = metric_labels nm" using assms(1) by (simp add: reflects_def)
  have ls: "metric_labels ''collector_errors_total'' = [''collector'']" by (simp add: metric_labels_def label_table_def)
  show ?thesis
  proof (cases "\<not> cancelled \<and> isl r")
    case True
    obtain t where t: "Add ''collector_errors_total'' 1 [''collector''] [name] (Some m) = (Inr (), Some (m\<lparr>t_counters := t\<rparr>))"
      and l: "\<forall>nm ls series. map_of t nm = Some (ls, series) \<longrightarrow> ls = metric_labels nm"
      and c: "\<forall>nm vs. series_count (m\<lparr>t_counters := t\<rparr>) nm vs = series_count m nm vs + (if nm = ''collector_errors_total'' \<and> vs = [name] then 1 else 0)"
      using Add_run [OF inv, of "[name]" "''collector_errors_total''" 1] ls by auto
    have "reflects (h @ [c]) (publish_section name now took r (m\<lparr>t_counters := t\<rparr>))"
      by (rule Publish_section_reflects [OF assms(1) l]) (use c True PublishCall in auto)
    then show ?thesis using True PublishCall t
      by (auto simp: Publish_def on_metrics_def bindE_def thenE_def modify_def ret_def)
  next
    case False
    have "reflects (h @ [c]) (publish_section name now took r (m\<lparr>t_counters := t_counters m\<rparr>))" if "\<not> cancelled"
      by (rule Publish_section_reflects [OF assms(1) inv]) (use False PublishCall that in auto)
    moreover have "reflects (h @ [c]) m" if cancelled
      using assms(1) that PublishCall by (simp add: reflects_def last_success_snoc health_snoc)
    ultimately show ?thesis using False PublishCall by (auto simp: Publish_def on_metrics_def bindE_def thenE_def modify_def ret_def)
  qed
qed

text \<open>What only calls these functions runs without a panic: the middleware and the monitor.\<close>

definition runs :: "(metrics, 'a) tx \<Rightarrow> bool" where
  "runs x \<longleftrightarrow> (\<forall>h m. reflects h m \<longrightarrow> (\<exists>r h' m'. x (Some m) = (Inr r, Some m') \<and> reflects (h @ h') m'))"

lemma runsE: "runs x \<Longrightarrow> reflects h m \<Longrightarrow> (\<And>r h' m'. x (Some m) = (Inr r, Some m') \<Longrightarrow> reflects (h @ h') m' \<Longrightarrow> thesis) \<Longrightarrow> thesis"
  unfolding runs_def by blast

lemma runs_ret: "runs (ret r)"
  unfolding runs_def by (metis append_Nil2 ret_simp)

lemma runs_bindE:
  assumes "runs x" "\<And>r. runs (f r)"
  shows "runs (bindE x f)"
  unfolding runs_def
proof (intro allI impI)
  fix h m assume "reflects h m"
  then obtain r h1 m1 where x: "x (Some m) = (Inr r, Some m1)" "reflects (h @ h1) m1" by (rule runsE [OF assms(1)])
  obtain r' h2 m2 where "f r (Some m1) = (Inr r', Some m2)" "reflects ((h @ h1) @ h2) m2" by (rule runsE [OF assms(2) x(2)])
  then show "\<exists>r h' m'. bindE x f (Some m) = (Inr r, Some m') \<and> reflects (h @ h') m'" using x(1) by (auto simp: bindE_step)
qed

lemma runs_thenE: "runs x \<Longrightarrow> runs k \<Longrightarrow> runs (thenE x k)"
  by (simp add: thenE_def runs_bindE)

lemma runs_if: "runs x \<Longrightarrow> runs y \<Longrightarrow> runs (if c then x else y)"
  by simp

lemma runs_forE: "(\<And>x. runs (f x)) \<Longrightarrow> runs (forE xs f)"
  by (induction xs) (simp_all add: runs_ret runs_thenE)

lemma runs_perform: "well_called c \<Longrightarrow> runs (perform c)"
  unfolding runs_def using perform_reflects by blast

lemma runs_Publish: "runs (Publish cancelled name now took r)"
  unfolding runs_def
proof (intro allI impI)
  fix h m assume "reflects h m"
  from perform_reflects [OF this, of "PublishCall cancelled name now took r"] obtain m'
    where "bindE (Publish cancelled name now took r) (\<lambda>_. ret ()) (Some m) = (Inr (), Some m')"
      and m': "reflects (h @ [PublishCall cancelled name now took r]) m'" by auto
  then obtain b where "Publish cancelled name now took r (Some m) = (Inr b, Some m')" by (auto simp: bindE_Inr)
  then show "\<exists>b h' m'. Publish cancelled name now took r (Some m) = (Inr b, Some m') \<and> reflects (h @ h') m'" using m' by blast
qed

lemma runs_Snapshot: "\<not> collector_name name \<Longrightarrow> runs (Snapshot_metrics name items)"
  using runs_perform [of "SnapshotCall name items"] by simp

lemma HTTP_runs: "runs (HTTP listener pattern meth ops took)"
  unfolding runs_def
proof (intro allI impI)
  fix h m assume r: "reflects h m"
  define c where "c = fst (fold response_step ops (0, []))"
  let ?route = "if pattern = [] then ''unmatched'' else pattern"
  let ?k = "thenE (perform (AddCall ''http_requests_total'' 1 [listener, ?route, method_label meth, int_str (if c = 0 then 200 else c)]))
     (thenE (perform (ObserveCall ''http_request_duration_seconds'' (Nanos took) [listener, ?route, method_label meth]))
       (ret (snd (fold response_step ops (0, [])))))"
  have "runs ?k" by (intro runs_thenE runs_ret runs_perform) (simp_all add: metric_labels_def label_table_def)
  moreover have "HTTP listener pattern meth ops took (Some m) = ?k (Some m)"
    by (simp add: HTTP_def case_prod_unfold Let_def c_def metric_labels_def label_table_def)
  ultimately show "\<exists>b h' m'. HTTP listener pattern meth ops took (Some m) = (Inr b, Some m') \<and> reflects (h @ h') m'"
    using r by (auto elim!: runsE)
qed

definition request_series :: "string \<Rightarrow> string \<Rightarrow> string \<Rightarrow> int \<Rightarrow> string list" where
  "request_series listener pattern meth status =
     [listener, if pattern = [] then ''unmatched'' else pattern, method_label meth, int_str status]"

lemma HTTP_counts:
  assumes "reflects h m" "\<And>c. WriteHeader c \<in> set ops \<Longrightarrow> c \<noteq> 0"
  obtains sent m' where "HTTP listener pattern meth ops took (Some m) = (Inr sent, Some m')"
    and "\<forall>vals. series_count m' ''http_requests_total'' vals = series_count m ''http_requests_total'' vals +
      (if vals = request_series listener pattern meth (sent_status sent) then 1 else 0)"
proof -
  obtain c sent where f: "fold response_step ops (0, []) = (c, sent)" by (cases "fold response_step ops (0, [])")
  have c: "sent_status sent = (if c = 0 then 200 else c)" using response_step_sent [OF f] assms(2) by blast
  note inv = assms(1) [unfolded reflects_def]
  let ?vals = "request_series listener pattern meth (sent_status sent)"
  obtain t where t: "Add ''http_requests_total'' 1 (metric_labels ''http_requests_total'') ?vals (Some m) = (Inr (), Some (m\<lparr>t_counters := t\<rparr>))"
    and n: "\<forall>nm vs. series_count (m\<lparr>t_counters := t\<rparr>) nm vs = series_count m nm vs + (if nm = ''http_requests_total'' \<and> vs = ?vals then 1 else 0)"
    by (rule Add_run [of m ?vals "''http_requests_total''" 1]) (use inv in \<open>simp_all add: request_series_def metric_labels_def label_table_def\<close>)
  let ?m = "m\<lparr>t_counters := t\<rparr>" and ?obs = "butlast ?vals"
  obtain g where g: "Observe ''http_request_duration_seconds'' (Nanos took) (metric_labels ''http_request_duration_seconds'') ?obs (Some ?m) =
      (Inr (), Some (?m\<lparr>t_histograms := g\<rparr>))"
    by (rule Observe_run [of ?m ?obs "''http_request_duration_seconds''" "Nanos took"])
      (use inv in \<open>simp_all add: request_series_def metric_labels_def label_table_def\<close>)
  have "HTTP listener pattern meth ops took (Some m) = (Inr sent, Some (?m\<lparr>t_histograms := g\<rparr>))"
    using t g by (simp add: HTTP_def f Let_def c request_series_def metric_labels_def label_table_def thenE_step)
  then show ?thesis by (rule that) (use n in simp)
qed

lemma monitorMetrics_runs: "runs (monitorMetrics p has_db l br vs)"
  unfolding monitorMetrics_def monitor_round_def collect_def
  by (intro runs_forE runs_if runs_ret runs_bindE runs_thenE runs_Publish runs_Snapshot) (simp_all add: collector_name_def)

section \<open>The property\<close>


definition sample_calls :: "instrument list" where
  "sample_calls = [PublishCall False ''database'' 1000 7 (Inr [Gauge ''chain_start_block'' (Number 1) [] []]),
     AmountCall ''accounting_charged_eth_total'' 5, AddCall ''db_transactions_total'' 1 [''success''],
     AmountCall ''accounting_charged_eth_total'' 6, PublishCall False ''database'' 2000 9 (Inl ErrNoRows)]"

definition sample_ops :: "wire list" where
  "sample_ops = [WriteHeader 404, Write_bytes ''x'', WriteHeader 200]"


end
