(* ===== verification/Commands.thy ===== *)
theory Commands
  imports Management Summaries
begin

text \<open>
  The commands of \<open>internal/app/cli.go\<close> that work on an existing database, and those of the migration
  group: what each leaf runs once the third-party command framework has filled in its parameters.
  The opening of the database and the clock text of an invalid time are arguments.
\<close>

section \<open>Parameters\<close>

record CreateParams =
  Name :: string
  AmountUSD :: string
  AmountETH :: string
  Sponsor :: string
  Beneficiary :: string
  GrantID :: string
  InitialStatus :: string
  Metadata :: string
  StartsAt :: string
  EndsAt :: string

record KeyParams =
  key_AllocationID :: string
  key_GrantID :: string
  key_Name :: string
  key_AmountUSD :: string
  key_AmountETH :: string

text \<open>
  The leaves with their resource kind; a list carries its filters and the names of the flags that
  were given.
\<close>

datatype command =
    CreateCommand string CreateParams
  | SetStatusCommand string string string
  | FundCommand string string string string
  | RevokeCommand string string
  | ListCommand string ListOptions "string list"
  | ShowCommand string string
  | CreateKeyCommand KeyParams
  | EscrowReportCommand
  | EscrowActivityCommand
  | LedgerReportCommand

section \<open>Running a command\<close>

text \<open>\<open>opened\<close> is the error of opening the database, which must exist.\<close>

definition withDB :: "error option \<Rightarrow> (world, json) tx \<Rightarrow> (world, json) tx" where
  "withDB opened fn = (case opened of
     Some e \<Rightarrow> fail e
   | None \<Rightarrow> bindE fn (\<lambda>result. liftE (displayETH_json result)))"

definition text_map :: "(string \<times> string) list \<Rightarrow> json" where
  "text_map kvs = JObject (map (\<lambda>(k, v). (k, JString v)) kvs)"

definition rows_json :: "(string \<times> json) list list \<Rightarrow> json" where
  "rows_json rows = JArray (map JObject rows)"

definition query :: "(world \<Rightarrow> (string \<times> json) list list result) \<Rightarrow> (world, json) tx" where
  "query f = bindE (gets f) (\<lambda>r. liftE (map_sum id rows_json r))"

definition parse_time :: "codecs \<Rightarrow> (string \<Rightarrow> error) \<Rightarrow> string \<Rightarrow> int option result" where
  "parse_time cd time_error v = (case parseTime cd v of None \<Rightarrow> Inl (time_error v) | Some t \<Rightarrow> Inr t)"

definition createCommand :: "codecs \<Rightarrow> (string \<Rightarrow> error) \<Rightarrow> error option \<Rightarrow> string \<Rightarrow> CreateParams \<Rightarrow> (world, json) tx" where
  "createCommand cd time_error opened kind p =
     bindE (liftE (parse_time cd time_error (StartsAt p))) (\<lambda>starts.
     bindE (liftE (parse_time cd time_error (EndsAt p))) (\<lambda>ends.
       if kind = ''allocation'' \<and> GrantID p = [] then fail (PlainError ''--grant-id required'')
       else bindE (liftE (inputAmount (AmountUSD p) (AmountETH p) True (kind = ''allocation''))) (\<lambda>(amount, currency).
         withDB opened (bindE (Create_tx kind \<lparr>c_Name = Name p, c_Sponsor = Sponsor p, c_Beneficiary = Beneficiary p,
             c_GrantID = GrantID p, c_Amount = amount, c_Currency = currency, c_Status = InitialStatus p,
             c_Metadata = Metadata p, c_Starts = starts, c_Ends = ends\<rparr>) (\<lambda>i. ret (text_map [(''id'', i)]))))))"

definition setStatusCommand :: "error option \<Rightarrow> string \<Rightarrow> string \<Rightarrow> string \<Rightarrow> (world, json) tx" where
  "setStatusCommand opened kind i status =
     withDB opened (thenE (SetStatus kind i status) (ret (text_map [(''id'', i), (''status'', status)])))"

definition fundCommand :: "error option \<Rightarrow> string \<Rightarrow> string \<Rightarrow> string \<Rightarrow> string \<Rightarrow> (world, json) tx" where
  "fundCommand opened kind i amount_usd amount_eth =
     bindE (liftE (inputAmount amount_usd amount_eth False (kind = ''allocation''))) (\<lambda>(amount, currency).
       withDB opened (thenE (FundCurrency kind i amount currency) (ret (text_map [(''id'', i)]))))"

definition createKeyCommand :: "error option \<Rightarrow> KeyParams \<Rightarrow> (world, json) tx" where
  "createKeyCommand opened p =
     (if (key_AllocationID p = []) = (key_GrantID p = []) then fail (PlainError ''specify exactly one of --allocation-id or --grant-id'')
      else if key_AllocationID p \<noteq> [] \<and> (key_AmountETH p \<noteq> [] \<or> key_AmountUSD p \<noteq> [])
        then fail (PlainError ''amount is only valid with --grant-id'')
      else if key_GrantID p \<noteq> [] \<and> key_AmountETH p = [] \<and> key_AmountUSD p = []
        then fail (PlainError ''--amount-usd or --amount-eth required with --grant-id'')
      else withDB opened
        (if key_AllocationID p \<noteq> []
         then bindE (CreateKey (key_AllocationID p) (key_Name p)) (\<lambda>(i, key).
           ret (text_map [(''allocation_id'', key_AllocationID p), (''id'', i), (''api_key'', key)]))
         else bindE (liftE (inputAmount (key_AmountUSD p) (key_AmountETH p) False True)) (\<lambda>(amount, currency).
           bindE (CreateKeyForGrantCurrency (key_GrantID p) (key_Name p) amount currency) (\<lambda>(allocation, i, key).
             ret (text_map [(''allocation_id'', allocation), (''id'', i), (''api_key'', key)])))))"

text \<open>The filters that the list of a kind accepts.\<close>

definition accepted_filters :: "string \<Rightarrow> ListOptions \<Rightarrow> ListOptions" where
  "accepted_filters kind p =
     (if kind = ''grant'' then item_options []
      else if kind = ''allocation'' then (item_options [])\<lparr>lo_GrantID := lo_GrantID p\<rparr>
      else if kind = ''usage'' then (item_options [])\<lparr>lo_GrantID := lo_GrantID p, lo_AllocationID := lo_AllocationID p,
        lo_ManifestID := lo_ManifestID p\<rparr>
      else (item_options [])\<lparr>lo_GrantID := lo_GrantID p, lo_AllocationID := lo_AllocationID p\<rparr>)"

definition listCommand :: "error option \<Rightarrow> string \<Rightarrow> ListOptions \<Rightarrow> string list \<Rightarrow> (world, json) tx" where
  "listCommand opened kind p changed =
     (let options = accepted_filters kind p in
      case find (\<lambda>(name, v). name \<in> set changed \<and> v = [])
          [(''grant-id'', lo_GrantID options), (''allocation-id'', lo_AllocationID options), (''manifest-id'', lo_ManifestID options)] of
        Some (name, _) \<Rightarrow> fail (PlainError (''--'' @ name @ '' must not be empty''))
      | None \<Rightarrow> withDB opened (query (store_List kind options)))"

definition run_command :: "codecs \<Rightarrow> (string \<Rightarrow> error) \<Rightarrow> error option \<Rightarrow> command \<Rightarrow> (world, json) tx" where
  "run_command cd time_error opened c = (case c of
     CreateCommand kind p \<Rightarrow> createCommand cd time_error opened kind p
   | SetStatusCommand kind i status \<Rightarrow> setStatusCommand opened kind i status
   | FundCommand kind i usd amount_eth \<Rightarrow> fundCommand opened kind i usd amount_eth
   | RevokeCommand kind i \<Rightarrow> setStatusCommand opened kind i ''revoked''
   | ListCommand kind p changed \<Rightarrow> listCommand opened kind p changed
   | ShowCommand kind i \<Rightarrow> withDB opened (query (store_List kind (item_options i)))
   | CreateKeyCommand p \<Rightarrow> createKeyCommand opened p
   | EscrowReportCommand \<Rightarrow> withDB opened (query report_rows)
   | EscrowActivityCommand \<Rightarrow> withDB opened (query (\<lambda>s. Inr (EscrowActivity s)))
   | LedgerReportCommand \<Rightarrow> withDB opened (query Report))"

text \<open>
  The migration group works on the database of \<open>Migrations\<close>: only \<open>up\<close> may create it and applies what is
  missing when it is opened, \<open>down\<close> and \<open>status\<close> do not.
\<close>

definition migrateCommand ::
  "'db engine \<Rightarrow> dir_entry list \<Rightarrow> error option \<Rightarrow> string \<Rightarrow> ('db mig_db, mig_status list) tx" where
  "migrateCommand en files opened action = (case opened of
     Some e \<Rightarrow> fail e
   | None \<Rightarrow>
       thenE (if action = ''up'' then Up en files else ret ())
         (thenE (if action = ''down'' then Down en files else ret ())
           (bindE (liftE (catalog en files)) (\<lambda>specs. bindE (gets (List specs)) liftE))))"

section \<open>A command is atomic\<close>

text \<open>
  What the work of a command does: it leads from a database in service to one, and a failure leaves
  every table as it was.  An operation whose answer can be shown still fails as a whole or not at all.
\<close>

definition work :: "(world, 'a) tx \<Rightarrow> bool" where
  "work m \<longleftrightarrow> (\<forall>s r s'. m s = (r, s') \<longrightarrow> (served s \<longrightarrow> served s') \<and> (isl r \<longrightarrow> tables.truncate s' = tables.truncate s))"

definition shown :: "json \<Rightarrow> bool" where
  "shown v \<longleftrightarrow> \<not> isl (displayETH_json v)"

lemma work_Write: "(\<And>s r s'. served s \<Longrightarrow> Write m s = (r, s') \<Longrightarrow> served s') \<Longrightarrow> work (Write m)"
  unfolding work_def by (metis Write_Inl isl_def)

lemma work_unless: "(\<not> c \<Longrightarrow> work m) \<Longrightarrow> work (if c then fail e else m)"
  by (simp add: work_def)

lemma work_input: "(\<And>x. r = Inr x \<Longrightarrow> work (f x)) \<Longrightarrow> work (bindE (liftE r) f)"
  by (auto simp: work_def bindE_liftE split: sum.splits)

lemma work_pair: "(\<And>x y. work (f x y)) \<Longrightarrow> work (case p of (x, y) \<Rightarrow> f x y)"
  by (cases p) simp

lemma work_query: "work (withDB opened (query f))"
  by (auto simp: work_def withDB_def query_def bindE_def gets_def liftE_def fail_def split: option.splits sum.splits prod.splits)

lemma work_reply:
  assumes "work m" "\<And>x. shown (g x)"
  shows "work (withDB opened (bindE m (\<lambda>x. ret (g x))))"
  using assms
  by (fastforce simp: work_def shown_def withDB_def bindE_def ret_def liftE_def fail_def split: option.splits sum.splits prod.splits)

lemma work_then: "work m \<Longrightarrow> shown v \<Longrightarrow> work (withDB opened (thenE m (ret v)))"
  using work_reply [of m "\<lambda>_. v"] by (simp add: thenE_def)

lemma shown_text_map:
  "shown (text_map [(''id'', a)])" "shown (text_map [(''id'', a), (''status'', b)])"
  "shown (text_map [(''allocation_id'', a), (''id'', b), (''api_key'', c)])"
  by (simp_all add: shown_def text_map_def amount_key_def suffix_def)

text \<open>The five operations, and the replies that are built from what they return.\<close>

lemma work_operations:
  "work (Create_tx kind p)" "work (FundCurrency kind i v cur)" "work (SetStatus kind i st)" "work (CreateKey a name)"
  "work (CreateKeyForGrantCurrency g name v cur)"
proof -
  show "work (FundCurrency kind i v cur)" "work (SetStatus kind i st)"
    using served.fund [of _ kind i v cur] served.status [of _ kind i st] unfolding FundCurrency_def SetStatus_def by (blast intro: work_Write)+
  show "work (CreateKey a name)"
    using served.key [of _ a name] unfolding CreateKey_def by (intro work_unless work_Write) simp
  show "work (Create_tx kind p)" unfolding work_def
  proof (intro allI impI conjI)
    fix s r s' assume run: "Create_tx kind p s = (r, s')"
    show "served s'" if "served s" using served.create [OF that run] .
    show "tables.truncate s' = tables.truncate s" if "isl r"
      using run that by (auto simp: Create_tx_def bindE_liftE isl_def dest: Write_Inl split: sum.splits)
  qed
  show "work (CreateKeyForGrantCurrency g name v cur)" unfolding work_def
  proof (intro allI impI conjI)
    fix s r s' assume run: "CreateKeyForGrantCurrency g name v cur s = (r, s')"
    show "served s'" if "served s" using served.key_for_grant [OF that run] .
    show "tables.truncate s' = tables.truncate s" if "isl r"
      using run that by (auto simp: CreateKeyForGrantCurrency_def Let_def bindE_liftE isl_def dest: Write_Inl split: sum.splits)
  qed
qed

lemma withDB_if: "withDB opened (if c then m else k) = (if c then withDB opened m else withDB opened k)"
  by simp

lemma work_input_inside: "(\<And>x. work (withDB opened (f x))) \<Longrightarrow> work (withDB opened (bindE (liftE r) f))"
  by (cases r; cases opened) (auto simp: work_def withDB_def bindE_def liftE_def fail_def ret_def split: sum.splits prod.splits)

lemma work_createKey: "work (createKeyCommand opened p)"
proof -
  have a: "work (withDB opened (bindE (CreateKey a n) (\<lambda>(i, key). ret (text_map [(''allocation_id'', a), (''id'', i), (''api_key'', key)]))))" for a n
    using work_reply [OF work_operations(4), of "\<lambda>x. text_map [(''allocation_id'', a), (''id'', fst x), (''api_key'', snd x)]" opened a n]
    by (simp add: shown_text_map case_prod_unfold)
  have g: "work (withDB opened (bindE (CreateKeyForGrantCurrency g n v cur)
      (\<lambda>(a, i, key). ret (text_map [(''allocation_id'', a), (''id'', i), (''api_key'', key)]))))" for g n v cur
    using work_reply [OF work_operations(5), of "\<lambda>x. text_map [(''allocation_id'', fst x), (''id'', fst (snd x)), (''api_key'', snd (snd x))]" opened g n v cur]
    by (simp add: shown_text_map case_prod_unfold)
  show ?thesis
    unfolding createKeyCommand_def withDB_if
    by (intro work_unless) (auto intro!: work_input_inside a g work_pair)
qed

lemma work_commands:
  "work (createCommand cd te opened kind q)" "work (setStatusCommand opened kind i st)" "work (fundCommand opened kind i usd wei)"
  "work (listCommand opened kind l changed)"
proof -
  show "work (createCommand cd te opened kind q)" unfolding createCommand_def
    by (intro work_input work_unless) (auto intro!: work_reply work_operations shown_text_map work_unless work_input split: prod.splits)
  show "work (setStatusCommand opened kind i st)" unfolding setStatusCommand_def
    by (intro work_then work_operations shown_text_map)
  show "work (fundCommand opened kind i usd wei)" unfolding fundCommand_def
    by (intro work_input) (auto intro!: work_then work_operations shown_text_map split: prod.splits)
  show "work (listCommand opened kind l changed)"
    by (auto simp: listCommand_def Let_def work_query work_def [of "fail _"] split: option.splits)
qed

lemma work_run_command: "work (run_command cd te opened c)"
  by (cases c) (simp_all add: run_command_def work_commands work_createKey work_query)

text \<open>The commands that only read leave the database as it was, whether or not their result can be shown.\<close>

definition read_only :: "command \<Rightarrow> bool" where
  "read_only c = (case c of ListCommand _ _ _ \<Rightarrow> True | ShowCommand _ _ \<Rightarrow> True | EscrowReportCommand \<Rightarrow> True
     | EscrowActivityCommand \<Rightarrow> True | LedgerReportCommand \<Rightarrow> True | _ \<Rightarrow> False)"

lemma query_same: "snd (withDB opened (query f) s) = s"
  by (auto simp: withDB_def query_def bindE_def gets_def liftE_def fail_def split: option.splits sum.splits prod.splits)

lemma read_only_same: "read_only c \<Longrightarrow> snd (run_command cd te opened c s) = s"
  by (cases c) (auto simp: read_only_def run_command_def listCommand_def Let_def query_same split: option.splits)

section \<open>The property\<close>

text \<open>
  C37: a command of the operator does its work as a whole or not at all: run on a database in service it
  leaves one in service, so that the ledger balances and the summaries are exact after any sequence
  of commands; when it fails, in its parameters, in the operation or in the display of the result,
  no table has changed, so that an error never hides work that was done; and the commands
  that list, show or report change nothing.
\<close>

theorem run_command_exact:
  assumes "run_command cd time_error opened c s = (r, s')"
  shows "(served s \<longrightarrow> served s') \<and> (isl r \<longrightarrow> tables.truncate s' = tables.truncate s) \<and> (read_only c \<longrightarrow> s' = s)"
  using work_run_command [of cd time_error opened c] read_only_same [of c cd time_error opened s] assms by (simp add: work_def)

lemma run_command_exact_witness:
  "\<forall>cd te. let (r, s') = run_command cd te None (SetStatusCommand ''grant'' sample_grant_id ''paused'') sample_granted
    in served s' \<and> \<not> isl r"
proof (intro allI)
  fix cd :: codecs and te
  let ?c = "SetStatusCommand ''grant'' sample_grant_id ''paused''"
  let ?x = "run_command cd te None ?c sample_granted"
  have "\<not> isl (fst (setStatusCommand None ''grant'' sample_grant_id ''paused'' sample_granted))" by code_simp
  then have "\<not> isl (fst ?x)" by (simp add: run_command_def)
  moreover have "served (snd ?x)"
    using run_command_exact [of cd te None ?c sample_granted "fst ?x" "snd ?x"] sample_granted_served by simp
  ultimately show "let (r, s') = ?x in served s' \<and> \<not> isl r" by (simp add: case_prod_unfold)
qed

end
