(* ===== verification/Spec2Isabelle.thy ===== *)
theory Spec2Isabelle
  imports Decoding Privilege Telemetry Commands
begin

text \<open>
  A verification library of the Livepeer clearinghouse, the accounting service that stands between
  gateways which sign payment tickets, the signer that asks whether a ticket may be signed, and the
  TicketBroker contract that pays the orchestrators.

  \<^bold>\<open>The program.\<close>  One SQLite database holds grants, the allocations funded from them, the API keys
  of an allocation, payment sessions, the audit log of usage events, a double-entry ledger, the escrow
  side of the ledger and the checkpoints of two event sources.  Operators change it through the
  management API (\<open>internal/app/management.go\<close>), which requires a service credential
  (\<open>internal/serviceauth\<close>) and may carry an idempotency key (\<open>internal/store/idempotency.go\<close>).  The
  signer's webhook (\<open>internal/auth\<close>, \<open>internal/store/auth.go\<close>) grants or refuses each ticket.  Issued
  tickets arrive over Kafka (\<open>internal/kafka\<close>) and are charged exactly once (\<open>internal/store/ingest.go\<close>);
  a monitor proves how much of the topic has been ingested, and the webhook refuses while that proof
  is missing or too old.  The chain listener (\<open>internal/chain\<close>) reads confirmed blocks and keeps the
  escrow balances (\<open>internal/store/settlements.go\<close>), across reorganisations.  \<open>migrations\<close> builds the
  schema; \<open>internal/app/server.go\<close> starts the selected components under file locks.

  \<^bold>\<open>The state.\<close>  \<open>Schema\<close> holds one record field per table (\<open>tables\<close>), with the checks and triggers of
  every statement that inserts; \<open>world\<close> adds what a process reads from its surroundings: identifiers,
  the wall clock, random bytes and SHA-256.  Everything that runs in a transaction is a function of
  the state-and-error monad of \<open>Prelude\<close>; \<open>Store.Write\<close> commits or rolls back.  Errors are values of
  \<open>error\<close>, amounts are unbounded integers (\<open>big.Int\<close>) with their canonical texts, block numbers and
  offsets are integers with the 64-bit wrap-around written out (\<open>i64\<close>) where the code could wrap.

  \<^bold>\<open>Theories and code.\<close>
  \<^item> \<open>Prelude\<close>, \<open>GoText\<close>, \<open>NetText\<close>: errors, transactions and their frame rules (locale
    \<open>preorder_frame\<close>), tables as association lists (locale \<open>upsert_table\<close>), and the parts of Go's
    standard library the source calls (base64, white space, host and port, IP addresses, paths).
  \<^item> \<open>Units\<close>: \<open>internal/units/eth.go\<close>, exact decimal amounts; what is accepted and the round trip.
  \<^item> \<open>Schema\<close>, \<open>Store\<close>: \<open>migrations/*.sql\<close>, \<open>internal/store/store.go\<close> and the summary updates of
    \<open>internal/store/metrics.go\<close>; the double-entry invariant, and the interface \<open>double_entry\<close> that
    the rest of the store posts through.
  \<^item> \<open>Manage\<close>, \<open>Funds\<close>: \<open>internal/store/manage.go\<close>; what a grant was given is always what it still
    holds plus what its allocations were given (\<open>funds\<close>), and no closed grant or revoked allocation
    comes back.
  \<^item> \<open>Auth\<close>, \<open>Webhook\<close>: \<open>internal/store/auth.go\<close> and \<open>internal/auth/http.go\<close>; the decision is the
    authorization policy, and deciding never moves money.
  \<^item> \<open>Ingest\<close>: \<open>internal/store/ingest.go\<close>; one audit row and one checkpoint step per message, at most
    one charge per event.
  \<^item> \<open>Settlements\<close>, \<open>Escrow\<close>, \<open>Reorg\<close>: \<open>internal/store/settlements.go\<close>; every escrow and treasury
    balance is the abstract effect (\<open>chain_effect\<close>) of the stored rows, a rewind is the inverse of the
    batches above the ancestor.
  \<^item> \<open>Idempotency\<close>: \<open>internal/store/idempotency.go\<close> with the interface \<open>mutation\<close>; replay and conflict.
  \<^item> \<open>Chain\<close>, \<open>Listener\<close>, \<open>Polling\<close>, \<open>Decoding\<close>: \<open>internal/chain/listener.go\<close>; go-ethereum and the
    node are the records \<open>geth\<close> and \<open>rpc\<close>.  Safety against any node, the effect of a poll, bounds of
    a batch, progress with an honest node, the grammar of redemptions, and types of what is stored.
  \<^item> \<open>Kafka\<close>, \<open>Consumer\<close>, \<open>Lag\<close>: \<open>internal/kafka/listener.go\<close>; the broker is the record \<open>broker\<close>,
    the goroutines of the partitions are a schedule of deliveries.  Exactly the records from the
    checkpoint on are ingested, and a granted request means that the topic was covered.
  \<^item> \<open>ServiceAuth\<close>: \<open>internal/serviceauth/registry.go\<close>, \<open>internal/kafka/security.go\<close>,
    \<open>internal/app/kafka_security.go\<close>; what a token is accepted for, and the separation of the broker's
    users.
  \<^item> \<open>Listing\<close>, \<open>Paging\<close>, \<open>Presentation\<close>, \<open>Management\<close>, \<open>Privilege\<close>: the lists of the store,
    \<open>internal/app/pagination.go\<close>, \<open>presentation.go\<close>, \<open>management.go\<close> and the two input helpers of
    \<open>cli.go\<close>; following the cursors ends with the whole list, and a request changes only tables that
    its credential has a permission for.
  \<^item> \<open>Migrations\<close>, \<open>Backfill\<close>, \<open>Upkeep\<close>, \<open>Summaries\<close>: \<open>migrations/migrations.go\<close> and
    \<open>metric_amounts.go\<close>; the history is a prefix of the catalogue, and the sums computed by the third
    migration are kept exact by every later operation of the store.
  \<^item> \<open>Snapshot\<close>: the reader of \<open>internal/store/metrics.go\<close>; the gauges it reads are the reference
    values computed from the rows.  A gauge carries the exact number, not its \<open>float64\<close>.
  \<^item> \<open>Server\<close>: \<open>internal/app/server.go\<close>; checks of the parameters, the start-up sequence with its
    locks, and how a process ends.
  \<^item> \<open>Telemetry\<close>: \<open>internal/metrics/metrics.go\<close> and \<open>internal/app/metrics.go\<close>; after any history of calls
    the counters, the amounts and the health of the collectors are exactly what the history says.
  \<^item> \<open>Commands\<close>: \<open>internal/app/cli.go\<close>; what each command runs on the database, as a whole or not at
    all.

  \<^bold>\<open>How the parts are composed.\<close>  \<open>Webhook.Handler\<close> calls \<open>Auth.Authorize\<close> behind
  \<open>ServiceAuth.Require\<close>; \<open>Management.managementHandler\<close> calls the idempotent operations, which run
  those of \<open>Manage\<close> inside \<open>Write\<close>; \<open>Lag.monitored\<close> interleaves polls of the monitor, restarts,
  ingestion and any other work; \<open>Summaries.served\<close> interleaves all operations of the store;
  \<open>Server.hosted\<close> interleaves the start and the end of processes.

  \<^bold>\<open>Bounds and fuel.\<close>  \<open>Chain.run_loop\<close> and \<open>Kafka.monitor_loop\<close> take the number of polls after which
  the context ends, since the loops end only then; the liveness theorem names a number of polls that
  is enough.  \<open>Paging.crawl\<close>, the client that follows cursors, is a partial function, and its theorem
  proves that it returns.  \<open>NetText.ipv6_groups\<close> counts the eight groups of an address down.

  \<^bold>\<open>Not modelled.\<close>  The Prometheus registry, its scrape format, the gauge of requests in flight and
  the rounding of the numbers; the points of the other components that call the instrumentation, whose
  results no component reads; the parsing of the command line, of the environment and of configuration
  files; the test fixtures; opening the SQLite file, its PRAGMAs and busy timeouts; the serving loop
  and the timeouts of \<open>net/http\<close>; the sockets of the Kafka client.  JSON, TOML and ABI decoding,
  SASLprep, SCRAM, Keccak and SHA-256 are parameters of the definitions that use them.
\<close>

end
